(* ===== verification/Prelude.thy ===== *)
theory Prelude
  imports Main "HOL-Library.Word"
begin

text \<open>
  Shared material of the development: the widths of the integers that cross the C boundary, the
  sign test on status words, the ``first failing guard wins'' combinator every wrapper method is
  built from, the error-propagating sequencing of fallible state transformers, and the
  generic interfaces that components implement: a last-in first-out stack of tokens, a transition
  system with an invariant, and a system of atomic steps whose events a specification accepts.
\<close>

named_theorems op_defs \<open>definitions of the wrapper operations, unfolded by the component proofs\<close>
named_theorems check_defs \<open>definitions of the validation functions (the check methods)\<close>

section \<open>Machine words\<close>

type_synonym uintptr = "64 word"
type_synonym tid = "32 word"

text \<open>\<open>int64(r) < 0\<close>: a status word is negative when read as two's complement.\<close>

definition sneg :: "uintptr \<Rightarrow> bool" where
  "sneg r \<longleftrightarrow> sint r < 0"

lemma sneg_zero [simp]: "\<not> sneg 0"
  by (simp add: sneg_def)

lemma sneg_one [simp]: "\<not> sneg 1"
  by (simp add: sneg_def)

section \<open>Guards\<close>

text \<open>
  A Go method starts with a chain of tests, each returning its error. The chain is a list of
  optional errors, and the first one present is the result.
\<close>

fun first_err :: "'e option list \<Rightarrow> 'e option" where
  "first_err [] = None"
| "first_err (None # gs) = first_err gs"
| "first_err (Some e # gs) = Some e"

definition fail_if :: "bool \<Rightarrow> 'e \<Rightarrow> 'e option" where
  "fail_if b e = (if b then Some e else None)"

lemma first_err_None [simp]: "first_err gs = None \<longleftrightarrow> (\<forall>g \<in> set gs. g = None)"
  by (induction gs rule: first_err.induct) auto

lemma first_err_Cons: "first_err (g # gs) = (case g of None \<Rightarrow> first_err gs | Some e \<Rightarrow> Some e)"
  by (cases g) auto

lemma first_err_fail_if [simp]: "first_err (fail_if b e # gs) = (if b then Some e else first_err gs)"
  by (simp add: fail_if_def)

lemma fail_if_None [simp]: "fail_if b e = None \<longleftrightarrow> \<not> b"
  by (simp add: fail_if_def)

lemma fail_if_Some [simp]: "fail_if b e = Some e' \<longleftrightarrow> b \<and> e' = e"
  by (auto simp: fail_if_def)

lemma fail_if_simps [simp]: "fail_if True e = Some e" "fail_if False e = None"
  by (simp_all add: fail_if_def)

section \<open>Fallible state transformers\<close>

type_synonym ('e, 'a, 's) outcome = "('e + 'a) \<times> 's"

text \<open>\<open>guarded gs k w\<close>: return the first error of \<open>gs\<close> with the state untouched, else go on.\<close>

definition guarded :: "'e option list \<Rightarrow> ('s \<Rightarrow> ('e, 'a, 's) outcome) \<Rightarrow> 's \<Rightarrow> ('e, 'a, 's) outcome" where
  "guarded gs k w = (case first_err gs of Some e \<Rightarrow> (Inl e, w) | None \<Rightarrow> k w)"

text \<open>\<open>andThen m k\<close>: propagate the error of \<open>m\<close>, else continue with its value and state.\<close>

definition andThen :: "('e, 'a, 's) outcome \<Rightarrow> ('a \<Rightarrow> 's \<Rightarrow> ('e, 'b, 's) outcome) \<Rightarrow> ('e, 'b, 's) outcome" where
  "andThen m k = (case m of (Inl e, w) \<Rightarrow> (Inl e, w) | (Inr a, w) \<Rightarrow> k a w)"

lemma andThen_simps [simp]:
  "andThen (Inl e, w) k = (Inl e, w)"
  "andThen (Inr a, w) k = k a w"
  by (simp_all add: andThen_def)

lemma guarded_refuse: "first_err gs = Some e \<Longrightarrow> guarded gs k w = (Inl e, w)"
  by (simp add: guarded_def)

lemma guarded_pass: "first_err gs = None \<Longrightarrow> guarded gs k w = k w"
  by (simp add: guarded_def del: first_err_None)

lemma guarded_Some [simp]: "guarded (Some e # gs) k w = (Inl e, w)"
  by (simp add: guarded_def)

lemma guarded_None [simp]: "guarded (None # gs) k w = guarded gs k w"
  by (simp add: guarded_def)

lemma guarded_Nil [simp]: "guarded [] k w = k w"
  by (simp add: guarded_def)

lemma guarded_fail_if [simp]:
  "guarded (fail_if b e # gs) k w = (if b then (Inl e, w) else guarded gs k w)"
  by (simp add: fail_if_def)

lemma guarded_eq_Inr:
  "guarded gs k w = (Inr a, w') \<longleftrightarrow> (\<forall>g \<in> set gs. g = None) \<and> k w = (Inr a, w')"
  by (auto simp: guarded_def simp flip: first_err_None split: option.splits)

lemma fst_eq_pair: "fst p = x \<Longrightarrow> p = (x, snd p)"
  by (cases p) simp

lemma andThen_eq_Inr:
  "andThen m k = (Inr b, w') \<longleftrightarrow> (\<exists>a w. m = (Inr a, w) \<and> k a w = (Inr b, w'))"
  by (cases m; cases "fst m") (auto simp: andThen_def)

text \<open>
  Properties of the state that a guarded or sequenced operation leaves behind: \<open>P\<close> holds of the
  final state when it holds on the error exits and the continuation keeps it.
\<close>

lemma guarded_state:
  assumes "P w" and "(\<forall>g \<in> set gs. g = None) \<Longrightarrow> P (snd (k w))"
  shows "P (snd (guarded gs k w))"
  using assms by (auto simp: guarded_def simp flip: first_err_None split: option.splits)

lemma andThen_state:
  assumes "P (snd m)" and "\<And>a w. m = (Inr a, w) \<Longrightarrow> P (snd (k a w))"
  shows "P (snd (andThen m k))"
  using assms by (cases m; cases "fst m") (auto simp: andThen_def)

lemma snd_guarded: "snd (guarded gs k w) = (if first_err gs = None then snd (k w) else w)"
  by (auto simp: guarded_def simp flip: first_err_None split: option.splits)

lemma snd_andThen: "snd (andThen m k) = (case fst m of Inl e \<Rightarrow> snd m | Inr a \<Rightarrow> snd (k a (snd m)))"
  by (cases m; cases "fst m") auto

lemma snd_case_option: "snd (case x of None \<Rightarrow> (a, w) | Some e \<Rightarrow> (f e, w)) = w"
  by (cases x) auto

text \<open>An operation on a part of the state, as an operation on the whole.\<close>

definition lift :: "('s \<Rightarrow> 'w) \<Rightarrow> ('w \<Rightarrow> 's \<Rightarrow> 's) \<Rightarrow> ('w \<Rightarrow> ('e, 'a, 'w) outcome) \<Rightarrow> 's \<Rightarrow> ('e, 'a, 's) outcome" where
  "lift get put f s = (fst (f (get s)), put (snd (f (get s))) s)"

lemmas outcome_simps = snd_guarded snd_andThen snd_case_option

section \<open>Function updates and cardinalities\<close>

lemma card_insert_remove:
  assumes "finite A"
  shows "x \<notin> A \<Longrightarrow> card (insert x A) = Suc (card A)"
    and "x \<in> A \<Longrightarrow> card (A - {x}) = card A - 1"
  using assms by (simp_all add: card_Diff_singleton)

lemma last_in_set_iff: "xs \<noteq> [] \<Longrightarrow> last xs = x \<Longrightarrow> x \<in> set xs"
  by auto

lemma set_butlast_distinct:
  assumes "distinct xs" "xs \<noteq> []"
  shows "set (butlast xs) = set xs - {last xs}"
proof -
  obtain ys y where xs: "xs = ys @ [y]"
    using assms(2) by (cases xs rule: rev_cases) auto
  with assms(1) show ?thesis by auto
qed

section \<open>Stacks of tokens\<close>

text \<open>
  The interface of a stack whose elements are removed by naming them: \<open>pop\<close> of a token succeeds
  only when the token is on top. \<open>view\<close> is the content, bottom first.
\<close>

locale token_stack =
  fixes push :: "'x \<Rightarrow> 's \<Rightarrow> 's"
    and pop :: "'x \<Rightarrow> 's \<Rightarrow> 's option"
    and is_top :: "'s \<Rightarrow> 'x \<Rightarrow> bool"
    and view :: "'s \<Rightarrow> 'x list"
  assumes view_push: "view (push x s) = view s @ [x]"
    and is_top_view: "is_top s x \<longleftrightarrow> view s \<noteq> [] \<and> last (view s) = x"
    and pop_not_top: "\<not> is_top s x \<Longrightarrow> pop x s = None"
    and pop_top: "is_top s x \<Longrightarrow> \<exists>s'. pop x s = Some s' \<and> view s' = butlast (view s)"
begin

primrec pushes :: "'x list \<Rightarrow> 's \<Rightarrow> 's" where
  "pushes [] s = s"
| "pushes (x # xs) s = pushes xs (push x s)"

primrec pops :: "'x list \<Rightarrow> 's \<Rightarrow> 's option" where
  "pops [] s = Some s"
| "pops (x # xs) s = (case pop x s of None \<Rightarrow> None | Some s' \<Rightarrow> pops xs s')"

lemma view_pushes: "view (pushes xs s) = view s @ xs"
  by (induction xs arbitrary: s) (auto simp: view_push)

lemma pop_eq_Some: "pop x s = Some s' \<Longrightarrow> view s = view s' @ [x]"
  using pop_top [of s x] pop_not_top [of s x] is_top_view [of s x]
  by (cases "is_top s x") (auto simp: append_butlast_last_id)

lemma pop_push: "\<exists>s'. pop x (push x s) = Some s' \<and> view s' = view s"
  using pop_top [of "push x s" x] by (auto simp: is_top_view view_push)

lemma pops_view: "pops ys s = Some s' \<Longrightarrow> view s = view s' @ rev ys"
proof (induction ys arbitrary: s)
  case Nil
  then show ?case by simp
next
  case (Cons y ys)
  then obtain s1 where "pop y s = Some s1" and "pops ys s1 = Some s'"
    by (auto split: option.splits)
  with Cons.IH [of s1] pop_eq_Some [of y s s1] show ?case by simp
qed

lemma pops_exists: "view s = zs @ rev ys \<Longrightarrow> \<exists>s'. pops ys s = Some s' \<and> view s' = zs"
proof (induction ys arbitrary: s)
  case Nil
  then show ?case by simp
next
  case (Cons y ys)
  then have "is_top s y" by (simp add: is_top_view)
  with pop_top obtain s1 where s1: "pop y s = Some s1" "view s1 = butlast (view s)" by blast
  with Cons.prems have "view s1 = zs @ rev ys" by (simp add: butlast_append)
  with Cons.IH s1 show ?case by simp
qed

text \<open>Tokens pushed one after another can be removed in exactly one order: the reverse.\<close>

lemma pops_pushes_iff:
  assumes "length ys = length xs"
  shows "(\<exists>s'. pops ys (pushes xs s) = Some s') \<longleftrightarrow> ys = rev xs"
proof
  assume "\<exists>s'. pops ys (pushes xs s) = Some s'"
  then obtain s' where "view (pushes xs s) = view s' @ rev ys"
    using pops_view by blast
  then have "view s @ xs = view s' @ rev ys" by (simp add: view_pushes)
  with assms have "xs = rev ys" by (metis append_eq_append_conv length_rev)
  then show "ys = rev xs" by simp
next
  assume "ys = rev xs"
  then show "\<exists>s'. pops ys (pushes xs s) = Some s'"
    using pops_exists [of "pushes xs s" "view s" ys] by (auto simp: view_pushes)
qed

end

section \<open>Transition systems with an invariant\<close>

locale invariant_system =
  fixes init :: "'s \<Rightarrow> bool"
    and step :: "'s \<Rightarrow> 's \<Rightarrow> bool"
    and inv :: "'s \<Rightarrow> bool"
  assumes inv_init: "init s \<Longrightarrow> inv s"
    and inv_step: "step s s' \<Longrightarrow> inv s \<Longrightarrow> inv s'"
begin

inductive reach :: "'s \<Rightarrow> bool" where
  reach_init: "init s \<Longrightarrow> reach s"
| reach_step: "reach s \<Longrightarrow> step s s' \<Longrightarrow> reach s'"

lemma reach_inv: "reach s \<Longrightarrow> inv s"
  by (induction rule: reach.induct) (auto intro: inv_init inv_step)

lemma rtranclp_inv: "step\<^sup>*\<^sup>* s s' \<Longrightarrow> inv s \<Longrightarrow> inv s'"
  by (induction rule: rtranclp_induct) (auto intro: inv_step)

end

section \<open>Trace refinement\<close>

text \<open>
  A system of atomic steps that emit events, and a specification that accepts events: every
  event in turn must be possible in the state of the specification.
\<close>

primrec emits :: "('act \<Rightarrow> 'c \<Rightarrow> 'ev list \<times> 'c) \<Rightarrow> 'act list \<Rightarrow> 'c \<Rightarrow> 'ev list \<times> 'c" where
  "emits f [] c = ([], c)"
| "emits f (x # xs) c = (let (es, c1) = f x c; (fs, c2) = emits f xs c1 in (es @ fs, c2))"

primrec replay :: "('ev \<Rightarrow> 'a \<Rightarrow> 'a option) \<Rightarrow> 'ev list \<Rightarrow> 'a \<Rightarrow> 'a option" where
  "replay accept [] a = Some a"
| "replay accept (e # es) a = Option.bind (accept e a) (replay accept es)"

lemma replay_append: "replay accept (es @ fs) a = Option.bind (replay accept es a) (replay accept fs)"
  by (induction es arbitrary: a) (auto simp: Option.bind_eq_None_conv split: Option.bind_split)

locale trace_refinement =
  fixes step :: "'act \<Rightarrow> 'c \<Rightarrow> 'ev list \<times> 'c"
    and accept :: "'ev \<Rightarrow> 'a \<Rightarrow> 'a option"
    and abs :: "'c \<Rightarrow> 'a"
    and inv :: "'c \<Rightarrow> bool"
  assumes inv_step: "inv c \<Longrightarrow> inv (snd (step x c))"
    and sim_step: "inv c \<Longrightarrow> replay accept (fst (step x c)) (abs c) = Some (abs (snd (step x c)))"
begin

lemma emits_refine:
  "inv c \<Longrightarrow> replay accept (fst (emits step xs c)) (abs c) = Some (abs (snd (emits step xs c))) \<and> inv (snd (emits step xs c))"
proof (induction xs arbitrary: c)
  case (Cons x xs)
  then show ?case using inv_step [of c x] sim_step [of c x] by (simp add: replay_append split_def Let_def)
qed simp

end

end
