(* ===== verification/Runtime.thy ===== *)
theory Runtime
  imports Prelude
begin

text \<open>
  The state of the binding and its boundary with the engine. The package-level variables of the
  Go sources and the heap of wrapper objects are one record, \<open>world\<close>; a Go pointer is a number,
  and the heap of each wrapper type is a function from pointers to records. The default record
  of a heap is a closed object, so a pointer that was never handed out names a closed object.

  The engine and the C shim are a parameter \<open>E\<close> of every operation that calls them: a function of
  the calls made so far and of the call at hand. Every call is recorded in the field \<open>calls\<close>
  with the thread that made it, so that ``this operation does not enter the engine'' is a
  statement about the state. The last part models ffi.go: \<open>callErr\<close>, \<open>callHandle\<close> and the
  copy-on-write table of resolved exports.
\<close>

section \<open>Errors\<close>

datatype kind =
    KIsolate | KScope | KEscapable | KContext | KContextScope | KContextRef | KQueue
  | KTryCatch | KScript | KGlobal | KWeak | KLocker | KValue | KDisallow | KAllow
  | KOwningScope

datatype IntoSharedErrorKind =
    KindSnapshotCreator | KindLiveWeakHandlesOrPendingFinalizers | KindEmbedderCppHeap
  | KindAnotherIsolateEntered

datatype platformState =
    stateUninitialized | stateInitialized | stateDisposed | statePlatformShutdown

text \<open>
  One constructor per error shape of the sources. The text the Go code puts around the arguments
  is in the comment of the constructor; the detail string that \<open>ShimError\<close> fetches from the shim's
  thread-local message buffer is not kept.
\<close>

datatype error =
    ErrNotInitialized                          \<comment> \<open>v8 platform is not initialized\<close>
  | ShimLoadError string                       \<comment> \<open>what loadShim recorded\<close>
  | ShimError string uintptr                   \<comment> \<open>operation and status word\<close>
  | InvalidState string platformState          \<comment> \<open>invalid global state: op called in state n\<close>
  | LiveIsolates nat                           \<comment> \<open>Dispose with n live isolate(s)\<close>
  | UsedAfterClose kind
  | AlreadyClosed kind
  | Foreign kind                               \<comment> \<open>belongs to a different isolate\<close>
  | NilArgument kind
  | AffinityViolated tid tid                   \<comment> \<open>bound to thread a, called from thread b\<close>
  | CloseWrongThread kind tid tid
  | IntoSharedError IntoSharedErrorKind nat
  | LiveInspectorState nat nat nat             \<comment> \<open>inspectors, sessions, context registrations\<close>
  | Misuse string                              \<comment> \<open>a fixed message\<close>
  | MisuseCount string nat                     \<comment> \<open>a message with one number\<close>

type_synonym ref = nat

section \<open>Wrapper objects\<close>

datatype scope_token = ScopeTok ref | EscTok ref

record Isolate =
  i_handle :: uintptr
  i_tid :: tid
  i_closed :: bool
  i_closedState :: bool
  i_contextsCreated :: bool
  i_advancedCounterHandle :: uintptr
  i_advancedExternalReferences :: bool
  i_customCppGCHeap :: bool
  i_arrayBufferAllocatorReference :: uintptr
  i_handleScopeStack :: "scope_token list"

record Scope =
  s_iso :: ref
  s_handle :: uintptr
  s_closed :: bool
  s_borrowed :: bool
  s_activeBorrowedContextScopes :: "32 word"
  s_javascriptExecutionGuards :: "uintptr list"

record EscapableScope =
  e_iso :: ref
  e_outer :: ref
  e_handle :: uintptr
  e_escaped :: bool
  e_closed :: bool

record Context =
  c_iso :: ref
  c_handle :: uintptr
  c_closed :: bool
  c_microtaskQueue :: "ref option"

record MicrotaskQueue =
  m_iso :: ref
  m_handle :: uintptr
  m_raw :: uintptr
  m_closed :: bool
  m_attachments :: int

record TryCatch =
  tc_iso :: ref
  tc_handle :: uintptr
  tc_closed :: bool

text \<open>A script keeps one word that is 0 while open and 1 after Close; Run lends it to the shim as
  the slot its result is written to.\<close>

record Script =
  sc_iso :: ref
  sc_ctx :: ref
  sc_handle :: uintptr
  sc_state :: uintptr

record Value =
  v_iso :: ref
  v_sc :: ref
  v_h :: uintptr

record ContextRef =
  r_iso :: ref
  r_sc :: ref
  r_h :: uintptr

datatype entered = EnteredCtx ref | EnteredRef ContextRef

record ContextScope =
  cs_iso :: ref
  cs_entered :: entered
  cs_closed :: bool

record Global =
  g_iso :: ref
  g_cell :: uintptr
  g_closed :: bool

record Weak =
  w_iso :: ref
  w_wrap :: uintptr
  w_empty :: bool
  w_id :: nat
  w_tracked :: bool
  w_closed :: bool

datatype finalizer = Regular nat | Guaranteed nat

record weakEntry =
  we_iso :: ref
  we_weak :: ref
  we_wrap :: uintptr
  we_fin :: finalizer

record sharedState =
  st_locked :: bool
  st_window :: bool
  st_ownerTid :: tid
  st_windowOwnerTid :: tid
  st_creatorTid :: tid

record Locker =
  l_iso :: ref
  l_handle :: uintptr
  l_tid :: tid
  l_closed :: bool

record JSGuard =
  d_scope :: ref
  d_handle :: uintptr
  d_closed :: bool

record cppgcPersistentHandle =
  p_iso :: ref
  p_handle :: uintptr
  p_weak :: bool
  p_closed :: bool

record inspectorLifecycle =
  il_inspectors :: nat
  il_sessions :: nat
  il_contexts :: "(ref \<times> nat) list"

type_synonym PlatformKind = "8 word"

record platformConfiguration =
  pc_kind :: PlatformKind
  pc_threadPoolSize :: "32 word"
  pc_idleTasks :: bool

record customPlatformConfiguration =
  cp_idle :: bool
  cp_unprotected :: bool
  cp_threads :: "32 word"
  cp_id :: nat

section \<open>The state\<close>

text \<open>An argument of a shim call: a word, the content of a Go buffer passed by pointer and length,
  a pointer to an output variable, or an output buffer of a given capacity.\<close>

datatype arg = W uintptr | Buf string | Out | OutBuf int

datatype call = Call (call_tid: tid) (call_proc: string) (call_args: "arg list")

record world =
  calls :: "call list"
  shimLoadErr :: "error option"
  platform :: platformState
  liveIsolates :: "ref set"
  selectedPlatform :: "platformConfiguration option"
  selectedCustomPlatform :: "customPlatformConfiguration option"
  cppgcExplicit :: bool
  cppgcRetainedPlatform :: bool
  cppgcHeaps :: "ref set"
  nextRef :: nat
  osPins :: "tid \<Rightarrow> nat"
  isolates :: "ref \<Rightarrow> Isolate"
  scopes :: "ref \<Rightarrow> Scope"
  escScopes :: "ref \<Rightarrow> EscapableScope"
  contexts :: "ref \<Rightarrow> Context"
  queues :: "ref \<Rightarrow> MicrotaskQueue"
  tryCatches :: "ref \<Rightarrow> TryCatch"
  scripts :: "ref \<Rightarrow> Script"
  ctxScopes :: "ref \<Rightarrow> ContextScope"
  contextScopeStacks :: "ref \<Rightarrow> ref list"
  disallows :: "ref \<Rightarrow> JSGuard"
  allows :: "ref \<Rightarrow> JSGuard"
  globals :: "ref \<Rightarrow> Global"
  weaks :: "ref \<Rightarrow> Weak"
  weakNext :: nat
  weakEntries :: "nat \<rightharpoonup> weakEntry"
  weakLiveness :: "ref \<Rightarrow> nat"
  weakDispatcherErr :: "error option option"
  sharedRegistry :: "ref \<rightharpoonup> sharedState"
  lockers :: "ref \<Rightarrow> Locker"
  inspectorIsolates :: "ref \<rightharpoonup> inspectorLifecycle"
  inspectorInspectables :: "(nat \<times> ref) list"
  heapSnapshotActive :: "ref \<Rightarrow> nat"
  cppgcPersistents :: "ref \<Rightarrow> cppgcPersistentHandle"
  cppgcPersistentIsolates :: "ref \<Rightarrow> ref list"
  fastAPIIsolates :: "ref set"
  isolateCounters :: "uintptr set"
  finalized :: "nat list"

type_synonym 'a result = "(error, 'a, world) outcome"

text \<open>Two fields are logs rather than Go variables: \<open>calls\<close>, the boundary crossings, and \<open>finalized\<close>,
  the numbers of the weak finalizers that were invoked, in order.\<close>

section \<open>Allocation and heap updates\<close>

text \<open>\<open>nextRef\<close> is the next unused Go pointer.\<close>

abbreviation upd_iso :: "ref \<Rightarrow> (Isolate \<Rightarrow> Isolate) \<Rightarrow> world \<Rightarrow> world" where
  "upd_iso i f w \<equiv> w\<lparr>isolates := (isolates w)(i := f (isolates w i))\<rparr>"

abbreviation upd_scope :: "ref \<Rightarrow> (Scope \<Rightarrow> Scope) \<Rightarrow> world \<Rightarrow> world" where
  "upd_scope s f w \<equiv> w\<lparr>scopes := (scopes w)(s := f (scopes w s))\<rparr>"

abbreviation upd_esc :: "ref \<Rightarrow> (EscapableScope \<Rightarrow> EscapableScope) \<Rightarrow> world \<Rightarrow> world" where
  "upd_esc e f w \<equiv> w\<lparr>escScopes := (escScopes w)(e := f (escScopes w e))\<rparr>"

abbreviation upd_ctx :: "ref \<Rightarrow> (Context \<Rightarrow> Context) \<Rightarrow> world \<Rightarrow> world" where
  "upd_ctx c f w \<equiv> w\<lparr>contexts := (contexts w)(c := f (contexts w c))\<rparr>"

abbreviation upd_queue :: "ref \<Rightarrow> (MicrotaskQueue \<Rightarrow> MicrotaskQueue) \<Rightarrow> world \<Rightarrow> world" where
  "upd_queue m f w \<equiv> w\<lparr>queues := (queues w)(m := f (queues w m))\<rparr>"

abbreviation upd_weak :: "ref \<Rightarrow> (Weak \<Rightarrow> Weak) \<Rightarrow> world \<Rightarrow> world" where
  "upd_weak x f w \<equiv> w\<lparr>weaks := (weaks w)(x := f (weaks w x))\<rparr>"

section \<open>The boundary: ffi.go\<close>

text \<open>An answer of the shim: the status or handle word, the output variables it wrote, and the bytes
  it wrote into the caller's buffer.\<close>

record resp =
  r1 :: uintptr
  outs :: "uintptr list"
  data :: string

type_synonym engine = "call list \<Rightarrow> call \<Rightarrow> resp"

text \<open>\<open>out n\<close> is what the shim wrote through the \<open>n\<close>-th output pointer; an output variable that the
  shim does not write keeps its Go zero value.\<close>

definition out :: "resp \<Rightarrow> nat \<Rightarrow> uintptr" where
  "out r n = (if n < length (outs r) then outs r ! n else 0)"

definition shim :: "engine \<Rightarrow> tid \<Rightarrow> string \<Rightarrow> arg list \<Rightarrow> world \<Rightarrow> resp \<times> world" where
  "shim E t p args w = (E (calls w) (Call t p args), w\<lparr>calls := calls w @ [Call t p args]\<rparr>)"

definition callErr :: "engine \<Rightarrow> tid \<Rightarrow> string \<Rightarrow> string \<Rightarrow> arg list \<Rightarrow> world \<Rightarrow> resp result" where
  "callErr E t oper p args w =
     (let (r, w1) = shim E t p args w
      in if sneg (r1 r) then (Inl (ShimError oper (r1 r)), w1) else (Inr r, w1))"

definition callHandle :: "engine \<Rightarrow> tid \<Rightarrow> string \<Rightarrow> string \<Rightarrow> arg list \<Rightarrow> world \<Rightarrow> uintptr result" where
  "callHandle E t oper p args w =
     (let (r, w1) = shim E t p args w
      in if r1 r = 0 then (Inl (ShimError oper 0), w1) else (Inr (r1 r), w1))"

definition errException :: uintptr where
  "errException = - 5"

definition IsException :: "error \<Rightarrow> bool" where
  "IsException e = (case e of ShimError oper code \<Rightarrow> code = errException | _ \<Rightarrow> False)"

text \<open>The state a boundary call leaves: one more entry in \<open>calls\<close>, nothing else.\<close>

definition called :: "tid \<Rightarrow> string \<Rightarrow> arg list \<Rightarrow> world \<Rightarrow> world" where
  "called t p args w = w\<lparr>calls := calls w @ [Call t p args]\<rparr>"

lemma shim_eq: "shim E t p args w = (E (calls w) (Call t p args), called t p args w)"
  by (simp add: shim_def called_def)

lemma callErr_eq:
  "callErr E t oper p args w =
     (let r = E (calls w) (Call t p args)
      in (if sneg (r1 r) then Inl (ShimError oper (r1 r)) else Inr r, called t p args w))"
  by (simp add: callErr_def shim_eq Let_def)

lemma callHandle_eq:
  "callHandle E t oper p args w =
     (let r = E (calls w) (Call t p args)
      in (if r1 r = 0 then Inl (ShimError oper 0) else Inr (r1 r), called t p args w))"
  by (simp add: callHandle_def shim_eq Let_def)

lemmas call_eqs = shim_eq callErr_eq callHandle_eq

lemma called_simps [simp]:
  "calls (called t p a w) = calls w @ [Call t p a]"
  "shimLoadErr (called t p a w) = shimLoadErr w"
  "platform (called t p a w) = platform w"
  "liveIsolates (called t p a w) = liveIsolates w"
  "selectedPlatform (called t p a w) = selectedPlatform w"
  "selectedCustomPlatform (called t p a w) = selectedCustomPlatform w"
  "cppgcExplicit (called t p a w) = cppgcExplicit w"
  "cppgcRetainedPlatform (called t p a w) = cppgcRetainedPlatform w"
  "cppgcHeaps (called t p a w) = cppgcHeaps w"
  "nextRef (called t p a w) = nextRef w"
  "osPins (called t p a w) = osPins w"
  "isolates (called t p a w) = isolates w"
  "scopes (called t p a w) = scopes w"
  "escScopes (called t p a w) = escScopes w"
  "contexts (called t p a w) = contexts w"
  "queues (called t p a w) = queues w"
  "tryCatches (called t p a w) = tryCatches w"
  "scripts (called t p a w) = scripts w"
  "ctxScopes (called t p a w) = ctxScopes w"
  "contextScopeStacks (called t p a w) = contextScopeStacks w"
  "disallows (called t p a w) = disallows w"
  "allows (called t p a w) = allows w"
  "globals (called t p a w) = globals w"
  "weaks (called t p a w) = weaks w"
  "weakNext (called t p a w) = weakNext w"
  "weakEntries (called t p a w) = weakEntries w"
  "weakLiveness (called t p a w) = weakLiveness w"
  "weakDispatcherErr (called t p a w) = weakDispatcherErr w"
  "sharedRegistry (called t p a w) = sharedRegistry w"
  "lockers (called t p a w) = lockers w"
  "inspectorIsolates (called t p a w) = inspectorIsolates w"
  "inspectorInspectables (called t p a w) = inspectorInspectables w"
  "heapSnapshotActive (called t p a w) = heapSnapshotActive w"
  "cppgcPersistents (called t p a w) = cppgcPersistents w"
  "cppgcPersistentIsolates (called t p a w) = cppgcPersistentIsolates w"
  "fastAPIIsolates (called t p a w) = fastAPIIsolates w"
  "isolateCounters (called t p a w) = isolateCounters w"
  "finalized (called t p a w) = finalized w"
  by (simp_all add: called_def)

section \<open>Properties that boundary calls keep\<close>

text \<open>
  The contract under which an operation preserves a property of the state without looking at it:
  the property survives a boundary call, and then it survives every composition of guards and
  calls. The extension adds allocation. Each component extends it by the updates it makes, and
  shows once that all its operations keep any such property.
\<close>

locale stable =
  fixes P :: "world \<Rightarrow> bool"
  assumes P_called: "P w \<Longrightarrow> P (called t p a w)"
begin

lemma P_callErr: "P w \<Longrightarrow> P (snd (callErr E t oper p a w))"
  by (simp add: callErr_eq Let_def P_called)

lemma P_callHandle: "P w \<Longrightarrow> P (snd (callHandle E t oper p a w))"
  by (simp add: callHandle_eq Let_def P_called)

lemma P_guarded: "P w \<Longrightarrow> P (snd (k w)) \<Longrightarrow> P (snd (guarded gs k w))"
  by (simp add: snd_guarded)

lemma P_andThen: "P (snd m) \<Longrightarrow> (\<And>a w'. P w' \<Longrightarrow> P (snd (k a w'))) \<Longrightarrow> P (snd (andThen m k))"
  by (simp add: snd_andThen split: sum.split)

lemmas P_rules = P_guarded P_andThen P_callErr P_callHandle P_called

end

locale alloc_stable = stable +
  assumes upd_nextRef: "P w \<Longrightarrow> nextRef w \<le> n \<Longrightarrow> P (w\<lparr>nextRef := n\<rparr>)"

section \<open>The table of resolved exports\<close>

text \<open>
  \<open>procTable\<close> is an immutable map published through an atomic pointer; \<open>None\<close> is the nil pointer
  before \<open>loadShim\<close> stores the first table. A missing export panics, which is \<open>None\<close> as a
  result. \<open>finds\<close> records the calls of \<open>FindProc\<close>, whose answer is the parameter \<open>F\<close>.
\<close>

record procs =
  procTable :: "(string \<rightharpoonup> uintptr) option"
  finds :: "string list"

definition resolveProc :: "(string \<Rightarrow> uintptr option) \<Rightarrow> string \<Rightarrow> procs \<Rightarrow> uintptr option \<times> procs" where
  "resolveProc F name s =
     (case procTable s of
        Some m \<Rightarrow>
          (case m name of
             Some p \<Rightarrow> (Some p, s)
           | None \<Rightarrow>
               (case F name of
                  None \<Rightarrow> (None, s\<lparr>finds := finds s @ [name]\<rparr>)
                | Some p \<Rightarrow>
                    (Some p, s\<lparr>finds := finds s @ [name], procTable := Some (m(name \<mapsto> p))\<rparr>)))
      | None \<Rightarrow> (None, s\<lparr>finds := finds s @ [name]\<rparr>))"

definition proc :: "(string \<Rightarrow> uintptr option) \<Rightarrow> string \<Rightarrow> procs \<Rightarrow> uintptr option \<times> procs" where
  "proc F name s =
     (case procTable s of
        Some m \<Rightarrow> (case m name of Some p \<Rightarrow> (Some p, s) | None \<Rightarrow> resolveProc F name s)
      | None \<Rightarrow> resolveProc F name s)"

primrec procCalls :: "(string \<Rightarrow> uintptr option) \<Rightarrow> string list \<Rightarrow> procs \<Rightarrow> procs" where
  "procCalls F [] s = s"
| "procCalls F (n # ns) s = procCalls F ns (snd (proc F n s))"

text \<open>Every table entry is what \<open>FindProc\<close> answers, and every found export was searched once.\<close>

definition table_sound :: "(string \<Rightarrow> uintptr option) \<Rightarrow> procs \<Rightarrow> bool" where
  "table_sound F s \<longleftrightarrow>
     (\<exists>m. procTable s = Some m \<and> (\<forall>n p. m n = Some p \<longrightarrow> F n = Some p)
        \<and> (\<forall>n. n \<in> set (finds s) \<and> F n \<noteq> None \<longrightarrow> m n \<noteq> None)
        \<and> (\<forall>n. F n \<noteq> None \<longrightarrow> count_list (finds s) n \<le> 1))"

lemma proc_result:
  "table_sound F s \<Longrightarrow> fst (proc F n s) = F n"
  by (auto simp: table_sound_def proc_def resolveProc_def split: option.splits)

lemma proc_table_sound: "table_sound F s \<Longrightarrow> table_sound F (snd (proc F n s))"
  by (force simp: table_sound_def proc_def resolveProc_def count_list_0_iff
      dest: count_notin split: option.splits)

lemma procCalls_table_sound: "table_sound F s \<Longrightarrow> table_sound F (procCalls F ns s)"
  by (induction ns arbitrary: s) (auto intro: proc_table_sound)

end
