(* ===== verification/Lifecycle.thy ===== *)
theory Lifecycle
  imports Runtime
begin

text \<open>
  The process-global state machine and the isolates: gov8.go (Initialize, Dispose,
  DisposePlatform, Shutdown, the live-isolate accounting), platform.go (platform selection),
  the parts of cppgc_heap_lifecycle.go and platform_custom.go that Initialize consults, and
  isolate.go (creation, validation and disposal), with the teardown hooks of the components that
  hang native objects off an isolate (inspector, heap snapshots, cppgc persistents, fast API
  descriptors, counters).
\<close>

section \<open>The platform state machine\<close>

definition loadShim :: "world \<Rightarrow> error option" where
  [check_defs]: "loadShim w = shimLoadErr w"

definition storePlatform :: "platformState \<Rightarrow> world \<Rightarrow> world" where
  [op_defs]: "storePlatform p w = w\<lparr>platform := p\<rparr>"

definition requireInitialized :: "world \<Rightarrow> error option" where
  [check_defs]: "requireInitialized w =
     first_err [loadShim w, fail_if (platform w \<noteq> stateInitialized) ErrNotInitialized]"

definition cppgcBeforeV8Initialize :: "world \<Rightarrow> error option" where
  [check_defs]: "cppgcBeforeV8Initialize w =
     first_err
       [fail_if (cppgcExplicit w \<or> cppgcHeaps w \<noteq> {})
          (Misuse ''shut down the explicit cppgc process and its heaps before Initialize''),
        fail_if (cppgcRetainedPlatform w \<and> (selectedPlatform w \<noteq> None \<or> selectedCustomPlatform w \<noteq> None))
          (Misuse ''an explicit cppgc platform can only be promoted through default Initialize'')]"

text \<open>\<open>None\<close>: no custom platform is configured.\<close>

definition initializeCustomPlatformIfConfigured :: "engine \<Rightarrow> tid \<Rightarrow> world \<Rightarrow> resp result option" where
  [op_defs]: "initializeCustomPlatformIfConfigured E t w =
     (case selectedCustomPlatform w of
        None \<Rightarrow> None
      | Some cfg \<Rightarrow>
          Some (callErr E t ''Initialize'' ''gov8_pc_initialize_custom''
            [W (ucast (cp_threads cfg)), W (if cp_idle cfg then 1 else 0),
             W (if cp_unprotected cfg then 1 else 0), W (of_nat (cp_id cfg))] w))"

definition initializeSelectedPlatform :: "engine \<Rightarrow> tid \<Rightarrow> world \<Rightarrow> resp result" where
  [op_defs]: "initializeSelectedPlatform E t w =
     (case initializeCustomPlatformIfConfigured E t w of
        Some res \<Rightarrow> res
      | None \<Rightarrow>
          (case selectedPlatform w of
             None \<Rightarrow> callErr E t ''Initialize'' ''gov8_initialize_platform'' [] w
           | Some pc \<Rightarrow>
               callErr E t ''Initialize'' ''gov8_platform_initialize_configured''
                 [W (ucast (pc_kind pc)), W (ucast (pc_threadPoolSize pc)),
                  W (if pc_idleTasks pc then 1 else 0)] w))"

definition Initialize :: "engine \<Rightarrow> tid \<Rightarrow> world \<Rightarrow> unit result" where
  [op_defs]: "Initialize E t w =
     guarded
       [loadShim w,
        fail_if (platform w \<noteq> stateUninitialized) (InvalidState ''Initialize'' (platform w)),
        cppgcBeforeV8Initialize w]
       (\<lambda>w. andThen (initializeSelectedPlatform E t w)
               (\<lambda>_ w. (Inr (), storePlatform stateInitialized w))) w"

definition PlatformPresent :: "engine \<Rightarrow> tid \<Rightarrow> world \<Rightarrow> bool \<times> world" where
  [op_defs]: "PlatformPresent E t w =
     (if loadShim w \<noteq> None \<or> platform w \<noteq> stateInitialized then (False, w)
      else let (r, w1) = shim E t ''gov8_platform_present'' [] w in (r1 r = 1, w1))"

definition Dispose :: "engine \<Rightarrow> tid \<Rightarrow> world \<Rightarrow> bool result" where
  [op_defs]: "Dispose E t w =
     guarded
       [fail_if (platform w \<noteq> stateInitialized) (InvalidState ''Dispose'' (platform w)),
        fail_if (card (liveIsolates w) > 0) (LiveIsolates (card (liveIsolates w)))]
       (\<lambda>w. let w1 = storePlatform stateDisposed w;
                (r, w2) = shim E t ''gov8_v8_dispose'' [] w1
            in if sneg (r1 r)
               then (Inl (ShimError ''Dispose'' (r1 r)), storePlatform stateInitialized w2)
               else (Inr (r1 r = 1), w2)) w"

definition DisposePlatform :: "engine \<Rightarrow> tid \<Rightarrow> world \<Rightarrow> unit result" where
  [op_defs]: "DisposePlatform E t w =
     guarded
       [fail_if (platform w \<noteq> stateDisposed) (InvalidState ''DisposePlatform'' (platform w))]
       (\<lambda>w. let w1 = storePlatform statePlatformShutdown w in
          (case callErr E t ''DisposePlatform'' ''gov8_v8_dispose_platform'' [] w1 of
             (Inl e, w2) \<Rightarrow> (Inl e, storePlatform stateDisposed w2)
           | (Inr _, w2) \<Rightarrow> (Inr (), w2))) w"

definition Shutdown :: "engine \<Rightarrow> tid \<Rightarrow> world \<Rightarrow> unit result" where
  [op_defs]: "Shutdown E t w = andThen (Dispose E t w) (\<lambda>_ w. DisposePlatform E t w)"

section \<open>Platform selection\<close>

definition PlatformDefault :: PlatformKind where "PlatformDefault = 0"
definition PlatformUnprotected :: PlatformKind where "PlatformUnprotected = 1"
definition PlatformSingleThreaded :: PlatformKind where "PlatformSingleThreaded = 2"

record PlatformOptions =
  po_Kind :: PlatformKind
  po_ThreadPoolSize :: "32 word"
  po_IdleTaskSupport :: bool
  po_SingleThreadedFlag :: bool

definition clampThreads :: "32 word \<Rightarrow> 32 word" where
  "clampThreads n = (if n > 16 then 16 else n)"

text \<open>The tail of ConfigurePlatform that records the selection.\<close>

definition selectPlatform :: "PlatformOptions \<Rightarrow> world \<Rightarrow> unit result" where
  [op_defs]: "selectPlatform opts w =
     (Inr (), w\<lparr>selectedPlatform :=
        Some \<lparr>pc_kind = po_Kind opts, pc_threadPoolSize = clampThreads (po_ThreadPoolSize opts),
              pc_idleTasks = po_IdleTaskSupport opts\<rparr>\<rparr>)"

definition ConfigurePlatform :: "engine \<Rightarrow> tid \<Rightarrow> PlatformOptions \<Rightarrow> world \<Rightarrow> unit result" where
  [op_defs]: "ConfigurePlatform E t opts w =
     guarded
       [loadShim w,
        fail_if (platform w \<noteq> stateUninitialized) (Misuse ''ConfigurePlatform must be called before Initialize''),
        fail_if (selectedPlatform w \<noteq> None \<or> selectedCustomPlatform w \<noteq> None) (Misuse ''platform already configured''),
        fail_if (po_Kind opts > PlatformSingleThreaded) (MisuseCount ''unknown platform kind'' (unat (po_Kind opts))),
        fail_if (po_Kind opts = PlatformSingleThreaded \<and> po_ThreadPoolSize opts \<noteq> 0)
          (Misuse ''single-threaded platform does not accept a thread pool size''),
        fail_if (po_Kind opts = PlatformSingleThreaded \<and> \<not> po_SingleThreadedFlag opts)
          (Misuse ''single-threaded platform requires the --single-threaded V8 flag''),
        fail_if (po_Kind opts \<noteq> PlatformSingleThreaded \<and> po_SingleThreadedFlag opts)
          (Misuse ''SingleThreadedFlag is only valid for PlatformSingleThreaded'')]
       (\<lambda>w. if po_Kind opts = PlatformSingleThreaded
            then andThen (callErr E t ''ConfigurePlatform'' ''gov8_ch_set_flags_from_string''
                            [Buf ''--single-threaded''] w)
                   (\<lambda>_ w. selectPlatform opts w)
            else selectPlatform opts w) w"

section \<open>Threads\<close>

text \<open>\<open>runtime.LockOSThread\<close> calls nest; an \<open>UnlockOSThread\<close> without a matching lock does
  nothing, as natural-number subtraction does.\<close>

definition LockOSThread :: "tid \<Rightarrow> world \<Rightarrow> world" where
  [op_defs]: "LockOSThread t w = w\<lparr>osPins := (osPins w)(t := Suc (osPins w t))\<rparr>"

definition UnlockOSThread :: "tid \<Rightarrow> world \<Rightarrow> world" where
  [op_defs]: "UnlockOSThread t w = w\<lparr>osPins := (osPins w)(t := osPins w t - 1)\<rparr>"

section \<open>Isolate creation\<close>

definition beginIsolateCreate :: "world \<Rightarrow> error option" where
  [check_defs]: "beginIsolateCreate w = fail_if (platform w \<noteq> stateInitialized) ErrNotInitialized"

definition finishIsolateCreate :: "ref \<Rightarrow> world \<Rightarrow> world" where
  [op_defs]: "finishIsolateCreate i w = w\<lparr>liveIsolates := insert i (liveIsolates w)\<rparr>"

definition unregisterIsolate :: "ref \<Rightarrow> world \<Rightarrow> world" where
  [op_defs]: "unregisterIsolate i w = w\<lparr>liveIsolates := liveIsolates w - {i}\<rparr>"

definition newIsolateStruct :: "uintptr \<Rightarrow> tid \<Rightarrow> Isolate" where
  "newIsolateStruct h t =
     \<lparr>i_handle = h, i_tid = t, i_closed = False, i_closedState = False, i_contextsCreated = False,
      i_advancedCounterHandle = 0, i_advancedExternalReferences = False, i_customCppGCHeap = False,
      i_arrayBufferAllocatorReference = 0, i_handleScopeStack = []\<rparr>"

text \<open>The section of NewIsolate that runs with lifecycleMu held, from beginIsolateCreate to
  finishIsolateCreate; between the first test of NewIsolate and this section another goroutine
  may change the platform state.\<close>

definition NewIsolate_locked :: "engine \<Rightarrow> tid \<Rightarrow> world \<Rightarrow> ref result" where
  [op_defs]: "NewIsolate_locked E t w =
     (case beginIsolateCreate w of
        Some e \<Rightarrow> (Inl e, UnlockOSThread t w)
      | None \<Rightarrow>
          (case callHandle E t ''Isolate.New'' ''gov8_isolate_new'' [] w of
             (Inl e, w1) \<Rightarrow> (Inl e, UnlockOSThread t w1)
           | (Inr h, w1) \<Rightarrow>
               (let i = nextRef w1
                in (Inr i, finishIsolateCreate i
                      (w1\<lparr>isolates := (isolates w1)(i := newIsolateStruct h t), nextRef := Suc i\<rparr>)))))"

definition NewIsolate :: "engine \<Rightarrow> tid \<Rightarrow> world \<Rightarrow> ref result" where
  [op_defs]: "NewIsolate E t w =
     guarded [requireInitialized w] (\<lambda>w. NewIsolate_locked E t (LockOSThread t w)) w"

section \<open>Validation\<close>

definition Isolate_check :: "tid \<Rightarrow> ref \<Rightarrow> world \<Rightarrow> error option" where
  [check_defs]: "Isolate_check t i w =
     first_err
       [fail_if (i_closedState (isolates w i)) (UsedAfterClose KIsolate),
        fail_if (t \<noteq> i_tid (isolates w i)) (AffinityViolated (i_tid (isolates w i)) t)]"

definition publishClosedLocked :: "ref \<Rightarrow> world \<Rightarrow> world" where
  [op_defs]: "publishClosedLocked i w =
     upd_iso i (\<lambda>s. s\<lparr>i_closed := True, i_closedState := True\<rparr>) w"

definition handleChecked :: "tid \<Rightarrow> ref \<Rightarrow> world \<Rightarrow> uintptr result" where
  [op_defs]: "handleChecked t i w =
     guarded [Isolate_check t i w, requireInitialized w] (\<lambda>w. (Inr (i_handle (isolates w i)), w)) w"

definition handleAssumingCheck :: "ref \<Rightarrow> world \<Rightarrow> uintptr" where
  [op_defs]: "handleAssumingCheck i w = i_handle (isolates w i)"

definition isolateClosed :: "ref \<Rightarrow> world \<Rightarrow> bool" where
  [check_defs]: "isolateClosed i w = i_closed (isolates w i)"

definition RunIdleTasks :: "engine \<Rightarrow> tid \<Rightarrow> ref option \<Rightarrow> uintptr \<Rightarrow> world \<Rightarrow> unit result" where
  [op_defs]: "RunIdleTasks E t mi bits w =
     (case mi of
        None \<Rightarrow> (Inl (NilArgument KIsolate), w)
      | Some i \<Rightarrow>
          guarded [Isolate_check t i w]
            (\<lambda>w. andThen (callErr E t ''Isolate.RunIdleTasks'' ''gov8_platform_run_idle_tasks''
                            [W (handleAssumingCheck i w), W bits] w)
                   (\<lambda>_ w. (Inr (), w))) w)"

section \<open>Components that keep an isolate open\<close>

definition inspectorIsolateCloseError :: "ref \<Rightarrow> world \<Rightarrow> error option" where
  [check_defs]: "inspectorIsolateCloseError i w =
     (case inspectorIsolates w i of
        None \<Rightarrow> None
      | Some s \<Rightarrow> Some (LiveInspectorState (il_inspectors s) (il_sessions s)
                    (sum_list (map snd (il_contexts s)))))"

definition inspectorInspectableIsolateCloseError :: "ref \<Rightarrow> world \<Rightarrow> error option" where
  [check_defs]: "inspectorInspectableIsolateCloseError i w =
     (let n = length (filter (\<lambda>(_, j). j = i) (inspectorInspectables w))
      in fail_if (n \<noteq> 0) (MisuseCount ''isolate has live Inspector Inspectable(s)'' n))"

definition heapSnapshotIsolateCloseError :: "ref \<Rightarrow> world \<Rightarrow> error option" where
  [check_defs]: "heapSnapshotIsolateCloseError i w =
     fail_if (heapSnapshotActive w i \<noteq> 0) (Misuse ''isolate has an active heap snapshot'')"

definition inspectorContextCloseError :: "ref \<Rightarrow> world \<Rightarrow> error option" where
  [check_defs]: "inspectorContextCloseError c w =
     (case inspectorIsolates w (c_iso (contexts w c)) of
        None \<Rightarrow> None
      | Some s \<Rightarrow>
          (case map_of (il_contexts s) c of
             None \<Rightarrow> None
           | Some n \<Rightarrow> fail_if (n \<noteq> 0) (MisuseCount ''context has active Inspector registration(s)'' n)))"

section \<open>Isolate disposal\<close>

definition clearHandleScopeStack :: "ref \<Rightarrow> world \<Rightarrow> world" where
  [op_defs]: "clearHandleScopeStack i w = upd_iso i (\<lambda>s. s\<lparr>i_handleScopeStack := []\<rparr>) w"

primrec closePersistents :: "engine \<Rightarrow> tid \<Rightarrow> uintptr \<Rightarrow> ref list \<Rightarrow> error option \<Rightarrow> world \<Rightarrow> error option \<times> world" where
  "closePersistents E t dh [] firstErr w = (firstErr, w)"
| "closePersistents E t dh (p # ps) firstErr w =
     (let x = cppgcPersistents w p in
      if \<not> p_closed x \<and> p_handle x \<noteq> 0 then
        (let (r, w1) = shim E t ''gov8_cppgc_persistent_close_after_isolate_dispose''
                         [W (p_handle x), W dh] w;
             firstErr' = (if sneg (r1 r) \<and> firstErr = None
                          then Some (ShimError ''CppGCPersistent.IsolateDispose'' (r1 r)) else firstErr);
             w2 = w1\<lparr>cppgcPersistents := (cppgcPersistents w1)(p := x\<lparr>p_handle := 0, p_closed := True\<rparr>)\<rparr>
         in closePersistents E t dh ps firstErr' w2)
      else closePersistents E t dh ps firstErr w)"

definition afterCppGCPersistentIsolateDispose :: "engine \<Rightarrow> tid \<Rightarrow> ref \<Rightarrow> uintptr \<Rightarrow> world \<Rightarrow> error option \<times> world" where
  [op_defs]: "afterCppGCPersistentIsolateDispose E t i dh w =
     (let ps = cppgcPersistentIsolates w i;
          w1 = w\<lparr>cppgcPersistentIsolates := (cppgcPersistentIsolates w)(i := [])\<rparr>
      in closePersistents E t dh ps None w1)"

definition afterFastAPIIsolateDispose :: "engine \<Rightarrow> tid \<Rightarrow> ref \<Rightarrow> uintptr \<Rightarrow> world \<Rightarrow> error option \<times> world" where
  [op_defs]: "afterFastAPIIsolateDispose E t i dh w =
     (if dh = 0 then (Some (Misuse ''invalid disposed fast API isolate''), w)
      else if i \<notin> fastAPIIsolates w then (None, w)
      else (case callErr E t ''FastAPI.AfterIsolateDispose'' ''gov8_fast_api_after_isolate_dispose'' [W dh] w of
              (res, w1) \<Rightarrow>
                ((case res of Inl e \<Rightarrow> Some e | Inr _ \<Rightarrow> None),
                 w1\<lparr>fastAPIIsolates := fastAPIIsolates w1 - {i}\<rparr>)))"

definition dropIsolateCounter :: "uintptr \<Rightarrow> world \<Rightarrow> world" where
  [op_defs]: "dropIsolateCounter h w =
     (if h = 0 then w else w\<lparr>isolateCounters := isolateCounters w - {h}\<rparr>)"

text \<open>The four stages of Close after the native dispose: the allocator reference, the fast API
  descriptors, the counters, the publication of the closed state.\<close>

definition releaseAllocator :: "engine \<Rightarrow> tid \<Rightarrow> ref \<Rightarrow> world \<Rightarrow> error option \<times> world" where
  [op_defs]: "releaseAllocator E t i w =
     (let a = i_arrayBufferAllocatorReference (isolates w i) in
      if a \<noteq> 0 then
        (case callErr E t ''ArrayBufferAllocator.isolate.Close'' ''gov8_aba_dispose'' [W a] w of
           (res, w1) \<Rightarrow>
             ((case res of Inl e \<Rightarrow> Some e | Inr _ \<Rightarrow> None),
              upd_iso i (\<lambda>s. s\<lparr>i_arrayBufferAllocatorReference := 0\<rparr>) w1))
      else (None, w))"

definition releaseFastAPI :: "engine \<Rightarrow> tid \<Rightarrow> ref \<Rightarrow> uintptr \<Rightarrow> world \<Rightarrow> error option \<times> world" where
  [op_defs]: "releaseFastAPI E t i dh w =
     (if i \<in> fastAPIIsolates w then afterFastAPIIsolateDispose E t i dh w else (None, w))"

definition releaseCounters :: "engine \<Rightarrow> tid \<Rightarrow> ref \<Rightarrow> uintptr \<Rightarrow> world \<Rightarrow> world" where
  [op_defs]: "releaseCounters E t i dh w =
     (let s = isolates w i in
      if i_advancedCounterHandle s \<noteq> 0 \<or> i_advancedExternalReferences s then
        (let (_, w1) = shim E t ''gov8_ia_after_isolate_dispose'' [W dh] w;
             w2 = dropIsolateCounter (i_advancedCounterHandle s) w1
         in upd_iso i (\<lambda>s. s\<lparr>i_advancedCounterHandle := 0, i_advancedExternalReferences := False\<rparr>) w2)
      else w)"

text \<open>What Close does once its tests have passed.\<close>

definition Isolate_teardown :: "engine \<Rightarrow> tid \<Rightarrow> ref \<Rightarrow> world \<Rightarrow> unit result" where
  "Isolate_teardown E t i w =
     (let dh = i_handle (isolates w i);
          (r, w1) = shim E t ''gov8_isolate_dispose'' [W dh] w;
          w2 = clearHandleScopeStack i w1;
          (allocErr, w3) = releaseAllocator E t i w2;
          (cppgcErr, w4) = afterCppGCPersistentIsolateDispose E t i dh w3;
          (fastErr, w5) = releaseFastAPI E t i dh w4;
          w6 = releaseCounters E t i dh w5;
          w7 = publishClosedLocked i (upd_iso i (\<lambda>s. s\<lparr>i_handle := 0\<rparr>) w6);
          w8 = UnlockOSThread t (unregisterIsolate i w7)
      in (case first_err [if sneg (r1 r) then Some (ShimError ''Isolate.Close'' (r1 r)) else None,
                          fastErr, cppgcErr, allocErr] of
            Some e \<Rightarrow> (Inl e, w8)
          | None \<Rightarrow> (Inr (), w8)))"

definition Isolate_Close :: "engine \<Rightarrow> tid \<Rightarrow> ref \<Rightarrow> world \<Rightarrow> unit result" where
  "Isolate_Close E t i w =
     guarded
       [fail_if (t \<noteq> i_tid (isolates w i)) (CloseWrongThread KIsolate (i_tid (isolates w i)) t),
        fail_if (i_closed (isolates w i)) (AlreadyClosed KIsolate),
        requireInitialized w,
        inspectorIsolateCloseError i w,
        inspectorInspectableIsolateCloseError i w,
        heapSnapshotIsolateCloseError i w]
       (Isolate_teardown E t i) w"

section \<open>Validation, characterised\<close>

lemma Isolate_check_None: "Isolate_check t i w = None \<longleftrightarrow> \<not> i_closedState (isolates w i) \<and> t = i_tid (isolates w i)"
  by (auto simp: Isolate_check_def)

lemma handleChecked_snd [simp]: "snd (handleChecked t i w) = w"
  by (simp add: handleChecked_def snd_guarded)

lemma handleChecked_Inr: "fst (handleChecked t i w) = Inr h \<longleftrightarrow>
    Isolate_check t i w = None \<and> requireInitialized w = None \<and> h = i_handle (isolates w i)"
  by (auto simp: handleChecked_def guarded_def first_err_Cons split: option.splits)

section \<open>What each operation leaves unchanged\<close>

text \<open>The heaps of the other components, and the process-wide variables.\<close>

definition heaps where
  "heaps w = (scopes w, escScopes w, contexts w, queues w, tryCatches w, scripts w, ctxScopes w,
     contextScopeStacks w, disallows w, allows w, globals w, weaks w, weakNext w, weakEntries w,
     weakLiveness w, weakDispatcherErr w, sharedRegistry w, lockers w, finalized w)"

definition process_state where
  "process_state w = (shimLoadErr w, platform w, liveIsolates w, selectedPlatform w,
     selectedCustomPlatform w, cppgcExplicit w, cppgcRetainedPlatform w, cppgcHeaps w, nextRef w, osPins w)"

lemma process_state_eqD:
  assumes "process_state w' = process_state w"
  shows "platform w' = platform w" "liveIsolates w' = liveIsolates w" "nextRef w' = nextRef w"
    "osPins w' = osPins w" "shimLoadErr w' = shimLoadErr w"
  using assms by (auto simp: process_state_def)

lemma heaps_upd [simp]:
  "heaps (w\<lparr>isolates := x\<rparr>) = heaps w" "heaps (w\<lparr>liveIsolates := y\<rparr>) = heaps w"
  "heaps (w\<lparr>osPins := z\<rparr>) = heaps w" "heaps (called t p a w) = heaps w"
  "heaps (w\<lparr>platform := q\<rparr>) = heaps w" "heaps (w\<lparr>nextRef := n\<rparr>) = heaps w"
  "heaps (w\<lparr>selectedPlatform := sp\<rparr>) = heaps w"
  by (simp_all add: heaps_def)

lemma closePersistents_frame:
  "heaps (snd (closePersistents E t dh ps fe w)) = heaps w"
  "process_state (snd (closePersistents E t dh ps fe w)) = process_state w"
  "isolates (snd (closePersistents E t dh ps fe w)) = isolates w"
  by (induction ps arbitrary: fe w) (auto simp: Let_def shim_eq heaps_def process_state_def)

lemmas teardown_defs = releaseAllocator_def afterCppGCPersistentIsolateDispose_def
  releaseFastAPI_def afterFastAPIIsolateDispose_def releaseCounters_def dropIsolateCounter_def

lemma teardown_frame [simp]:
  "heaps (snd (releaseAllocator E t i w)) = heaps w"
  "process_state (snd (releaseAllocator E t i w)) = process_state w"
  "heaps (snd (afterCppGCPersistentIsolateDispose E t i dh w)) = heaps w"
  "process_state (snd (afterCppGCPersistentIsolateDispose E t i dh w)) = process_state w"
  "heaps (snd (releaseFastAPI E t i dh w)) = heaps w"
  "process_state (snd (releaseFastAPI E t i dh w)) = process_state w"
  "heaps (releaseCounters E t i dh w) = heaps w"
  "process_state (releaseCounters E t i dh w) = process_state w"
  by (simp_all add: teardown_defs call_eqs Let_def closePersistents_frame split_def)
    (simp_all add: heaps_def process_state_def)

lemmas teardown_fields [simp] =
  teardown_frame(2,4,6,8) [THEN process_state_eqD(1)] teardown_frame(2,4,6,8) [THEN process_state_eqD(2)]
  teardown_frame(2,4,6,8) [THEN process_state_eqD(3)] teardown_frame(2,4,6,8) [THEN process_state_eqD(4)]
  teardown_frame(2,4,6,8) [THEN process_state_eqD(5)]

lemma teardown_isolates [simp]:
  "isolates (snd (afterCppGCPersistentIsolateDispose E t i dh w)) = isolates w"
  "isolates (snd (releaseFastAPI E t i dh w)) = isolates w"
  "isolates (snd (releaseAllocator E t i w)) =
     (isolates w)(i := (isolates w i)\<lparr>i_arrayBufferAllocatorReference := 0\<rparr>)"
  "isolates (releaseCounters E t i dh w) =
     (isolates w)(i := (isolates w i)\<lparr>i_advancedCounterHandle := 0, i_advancedExternalReferences := False\<rparr>)"
  by (simp_all add: teardown_defs call_eqs Let_def closePersistents_frame split_def) auto

text \<open>The isolate Close leaves behind.\<close>

definition closedIsolate :: "Isolate \<Rightarrow> Isolate" where
  "closedIsolate s = s\<lparr>i_handleScopeStack := [], i_arrayBufferAllocatorReference := 0,
     i_advancedCounterHandle := 0, i_advancedExternalReferences := False, i_handle := 0,
     i_closed := True, i_closedState := True\<rparr>"

lemma closedIsolate_simps [simp]:
  "i_closed (closedIsolate s)" "i_closedState (closedIsolate s)" "i_handle (closedIsolate s) = 0"
  "i_tid (closedIsolate s) = i_tid s" "i_handleScopeStack (closedIsolate s) = []"
  by (simp_all add: closedIsolate_def)

lemma Isolate_teardown_state:
  fixes E t i w
  defines "w' \<equiv> snd (Isolate_teardown E t i w)"
  shows "isolates w' = (isolates w)(i := closedIsolate (isolates w i))" "heaps w' = heaps w"
    and "liveIsolates w' = liveIsolates w - {i}" "platform w' = platform w" "nextRef w' = nextRef w"
    and "osPins w' = (osPins w)(t := osPins w t - 1)" "shimLoadErr w' = shimLoadErr w"
  unfolding w'_def
  by (simp_all add: Isolate_teardown_def Let_def split_def snd_case_option shim_eq clearHandleScopeStack_def
      publishClosedLocked_def UnlockOSThread_def unregisterIsolate_def closedIsolate_def)

section \<open>The operations as steps\<close>

datatype lifecycle_op =
    OpInitialize | OpPlatformPresent | OpDispose | OpDisposePlatform | OpShutdown
  | OpConfigurePlatform PlatformOptions | OpNewIsolate | OpNewIsolateLocked
  | OpIsolateClose ref | OpRunIdleTasks "ref option" uintptr

fun lifecycle_exec :: "engine \<Rightarrow> tid \<Rightarrow> lifecycle_op \<Rightarrow> world \<Rightarrow> world" where
  "lifecycle_exec E t OpInitialize w = snd (Initialize E t w)"
| "lifecycle_exec E t OpPlatformPresent w = snd (PlatformPresent E t w)"
| "lifecycle_exec E t OpDispose w = snd (Dispose E t w)"
| "lifecycle_exec E t OpDisposePlatform w = snd (DisposePlatform E t w)"
| "lifecycle_exec E t OpShutdown w = snd (Shutdown E t w)"
| "lifecycle_exec E t (OpConfigurePlatform po) w = snd (ConfigurePlatform E t po w)"
| "lifecycle_exec E t OpNewIsolate w = snd (NewIsolate E t w)"
| "lifecycle_exec E t OpNewIsolateLocked w = snd (NewIsolate_locked E t w)"
| "lifecycle_exec E t (OpIsolateClose i) w = snd (Isolate_Close E t i w)"
| "lifecycle_exec E t (OpRunIdleTasks mi b) w = snd (RunIdleTasks E t mi b w)"

text \<open>The lifecycle operations touch no wrapper object but isolates.\<close>

lemma lifecycle_heaps:
  "heaps (lifecycle_exec E t a w) = heaps w \<and> nextRef w \<le> nextRef (lifecycle_exec E t a w)"
proof (cases a)
  case (OpIsolateClose i)
  then show ?thesis
    by (simp add: Isolate_Close_def snd_guarded Isolate_teardown_state)
qed (auto simp: op_defs call_eqs outcome_simps Let_def split: option.splits sum.splits)

section \<open>The invariant of the isolates\<close>

definition live_inv :: "world \<Rightarrow> bool" where
  "live_inv w \<longleftrightarrow>
     finite (liveIsolates w)
     \<and> (platform w \<noteq> stateInitialized \<longrightarrow> liveIsolates w = {})
     \<and> (\<forall>i. i \<in> liveIsolates w \<longleftrightarrow> \<not> i_closed (isolates w i))
     \<and> (\<forall>i. i_closedState (isolates w i) = i_closed (isolates w i))
     \<and> (\<forall>i. \<not> i_closed (isolates w i) \<longrightarrow> i_handle (isolates w i) \<noteq> 0 \<and> i < nextRef w)"

text \<open>Allocation and boundary calls keep it, and so does any change of the isolates that leaves
  the closed flags and the handles alone.\<close>

interpretation live_alloc: alloc_stable live_inv
  by unfold_locales (fastforce simp: live_inv_def)+

definition iso_key :: "Isolate \<Rightarrow> bool \<times> bool \<times> uintptr" where
  "iso_key x = (i_closed x, i_closedState x, i_handle x)"

lemma live_inv_isolates:
  assumes "live_inv w" and "\<And>j. iso_key (I j) = iso_key (isolates w j)"
  shows "live_inv (w\<lparr>isolates := I\<rparr>)"
  using assms by (simp add: live_inv_def iso_key_def)

lemma Isolate_Close_state:
  "snd (Isolate_Close E t i w) = w \<or> snd (Isolate_Close E t i w) = snd (Isolate_teardown E t i w)"
  by (simp add: Isolate_Close_def snd_guarded)

lemma Isolate_Close_Inr:
  assumes "Isolate_Close E t i w = (Inr u, w')"
  shows "t = i_tid (isolates w i)" "\<not> i_closed (isolates w i)" "w' = snd (Isolate_teardown E t i w)"
  using assms unfolding Isolate_Close_def guarded_eq_Inr by auto

lemma live_inv_teardown: "live_inv w \<Longrightarrow> live_inv (snd (Isolate_teardown E t i w))"
  unfolding live_inv_def Isolate_teardown_state by (auto simp: closedIsolate_def)

lemma live_inv_NewIsolate_locked: "live_inv w \<Longrightarrow> live_inv (snd (NewIsolate_locked E t w))"
  by (auto simp: NewIsolate_locked_def beginIsolateCreate_def finishIsolateCreate_def UnlockOSThread_def
      callHandle_eq Let_def live_inv_def newIsolateStruct_def less_Suc_eq split: option.splits)

lemma live_inv_Dispose: "live_inv w \<Longrightarrow> live_inv (snd (Dispose E t w))"
  by (auto simp: Dispose_def storePlatform_def shim_eq snd_guarded Let_def live_inv_def)

lemma live_inv_DisposePlatform: "live_inv w \<Longrightarrow> live_inv (snd (DisposePlatform E t w))"
  by (auto simp: DisposePlatform_def storePlatform_def callErr_eq snd_guarded Let_def live_inv_def)

lemma live_inv_Shutdown: "live_inv w \<Longrightarrow> live_inv (snd (Shutdown E t w))"
  by (auto simp: Shutdown_def snd_andThen intro: live_inv_Dispose live_inv_DisposePlatform split: sum.splits)

lemma live_inv_Initialize: "live_inv w \<Longrightarrow> live_inv (snd (Initialize E t w))"
  by (auto simp: Initialize_def initializeSelectedPlatform_def initializeCustomPlatformIfConfigured_def storePlatform_def
      callErr_eq outcome_simps Let_def live_inv_def split: option.splits sum.splits)

lemma lifecycle_live_inv: "live_inv w \<Longrightarrow> live_inv (lifecycle_exec E t a w)"
proof (cases a)
  case (OpIsolateClose i)
  assume "live_inv w"
  then show ?thesis
    using OpIsolateClose Isolate_Close_state [of E t i w] live_inv_teardown [of w E t i] by auto
next
  case OpNewIsolate
  assume "live_inv w"
  then have "live_inv (LockOSThread t w)" by (simp add: live_inv_def LockOSThread_def)
  with \<open>live_inv w\<close> OpNewIsolate show ?thesis
    by (simp add: NewIsolate_def snd_guarded live_inv_NewIsolate_locked)
next
  case OpPlatformPresent
  assume "live_inv w"
  then show ?thesis
    using OpPlatformPresent by (auto simp: PlatformPresent_def shim_eq Let_def live_inv_def)
next
  case (OpConfigurePlatform po)
  assume "live_inv w"
  then show ?thesis
    using OpConfigurePlatform
    by (auto simp: ConfigurePlatform_def selectPlatform_def callErr_eq outcome_simps Let_def live_inv_def
        split: sum.splits)
next
  case (OpRunIdleTasks mi b)
  assume "live_inv w"
  then show ?thesis
    using OpRunIdleTasks
    by (auto simp: RunIdleTasks_def callErr_eq outcome_simps Let_def live_inv_def
        split: option.splits sum.splits)
qed (auto intro: live_inv_Initialize live_inv_Dispose live_inv_DisposePlatform live_inv_Shutdown
    live_inv_NewIsolate_locked)

section \<open>The platform state only moves forward\<close>

fun platform_rank :: "platformState \<Rightarrow> nat" where
  "platform_rank stateUninitialized = 0"
| "platform_rank stateInitialized = 1"
| "platform_rank stateDisposed = 2"
| "platform_rank statePlatformShutdown = 3"

lemma lifecycle_platform_rank:
  "platform_rank (platform w) \<le> platform_rank (platform (lifecycle_exec E t a w))"
proof (cases a)
  case (OpIsolateClose i)
  then show ?thesis
    using Isolate_Close_state [of E t i w] by (auto simp: Isolate_teardown_state)
qed (auto simp: op_defs call_eqs outcome_simps Let_def split: option.splits sum.splits)

end
