(* ===== verification/Scopes.thy ===== *)
theory Scopes
  imports Lifecycle
begin

text \<open>
  Handle scopes: scope.go (Scope and the per-isolate stack of open scopes), the values of value.go
  that a scope owns, the escapable scopes of core_advanced.go and the JavaScript execution guards
  of context_scopes_advanced.go. The stack operations are interpreted as a token stack; from that
  come the nesting properties of the scopes.
\<close>

section \<open>The stack of open handle scopes\<close>

definition pushHandleScope :: "scope_token \<Rightarrow> Isolate \<Rightarrow> Isolate" where
  "pushHandleScope x s = s\<lparr>i_handleScopeStack := i_handleScopeStack s @ [x]\<rparr>"

definition currentHandleScope :: "Isolate \<Rightarrow> scope_token \<Rightarrow> bool" where
  "currentHandleScope s x \<longleftrightarrow> length (i_handleScopeStack s) \<noteq> 0 \<and> last (i_handleScopeStack s) = x"

definition currentHandleScopeToken :: "Isolate \<Rightarrow> scope_token option" where
  "currentHandleScopeToken s =
     (if length (i_handleScopeStack s) = 0 then None else Some (last (i_handleScopeStack s)))"

definition popHandleScope :: "scope_token \<Rightarrow> Isolate \<Rightarrow> Isolate option" where
  "popHandleScope x s =
     (if length (i_handleScopeStack s) = 0 \<or> last (i_handleScopeStack s) \<noteq> x then None
      else Some (s\<lparr>i_handleScopeStack := take (length (i_handleScopeStack s) - 1) (i_handleScopeStack s)\<rparr>))"

interpretation hs: token_stack pushHandleScope popHandleScope currentHandleScope i_handleScopeStack
  by unfold_locales
    (auto simp: pushHandleScope_def popHandleScope_def currentHandleScope_def butlast_conv_take)

text \<open>popHandleScope as a step of the state: the error is reported after the caller has already
  left the native scope.\<close>

definition popHandleScope_w :: "scope_token \<Rightarrow> ref \<Rightarrow> world \<Rightarrow> unit result" where
  [op_defs]: "popHandleScope_w x i w =
     (case popHandleScope x (isolates w i) of
        None \<Rightarrow> (Inl (Misuse ''handle scope is not the current innermost scope''), w)
      | Some s \<Rightarrow> (Inr (), w\<lparr>isolates := (isolates w)(i := s)\<rparr>))"

section \<open>Scope\<close>

definition newScopeStruct :: "ref \<Rightarrow> uintptr \<Rightarrow> bool \<Rightarrow> Scope" where
  "newScopeStruct i h b =
     \<lparr>s_iso = i, s_handle = h, s_closed = False, s_borrowed = b,
      s_activeBorrowedContextScopes = 0, s_javascriptExecutionGuards = []\<rparr>"

definition NewScope :: "engine \<Rightarrow> tid \<Rightarrow> ref \<Rightarrow> world \<Rightarrow> ref result" where
  [op_defs]: "NewScope E t i w =
     andThen (handleChecked t i w) (\<lambda>h w.
     andThen (callHandle E t ''Scope.New'' ''gov8_scope_enter'' [W h] w) (\<lambda>sh w.
       let s = nextRef w
       in (Inr s, upd_iso i (pushHandleScope (ScopeTok s))
             (w\<lparr>scopes := (scopes w)(s := newScopeStruct i sh False), nextRef := Suc s\<rparr>))))"

definition Scope_check :: "tid \<Rightarrow> ref \<Rightarrow> world \<Rightarrow> error option" where
  [check_defs]: "Scope_check t s w =
     first_err [Isolate_check t (s_iso (scopes w s)) w,
                fail_if (s_closed (scopes w s)) (UsedAfterClose KScope)]"

definition checkedHandle :: "tid \<Rightarrow> ref \<Rightarrow> world \<Rightarrow> uintptr result" where
  [op_defs]: "checkedHandle t s w = guarded [Scope_check t s w] (\<lambda>w. (Inr (s_handle (scopes w s)), w)) w"

definition checkedHandleAssumingIsolate :: "ref \<Rightarrow> world \<Rightarrow> uintptr result" where
  [op_defs]: "checkedHandleAssumingIsolate s w =
     guarded [fail_if (s_closed (scopes w s)) (UsedAfterClose KScope)]
       (\<lambda>w. (Inr (s_handle (scopes w s)), w)) w"

definition requireCurrent :: "ref \<Rightarrow> world \<Rightarrow> error option" where
  [check_defs]: "requireCurrent s w =
     fail_if (\<not> (s_borrowed (scopes w s)
                 \<or> currentHandleScope (isolates w (s_iso (scopes w s))) (ScopeTok s)))
       (Misuse ''scope is not the current innermost handle scope'')"

definition Scope_Close :: "engine \<Rightarrow> tid \<Rightarrow> ref \<Rightarrow> world \<Rightarrow> unit result" where
  [op_defs]: "Scope_Close E t s w =
     guarded
       [Isolate_check t (s_iso (scopes w s)) w,
        fail_if (s_closed (scopes w s)) (AlreadyClosed KScope),
        fail_if (s_borrowed (scopes w s)) (Misuse ''borrowed callback scope cannot be closed''),
        fail_if (length (s_javascriptExecutionGuards (scopes w s)) \<noteq> 0)
          (Misuse ''scope has active JavaScript execution guards''),
        fail_if (s_activeBorrowedContextScopes (scopes w s) \<noteq> 0)
          (Misuse ''scope has an active borrowed context scope''),
        requireCurrent s w,
        requireInitialized w]
       (\<lambda>w. let (r, w1) = shim E t ''gov8_scope_exit'' [W (s_handle (scopes w s))] w;
                w2 = upd_scope s (\<lambda>x. x\<lparr>s_closed := True\<rparr>) w1
            in andThen (popHandleScope_w (ScopeTok s) (s_iso (scopes w2 s)) w2)
                 (\<lambda>_ w. if sneg (r1 r) then (Inl (ShimError ''Scope.Close'' (r1 r)), w)
                        else (Inr (), w))) w"

section \<open>Values\<close>

definition Value_check :: "tid \<Rightarrow> Value \<Rightarrow> world \<Rightarrow> error option" where
  [check_defs]: "Value_check t v w =
     first_err [fail_if (v_h v = 0) (Misuse ''zero value handle''), Scope_check t (v_sc v) w]"

datatype primitiveConstructor =
    primitiveUndefined | primitiveNull | primitiveEmptyString | primitiveBoolean | primitiveInt32
  | primitiveUint32 | primitiveNumber | primitiveBigIntInt64 | primitiveBigIntUint64

fun primitiveConstructorName :: "primitiveConstructor \<Rightarrow> string" where
  "primitiveConstructorName primitiveUndefined = ''gov8_undefined''"
| "primitiveConstructorName primitiveNull = ''gov8_null''"
| "primitiveConstructorName primitiveEmptyString = ''gov8_sb_string_empty''"
| "primitiveConstructorName primitiveBoolean = ''gov8_boolean''"
| "primitiveConstructorName primitiveInt32 = ''gov8_integer_new''"
| "primitiveConstructorName primitiveUint32 = ''gov8_integer_new_unsigned''"
| "primitiveConstructorName primitiveNumber = ''gov8_number_new''"
| "primitiveConstructorName primitiveBigIntInt64 = ''gov8_bigint_new_i64''"
| "primitiveConstructorName primitiveBigIntUint64 = ''gov8_bigint_new_u64''"

definition constructPrimitive :: "engine \<Rightarrow> tid \<Rightarrow> ref \<Rightarrow> string \<Rightarrow> primitiveConstructor \<Rightarrow> uintptr \<Rightarrow> world \<Rightarrow> Value result" where
  [op_defs]: "constructPrimitive E t s oper k value w =
     guarded [Scope_check t s w, requireInitialized w]
       (\<lambda>w. let ih = handleAssumingCheck (s_iso (scopes w s)) w;
                sh = s_handle (scopes w s);
                args = (if k \<in> {primitiveUndefined, primitiveNull, primitiveEmptyString}
                        then [W ih, W sh] else [W ih, W value, W sh]);
                (r, w1) = shim E t (primitiveConstructorName k) args w
            in if r1 r = 0 then (Inl (ShimError oper 0), w1)
               else (Inr \<lparr>v_iso = s_iso (scopes w s), v_sc = s, v_h = r1 r\<rparr>, w1)) w"

section \<open>Escapable scopes\<close>

definition NewEscapableScope :: "engine \<Rightarrow> tid \<Rightarrow> ref \<Rightarrow> world \<Rightarrow> ref result" where
  [op_defs]: "NewEscapableScope E t s w =
     andThen (checkedHandle t s w) (\<lambda>sh w.
       let i = s_iso (scopes w s) in
       guarded
         [fail_if (\<not> s_borrowed (scopes w s) \<and> \<not> currentHandleScope (isolates w i) (ScopeTok s)
             \<and> \<not> (case currentHandleScopeToken (isolates w i) of
                    Some (EscTok e) \<Rightarrow> e_outer (escScopes w e) = s
                  | _ \<Rightarrow> False))
            (Misuse ''scope is not the current escapable-scope destination'')]
         (\<lambda>w. andThen (callHandle E t ''EscapableScope.New'' ''gov8_ca_esc_scope_enter''
                         [W (handleAssumingCheck i w), W sh] w) (\<lambda>h w.
            let e = nextRef w
            in (Inr e, upd_iso i (pushHandleScope (EscTok e))
                  (w\<lparr>escScopes := (escScopes w)(e := \<lparr>e_iso = i, e_outer = s, e_handle = h,
                        e_escaped = False, e_closed = False\<rparr>),
                     nextRef := Suc e\<rparr>)))) w)"

definition EscapableScope_check :: "tid \<Rightarrow> ref \<Rightarrow> world \<Rightarrow> error option" where
  [check_defs]: "EscapableScope_check t e w =
     first_err [Scope_check t (e_outer (escScopes w e)) w,
                fail_if (e_closed (escScopes w e)) (UsedAfterClose KEscapable)]"

definition Escape :: "engine \<Rightarrow> tid \<Rightarrow> ref \<Rightarrow> Value \<Rightarrow> world \<Rightarrow> Value result" where
  [op_defs]: "Escape E t e v w =
     guarded
       [EscapableScope_check t e w,
        fail_if (e_escaped (escScopes w e)) (Misuse ''EscapableHandleScope::escape() called twice''),
        Value_check t v w,
        fail_if (v_iso v \<noteq> e_iso (escScopes w e)) (Foreign KValue)]
       (\<lambda>w. andThen (checkedHandleAssumingIsolate (e_outer (escScopes w e)) w) (\<lambda>sh w.
            andThen (callErr E t ''EscapableScope.Escape'' ''gov8_ca_esc_scope_escape''
               [W (handleAssumingCheck (e_iso (escScopes w e)) w), W sh,
                W (e_handle (escScopes w e)), W (v_h v), Out] w) (\<lambda>r w.
              (Inr \<lparr>v_iso = e_iso (escScopes w e), v_sc = e_outer (escScopes w e), v_h = out r 0\<rparr>,
               upd_esc e (\<lambda>x. x\<lparr>e_escaped := True\<rparr>) w)))) w"

definition EscapableScope_Close :: "engine \<Rightarrow> tid \<Rightarrow> ref \<Rightarrow> world \<Rightarrow> unit result" where
  [op_defs]: "EscapableScope_Close E t e w =
     guarded
       [Scope_check t (e_outer (escScopes w e)) w,
        fail_if (e_closed (escScopes w e)) (AlreadyClosed KEscapable),
        requireInitialized w,
        fail_if (\<not> currentHandleScope (isolates w (e_iso (escScopes w e))) (EscTok e))
          (Misuse ''escapable scope is not the current innermost handle scope'')]
       (\<lambda>w. let (r, w1) = shim E t ''gov8_ca_esc_scope_exit'' [W (e_handle (escScopes w e))] w;
                w2 = upd_esc e (\<lambda>x. x\<lparr>e_closed := True\<rparr>) w1
            in andThen (popHandleScope_w (EscTok e) (e_iso (escScopes w2 e)) w2)
                 (\<lambda>_ w. if sneg (r1 r) then (Inl (ShimError ''EscapableScope.Close'' (r1 r)), w)
                        else (Inr (), w))) w"

section \<open>JavaScript execution guards\<close>

definition pushGuard :: "uintptr \<Rightarrow> Scope \<Rightarrow> Scope" where
  "pushGuard h s = s\<lparr>s_javascriptExecutionGuards := s_javascriptExecutionGuards s @ [h]\<rparr>"

definition guardOnTop :: "Scope \<Rightarrow> uintptr \<Rightarrow> bool" where
  "guardOnTop s h \<longleftrightarrow>
     length (s_javascriptExecutionGuards s) \<noteq> 0 \<and> last (s_javascriptExecutionGuards s) = h"

text \<open>Dropping the last element of the guard stack, as both Close methods do after the shim call.\<close>

definition dropGuard :: "Scope \<Rightarrow> Scope" where
  "dropGuard s = s\<lparr>s_javascriptExecutionGuards :=
     take (length (s_javascriptExecutionGuards s) - 1) (s_javascriptExecutionGuards s)\<rparr>"

definition popGuard :: "uintptr \<Rightarrow> Scope \<Rightarrow> Scope option" where
  "popGuard h s =
     (if guardOnTop s h then Some (dropGuard s) else None)"

interpretation jsg: token_stack pushGuard popGuard guardOnTop s_javascriptExecutionGuards
  by unfold_locales (auto simp: pushGuard_def popGuard_def dropGuard_def guardOnTop_def butlast_conv_take)

definition NewDisallowJavascriptExecutionScope :: "engine \<Rightarrow> tid \<Rightarrow> ref \<Rightarrow> 8 word \<Rightarrow> world \<Rightarrow> ref result" where
  [op_defs]: "NewDisallowJavascriptExecutionScope E t s onFailure w =
     guarded
       [Scope_check t s w,
        fail_if (onFailure > 2) (MisuseCount ''invalid JavaScript execution failure mode'' (unat onFailure))]
       (\<lambda>w. andThen (callHandle E t ''DisallowJavascriptExecutionScope.New'' ''gov8_csa_disallow_javascript_new''
                       [W (handleAssumingCheck (s_iso (scopes w s)) w), W (ucast onFailure)] w) (\<lambda>h w.
            let d = nextRef w
            in (Inr d, upd_scope s (pushGuard h)
                  (w\<lparr>disallows := (disallows w)(d := \<lparr>d_scope = s, d_handle = h, d_closed = False\<rparr>),
                     nextRef := Suc d\<rparr>)))) w"

text \<open>The validation both guard types share, up to the kind named in the error.\<close>

definition JSGuard_checkCurrent :: "kind \<Rightarrow> tid \<Rightarrow> JSGuard \<Rightarrow> world \<Rightarrow> error option" where
  [check_defs]: "JSGuard_checkCurrent k t d w =
     first_err
       [Isolate_check t (s_iso (scopes w (d_scope d))) w,
        fail_if (d_closed d) (UsedAfterClose k),
        fail_if (s_closed (scopes w (d_scope d))) (UsedAfterClose KOwningScope),
        fail_if (\<not> guardOnTop (scopes w (d_scope d)) (d_handle d))
          (Misuse ''JavaScript execution scopes must close in LIFO order'')]"

definition Disallow_checkCurrent :: "tid \<Rightarrow> ref \<Rightarrow> world \<Rightarrow> error option" where
  [check_defs]: "Disallow_checkCurrent t d w = JSGuard_checkCurrent KDisallow t (disallows w d) w"

definition Allow_checkCurrent :: "tid \<Rightarrow> ref \<Rightarrow> world \<Rightarrow> error option" where
  [check_defs]: "Allow_checkCurrent t a w = JSGuard_checkCurrent KAllow t (allows w a) w"

definition NewAllowJavascriptExecutionScope :: "engine \<Rightarrow> tid \<Rightarrow> ref \<Rightarrow> world \<Rightarrow> ref result" where
  [op_defs]: "NewAllowJavascriptExecutionScope E t d w =
     guarded [Disallow_checkCurrent t d w]
       (\<lambda>w. let s = d_scope (disallows w d) in
            andThen (callHandle E t ''AllowJavascriptExecutionScope.New'' ''gov8_csa_allow_javascript_new''
                       [W (handleAssumingCheck (s_iso (scopes w s)) w)] w) (\<lambda>h w.
              let a = nextRef w
              in (Inr a, upd_scope s (pushGuard h)
                    (w\<lparr>allows := (allows w)(a := \<lparr>d_scope = s, d_handle = h, d_closed = False\<rparr>),
                       nextRef := Suc a\<rparr>)))) w"

definition Disallow_Close :: "engine \<Rightarrow> tid \<Rightarrow> ref \<Rightarrow> world \<Rightarrow> unit result" where
  [op_defs]: "Disallow_Close E t d w =
     guarded [Disallow_checkCurrent t d w]
       (\<lambda>w. andThen (callErr E t ''DisallowJavascriptExecutionScope.Close'' ''gov8_csa_disallow_javascript_dispose''
                       [W (d_handle (disallows w d))] w) (\<lambda>_ w.
            (Inr (), upd_scope (d_scope (disallows w d)) dropGuard
               (w\<lparr>disallows := (disallows w)(d := (disallows w d)\<lparr>d_closed := True\<rparr>)\<rparr>)))) w"

definition Allow_Close :: "engine \<Rightarrow> tid \<Rightarrow> ref \<Rightarrow> world \<Rightarrow> unit result" where
  [op_defs]: "Allow_Close E t a w =
     guarded [Allow_checkCurrent t a w]
       (\<lambda>w. andThen (callErr E t ''AllowJavascriptExecutionScope.Close'' ''gov8_csa_allow_javascript_dispose''
                       [W (d_handle (allows w a))] w) (\<lambda>_ w.
            (Inr (), upd_scope (d_scope (allows w a)) dropGuard
               (w\<lparr>allows := (allows w)(a := (allows w a)\<lparr>d_closed := True\<rparr>)\<rparr>)))) w"

section \<open>The operations as steps\<close>

datatype scope_op =
    OpNewScope ref | OpScopeClose ref | OpConstructPrimitive ref string primitiveConstructor uintptr
  | OpNewEscapableScope ref | OpEscape ref Value | OpEscapableScopeClose ref
  | OpNewDisallow ref "8 word" | OpNewAllow ref | OpDisallowClose ref | OpAllowClose ref

fun scope_exec :: "engine \<Rightarrow> tid \<Rightarrow> scope_op \<Rightarrow> world \<Rightarrow> world" where
  "scope_exec E t (OpNewScope i) w = snd (NewScope E t i w)"
| "scope_exec E t (OpScopeClose s) w = snd (Scope_Close E t s w)"
| "scope_exec E t (OpConstructPrimitive s oper k v) w = snd (constructPrimitive E t s oper k v w)"
| "scope_exec E t (OpNewEscapableScope s) w = snd (NewEscapableScope E t s w)"
| "scope_exec E t (OpEscape e v) w = snd (Escape E t e v w)"
| "scope_exec E t (OpEscapableScopeClose e) w = snd (EscapableScope_Close E t e w)"
| "scope_exec E t (OpNewDisallow s f) w = snd (NewDisallowJavascriptExecutionScope E t s f w)"
| "scope_exec E t (OpNewAllow d) w = snd (NewAllowJavascriptExecutionScope E t d w)"
| "scope_exec E t (OpDisallowClose d) w = snd (Disallow_Close E t d w)"
| "scope_exec E t (OpAllowClose a) w = snd (Allow_Close E t a w)"

lemmas scope_stack_defs = pushHandleScope_def popHandleScope_def pushGuard_def dropGuard_def

text \<open>A property that does not depend on the scopes is kept by every operation on them.\<close>

locale scope_blind = alloc_stable +
  assumes upd_scopes: "P w \<Longrightarrow> P (w\<lparr>scopes := S\<rparr>)"
    and upd_escScopes: "P w \<Longrightarrow> P (w\<lparr>escScopes := X\<rparr>)"
    and upd_disallows: "P w \<Longrightarrow> P (w\<lparr>disallows := D\<rparr>)"
    and upd_allows: "P w \<Longrightarrow> P (w\<lparr>allows := A\<rparr>)"
    and upd_stacks: "P w \<Longrightarrow>
          \<forall>j. (I j)\<lparr>i_handleScopeStack := []\<rparr> = (isolates w j)\<lparr>i_handleScopeStack := []\<rparr> \<Longrightarrow>
          P (w\<lparr>isolates := I\<rparr>)"
begin

lemmas blind_rules = upd_nextRef upd_scopes upd_escScopes upd_disallows upd_allows upd_stacks

lemma P_scope_exec: "P w \<Longrightarrow> P (scope_exec E t a w)"
  by (cases a)
    (auto simp: op_defs call_eqs Let_def scope_stack_defs intro!: P_rules blind_rules split: option.split)

end

lemma iso_key_stack:
  "x\<lparr>i_handleScopeStack := []\<rparr> = y\<lparr>i_handleScopeStack := []\<rparr> \<Longrightarrow> iso_key x = iso_key y"
  by (cases x; cases y) (simp add: iso_key_def)

interpretation scope_live: scope_blind live_inv
proof
  fix w I
  assume "live_inv w" "\<forall>j. (I j)\<lparr>i_handleScopeStack := []\<rparr> = (isolates w j)\<lparr>i_handleScopeStack := []\<rparr>"
  then show "live_inv (w\<lparr>isolates := I\<rparr>)" by (blast intro: live_inv_isolates iso_key_stack)
qed (simp_all add: live_inv_def)

section \<open>Validation, characterised\<close>

lemma Scope_check_None: "Scope_check t s w = None \<longleftrightarrow>
    Isolate_check t (s_iso (scopes w s)) w = None \<and> \<not> s_closed (scopes w s)"
  by (auto simp: Scope_check_def)

lemma checkedHandle_snd [simp]: "snd (checkedHandle t s w) = w"
  by (simp add: checkedHandle_def snd_guarded)

lemma checkedHandle_Inr: "fst (checkedHandle t s w) = Inr h \<longleftrightarrow> Scope_check t s w = None \<and> h = s_handle (scopes w s)"
  by (auto simp: checkedHandle_def guarded_def first_err_Cons split: option.splits)


section \<open>The stack lists the open scopes\<close>

text \<open>The tokens of the scopes of isolate \<open>i\<close> that are open and not borrowed.\<close>

definition open_tokens :: "(ref \<Rightarrow> Scope) \<Rightarrow> (ref \<Rightarrow> EscapableScope) \<Rightarrow> ref \<Rightarrow> scope_token set" where
  "open_tokens S X i =
     ScopeTok ` {s. s_iso (S s) = i \<and> \<not> s_closed (S s) \<and> \<not> s_borrowed (S s)}
     \<union> EscTok ` {e. e_iso (X e) = i \<and> \<not> e_closed (X e)}"

definition scopes_ok :: "nat \<Rightarrow> (ref \<Rightarrow> Isolate) \<Rightarrow> (ref \<Rightarrow> Scope) \<Rightarrow> (ref \<Rightarrow> EscapableScope) \<Rightarrow> bool" where
  "scopes_ok n I S X \<longleftrightarrow>
     (\<forall>s. \<not> s_closed (S s) \<longrightarrow> s < n \<and> s_iso (S s) < n)
     \<and> (\<forall>e. \<not> e_closed (X e) \<longrightarrow> e < n \<and> e_iso (X e) < n)
     \<and> (\<forall>i. \<not> i_closed (I i) \<longrightarrow>
          distinct (i_handleScopeStack (I i)) \<and> set (i_handleScopeStack (I i)) = open_tokens S X i)"

definition scopes_inv :: "world \<Rightarrow> bool" where
  "scopes_inv w \<longleftrightarrow> scopes_ok (nextRef w) (isolates w) (scopes w) (escScopes w)"

lemma scopes_ok_cong:
  assumes "scopes_ok n I S X" and "n \<le> n'"
    and "\<And>i. i_closed (I' i) = i_closed (I i) \<and> i_handleScopeStack (I' i) = i_handleScopeStack (I i)"
    and "\<And>s. s_iso (S' s) = s_iso (S s) \<and> s_closed (S' s) = s_closed (S s) \<and> s_borrowed (S' s) = s_borrowed (S s)"
    and "\<And>e. e_iso (X' e) = e_iso (X e) \<and> e_closed (X' e) = e_closed (X e)"
  shows "scopes_ok n' I' S' X'"
proof -
  have "scopes_ok n I' S' X'" using assms(1) by (simp add: scopes_ok_def open_tokens_def assms(3-5))
  with assms(2) show ?thesis by (fastforce simp: scopes_ok_def intro: less_le_trans)
qed

lemma newScopeStruct_simps [simp]:
  "s_iso (newScopeStruct i h b) = i" "s_closed (newScopeStruct i h b) = False"
  "s_borrowed (newScopeStruct i h b) = b"
  by (simp_all add: newScopeStruct_def)

lemma open_tokens_new_scope:
  "s_closed (S n) \<Longrightarrow> open_tokens (S(n := newScopeStruct i h False)) X j =
     (if j = i then insert (ScopeTok n) (open_tokens S X j) else open_tokens S X j)"
  by (auto simp: open_tokens_def)

lemma open_tokens_new_esc:
  "e_closed (X n) \<Longrightarrow> e_iso x = i \<Longrightarrow> \<not> e_closed x \<Longrightarrow> open_tokens S (X(n := x)) j =
     (if j = i then insert (EscTok n) (open_tokens S X j) else open_tokens S X j)"
  by (auto simp: open_tokens_def)

lemma open_tokens_close:
  "open_tokens (S(s := (S s)\<lparr>s_closed := True\<rparr>)) X j = open_tokens S X j - {ScopeTok s}"
  "open_tokens S (X(e := (X e)\<lparr>e_closed := True\<rparr>)) j = open_tokens S X j - {EscTok e}"
  by (auto simp: open_tokens_def)

lemma scopes_ok_new_scope:
  assumes "scopes_ok n I S X" "i < n"
  shows "scopes_ok (Suc n) (I(i := pushHandleScope (ScopeTok n) (I i))) (S(n := newScopeStruct i h False)) X"
proof -
  have n: "s_closed (S n)" using assms(1) by (auto simp: scopes_ok_def)
  then have "ScopeTok n \<notin> open_tokens S X i" by (auto simp: open_tokens_def)
  then show ?thesis using assms n
    by (auto simp: scopes_ok_def pushHandleScope_def open_tokens_new_scope less_Suc_eq)
qed

lemma scopes_ok_new_esc:
  assumes "scopes_ok n I S X" "i < n" "e_iso x = i" "\<not> e_closed x"
  shows "scopes_ok (Suc n) (I(i := pushHandleScope (EscTok n) (I i))) S (X(n := x))"
proof -
  have n: "e_closed (X n)" using assms(1) by (auto simp: scopes_ok_def)
  then have "EscTok n \<notin> open_tokens S X i" by (auto simp: open_tokens_def)
  then show ?thesis using assms n
    by (auto simp: scopes_ok_def pushHandleScope_def open_tokens_new_esc less_Suc_eq)
qed

lemma stack_after_pop:
  assumes "popHandleScope x a = Some a'" "distinct (i_handleScopeStack a)"
  shows "distinct (i_handleScopeStack a')" "set (i_handleScopeStack a') = set (i_handleScopeStack a) - {x}"
  using assms(2) hs.pop_eq_Some [OF assms(1)] by auto

lemma scopes_ok_close_scope:
  assumes "scopes_ok n I S X" "s_iso (S s) = i" "popHandleScope (ScopeTok s) (I i) = Some x"
  shows "scopes_ok n (I(i := x)) (S(s := (S s)\<lparr>s_closed := True\<rparr>)) X"
proof -
  have "j \<noteq> i \<Longrightarrow> ScopeTok s \<notin> open_tokens S X j" for j
    using assms(2) by (auto simp: open_tokens_def)
  moreover have "i_closed x = i_closed (I i)" using assms(3) by (auto simp: popHandleScope_def split: if_splits)
  ultimately show ?thesis
    using assms(1) stack_after_pop [OF assms(3)] by (auto simp: scopes_ok_def open_tokens_close)
qed

lemma scopes_ok_close_esc:
  assumes "scopes_ok n I S X" "e_iso (X e) = i" "popHandleScope (EscTok e) (I i) = Some x"
  shows "scopes_ok n (I(i := x)) S (X(e := (X e)\<lparr>e_closed := True\<rparr>))"
proof -
  have "j \<noteq> i \<Longrightarrow> EscTok e \<notin> open_tokens S X j" for j
    using assms(2) by (auto simp: open_tokens_def)
  moreover have "i_closed x = i_closed (I i)" using assms(3) by (auto simp: popHandleScope_def split: if_splits)
  ultimately show ?thesis
    using assms(1) stack_after_pop [OF assms(3)] by (auto simp: scopes_ok_def open_tokens_close)
qed

lemma scopes_inv_NewScope:
  assumes "scopes_inv w" "live_inv w"
  shows "scopes_inv (snd (NewScope E t i w))"
  using assms
  by (auto simp: NewScope_def callHandle_eq outcome_simps Let_def handleChecked_Inr scopes_inv_def
      Isolate_check_None live_inv_def intro!: scopes_ok_new_scope split: sum.splits)

lemma scopes_inv_Scope_Close:
  assumes "scopes_inv w"
  shows "scopes_inv (snd (Scope_Close E t s w))"
  using assms
  by (auto simp: Scope_Close_def shim_eq outcome_simps Let_def popHandleScope_w_def scopes_inv_def
      requireCurrent_def currentHandleScope_def popHandleScope_def
      intro!: scopes_ok_close_scope split: sum.splits option.splits)

lemma scopes_inv_NewEscapableScope:
  assumes "scopes_inv w" "live_inv w"
  shows "scopes_inv (snd (NewEscapableScope E t s w))"
  using assms
  by (auto simp: NewEscapableScope_def callHandle_eq outcome_simps Let_def checkedHandle_Inr scopes_inv_def
      Scope_check_None Isolate_check_None live_inv_def intro!: scopes_ok_new_esc split: sum.splits)

lemma scopes_inv_EscapableScope_Close:
  assumes "scopes_inv w"
  shows "scopes_inv (snd (EscapableScope_Close E t s w))"
  using assms
  by (auto simp: EscapableScope_Close_def shim_eq outcome_simps Let_def popHandleScope_w_def scopes_inv_def
      currentHandleScope_def popHandleScope_def
      intro!: scopes_ok_close_esc split: sum.splits option.splits)

text \<open>What an operation of another component may change of the scopes.\<close>

definition scope_frame :: "world \<Rightarrow> world \<Rightarrow> bool" where
  "scope_frame w w' \<longleftrightarrow> nextRef w \<le> nextRef w'
     \<and> (\<forall>i. i_closed (isolates w' i) = i_closed (isolates w i)
          \<and> i_handleScopeStack (isolates w' i) = i_handleScopeStack (isolates w i))
     \<and> (\<forall>s. s_iso (scopes w' s) = s_iso (scopes w s) \<and> s_closed (scopes w' s) = s_closed (scopes w s)
          \<and> s_borrowed (scopes w' s) = s_borrowed (scopes w s))
     \<and> (\<forall>e. e_iso (escScopes w' e) = e_iso (escScopes w e) \<and> e_closed (escScopes w' e) = e_closed (escScopes w e))"

lemma scope_frame_refl [simp]: "scope_frame w w"
  by (simp add: scope_frame_def)

lemma scopes_inv_frame: "scopes_inv w \<Longrightarrow> scope_frame w w' \<Longrightarrow> scopes_inv w'"
  unfolding scopes_inv_def scope_frame_def by (blast intro: scopes_ok_cong)

interpretation scp_alloc: alloc_stable scopes_inv
  by unfold_locales (auto simp: scope_frame_def elim!: scopes_inv_frame)

lemma scope_inner_frame:
  "scope_frame w (snd (constructPrimitive E t s oper k v w))"
  "scope_frame w (snd (Escape E t e v' w))"
  "scope_frame w (snd (NewDisallowJavascriptExecutionScope E t s f w))"
  "scope_frame w (snd (NewAllowJavascriptExecutionScope E t d w))"
  "scope_frame w (snd (Disallow_Close E t d w))"
  "scope_frame w (snd (Allow_Close E t d w))"
  by (auto simp: op_defs call_eqs outcome_simps Let_def scope_frame_def scope_stack_defs split: sum.splits)

lemma scope_scopes_inv: "scopes_inv w \<Longrightarrow> live_inv w \<Longrightarrow> scopes_inv (scope_exec E t a w)"
  by (cases a)
    (auto intro: scopes_inv_NewScope scopes_inv_Scope_Close scopes_inv_NewEscapableScope
      scopes_inv_EscapableScope_Close scopes_inv_frame scope_inner_frame)

text \<open>The lifecycle keeps the invariant: a new isolate has an empty stack and no scopes, a closed
  one is no longer constrained.\<close>

lemma scopes_ok_new_isolate:
  assumes "scopes_ok n I S X" "i_handleScopeStack x = []"
  shows "scopes_ok (Suc n) (I(n := x)) S X"
proof -
  have "open_tokens S X n = {}"
    using assms(1) by (fastforce simp: scopes_ok_def open_tokens_def)
  with assms show ?thesis by (auto simp: scopes_ok_def less_Suc_eq)
qed

lemma scopes_ok_close_isolate:
  assumes "scopes_ok n I S X" "i_closed x"
  shows "scopes_ok n (I(i := x)) S X"
  using assms by (auto simp: scopes_ok_def)

lemma scopes_inv_NewIsolate_locked: "scopes_inv w \<Longrightarrow> scopes_inv (snd (NewIsolate_locked E t w))"
  by (auto simp: NewIsolate_locked_def beginIsolateCreate_def finishIsolateCreate_def UnlockOSThread_def
      callHandle_eq Let_def scopes_inv_def newIsolateStruct_def intro!: scopes_ok_new_isolate
      split: option.splits)

lemma lifecycle_scopes_inv: "scopes_inv w \<Longrightarrow> scopes_inv (lifecycle_exec E t a w)"
proof (cases a)
  case (OpIsolateClose i)
  assume "scopes_inv w"
  moreover have "scopes (snd (Isolate_teardown E t i w)) = scopes w"
    "escScopes (snd (Isolate_teardown E t i w)) = escScopes w"
    using Isolate_teardown_state(2) [of E t i w] by (simp_all add: heaps_def)
  ultimately show ?thesis
    using OpIsolateClose Isolate_Close_state [of E t i w]
    by (auto simp: scopes_inv_def Isolate_teardown_state intro!: scopes_ok_close_isolate)
next
  case OpNewIsolate
  assume "scopes_inv w"
  then have "scopes_inv (LockOSThread t w)" by (simp add: scopes_inv_def LockOSThread_def)
  with \<open>scopes_inv w\<close> OpNewIsolate show ?thesis
    by (simp add: NewIsolate_def snd_guarded scopes_inv_NewIsolate_locked)
next
  case OpNewIsolateLocked
  assume "scopes_inv w"
  with OpNewIsolateLocked show ?thesis by (simp add: scopes_inv_NewIsolate_locked)
qed (auto simp: op_defs call_eqs outcome_simps Let_def scope_frame_def
    elim!: scopes_inv_frame split: option.splits sum.splits)

end
