(* ===== verification/Contexts.thy ===== *)
theory Contexts
  imports Scopes
begin

text \<open>
  Contexts and what hangs off them: the Context of scope.go with its options
  (context_scopes_advanced.go, context_residual.go), the microtask queues of microtask.go with the
  count of contexts attached to each queue, and the entered-context guards and context references
  of core_advanced.go.
\<close>

section \<open>Context\<close>

text \<open>The calls whose status is returned as a boolean.\<close>

definition boolCall :: "engine \<Rightarrow> tid \<Rightarrow> string \<Rightarrow> string \<Rightarrow> arg list \<Rightarrow> world \<Rightarrow> bool result" where
  [op_defs]: "boolCall E t oper p args w = andThen (callErr E t oper p args w) (\<lambda>r w. (Inr (r1 r = 1), w))"

definition unitCall :: "engine \<Rightarrow> tid \<Rightarrow> string \<Rightarrow> string \<Rightarrow> arg list \<Rightarrow> world \<Rightarrow> unit result" where
  [op_defs]: "unitCall E t oper p args w = andThen (callErr E t oper p args w) (\<lambda>_ w. (Inr (), w))"

definition localCall :: "engine \<Rightarrow> tid \<Rightarrow> string \<Rightarrow> string \<Rightarrow> arg list \<Rightarrow> ref \<Rightarrow> ref \<Rightarrow> world \<Rightarrow> Value result" where
  [op_defs]: "localCall E t oper p args i s w =
     andThen (callErr E t oper p args w) (\<lambda>r w. (Inr \<lparr>v_iso = i, v_sc = s, v_h = out r 0\<rparr>, w))"

definition NewContext :: "engine \<Rightarrow> tid \<Rightarrow> ref \<Rightarrow> world \<Rightarrow> ref result" where
  [op_defs]: "NewContext E t i w =
     andThen (handleChecked t i w) (\<lambda>ih w.
     andThen (callHandle E t ''Context.New'' ''gov8_context_new'' [W ih] w) (\<lambda>ch w.
       let c = nextRef w
       in (Inr c, upd_iso i (\<lambda>x. x\<lparr>i_contextsCreated := True\<rparr>)
             (w\<lparr>contexts := (contexts w)(c := \<lparr>c_iso = i, c_handle = ch, c_closed = False,
                   c_microtaskQueue = None\<rparr>), nextRef := Suc c\<rparr>))))"

definition Context_check :: "tid \<Rightarrow> ref \<Rightarrow> world \<Rightarrow> error option" where
  [check_defs]: "Context_check t c w =
     first_err [Isolate_check t (c_iso (contexts w c)) w,
                fail_if (c_closed (contexts w c)) (UsedAfterClose KContext)]"

definition Context_checkAssumingIsolate :: "ref \<Rightarrow> world \<Rightarrow> error option" where
  [check_defs]: "Context_checkAssumingIsolate c w =
     fail_if (c_closed (contexts w c)) (UsedAfterClose KContext)"

text \<open>Close gives up the attachment to the context's microtask queue.\<close>

definition detachQueue :: "ref \<Rightarrow> world \<Rightarrow> world" where
  [op_defs]: "detachQueue c w =
     (case c_microtaskQueue (contexts w c) of
        None \<Rightarrow> w
      | Some m \<Rightarrow>
          upd_ctx c (\<lambda>x. x\<lparr>c_microtaskQueue := None\<rparr>)
            (upd_queue m (\<lambda>q. q\<lparr>m_attachments := m_attachments q - 1\<rparr>) w))"

definition Context_Close :: "engine \<Rightarrow> tid \<Rightarrow> ref \<Rightarrow> world \<Rightarrow> unit result" where
  [op_defs]: "Context_Close E t c w =
     guarded
       [Isolate_check t (c_iso (contexts w c)) w,
        fail_if (c_closed (contexts w c)) (AlreadyClosed KContext),
        inspectorContextCloseError c w,
        requireInitialized w]
       (\<lambda>w. let (r, w1) = shim E t ''gov8_context_dispose'' [W (c_handle (contexts w c))] w;
                w2 = detachQueue c (upd_ctx c (\<lambda>x. x\<lparr>c_closed := True\<rparr>) w1)
            in if sneg (r1 r) then (Inl (ShimError ''Context.Close'' (r1 r)), w2) else (Inr (), w2)) w"

definition GlobalObject :: "engine \<Rightarrow> tid \<Rightarrow> ref \<Rightarrow> ref \<Rightarrow> world \<Rightarrow> Value result" where
  [op_defs]: "GlobalObject E t c s w =
     guarded
       [Context_check t c w,
        fail_if (s_closed (scopes w s)) (UsedAfterClose KScope),
        fail_if (s_iso (scopes w s) \<noteq> c_iso (contexts w c)) (Foreign KScope)]
       (\<lambda>w. localCall E t ''Context.GlobalObject'' ''gov8_context_global_object''
              [W (handleAssumingCheck (c_iso (contexts w c)) w), W (c_handle (contexts w c)),
               W (s_handle (scopes w s)), Out]
              (c_iso (contexts w c)) s w) w"

definition GetExtrasBindingObject :: "engine \<Rightarrow> tid \<Rightarrow> ref \<Rightarrow> ref \<Rightarrow> world \<Rightarrow> Value result" where
  [op_defs]: "GetExtrasBindingObject E t c s w =
     guarded
       [Context_check t c w,
        fail_if (s_closed (scopes w s)) (UsedAfterClose KScope),
        fail_if (s_iso (scopes w s) \<noteq> c_iso (contexts w c)) (Foreign KScope)]
       (\<lambda>w. localCall E t ''Context.GetExtrasBindingObject'' ''gov8_csa_context_extras_binding_object''
              [W (handleAssumingCheck (c_iso (contexts w c)) w), W (c_handle (contexts w c)),
               W (s_handle (scopes w s)), Out]
              (c_iso (contexts w c)) s w) w"

definition SetContinuationPreservedEmbedderData :: "engine \<Rightarrow> tid \<Rightarrow> ref \<Rightarrow> Value \<Rightarrow> world \<Rightarrow> unit result" where
  [op_defs]: "SetContinuationPreservedEmbedderData E t s v w =
     guarded
       [Scope_check t s w, Value_check t v w,
        fail_if (v_iso v \<noteq> s_iso (scopes w s)) (Foreign KValue)]
       (\<lambda>w. unitCall E t ''Scope.SetContinuationPreservedEmbedderData'' ''gov8_csa_set_continuation_preserved_data''
              [W (handleAssumingCheck (s_iso (scopes w s)) w), W (s_handle (scopes w s)), W (v_h v)] w) w"

definition GetContinuationPreservedEmbedderData :: "engine \<Rightarrow> tid \<Rightarrow> ref \<Rightarrow> world \<Rightarrow> Value result" where
  [op_defs]: "GetContinuationPreservedEmbedderData E t s w =
     guarded [Scope_check t s w]
       (\<lambda>w. localCall E t ''Scope.GetContinuationPreservedEmbedderData'' ''gov8_csa_get_continuation_preserved_data''
              [W (handleAssumingCheck (s_iso (scopes w s)) w), W (s_handle (scopes w s)), Out]
              (s_iso (scopes w s)) s w) w"

section \<open>Microtask queues\<close>

definition PolicyExplicit :: "8 word" where "PolicyExplicit = 1"

definition NewMicrotaskQueue :: "engine \<Rightarrow> tid \<Rightarrow> ref \<Rightarrow> 8 word \<Rightarrow> world \<Rightarrow> ref result" where
  [op_defs]: "NewMicrotaskQueue E t i policy w =
     guarded [fail_if (policy > PolicyExplicit) (MisuseCount ''invalid microtasks policy'' (unat policy))]
       (\<lambda>w. andThen (handleChecked t i w) (\<lambda>ih w.
            andThen (callHandle E t ''MicrotaskQueue.New'' ''gov8_microtask_queue_new''
                       [W ih, W (ucast policy)] w) (\<lambda>h w.
            (case callHandle E t ''MicrotaskQueue.Raw'' ''gov8_microtask_queue_raw'' [W h] w of
               (Inl e, w1) \<Rightarrow>
                 (let (_, w2) = shim E t ''gov8_microtask_queue_dispose'' [W h] w1 in (Inl e, w2))
             | (Inr raw, w1) \<Rightarrow>
                 (let m = nextRef w1
                  in (Inr m, w1\<lparr>queues := (queues w1)(m := \<lparr>m_iso = i, m_handle = h, m_raw = raw,
                                 m_closed = False, m_attachments = 0\<rparr>), nextRef := Suc m\<rparr>)))))) w"

definition MicrotaskQueue_check :: "tid \<Rightarrow> ref \<Rightarrow> world \<Rightarrow> error option" where
  [check_defs]: "MicrotaskQueue_check t m w =
     first_err [Isolate_check t (m_iso (queues w m)) w,
                fail_if (m_closed (queues w m)) (UsedAfterClose KQueue)]"

definition MicrotaskQueue_Raw :: "tid \<Rightarrow> ref \<Rightarrow> world \<Rightarrow> uintptr result" where
  [op_defs]: "MicrotaskQueue_Raw t m w =
     guarded [MicrotaskQueue_check t m w] (\<lambda>w. (Inr (m_raw (queues w m)), w)) w"

text \<open>The optional context of PerformCheckpoint and Enqueue: its own closed flag and its isolate
  are tested, and its handle (0 for none) goes to the shim.\<close>

definition optContext_check :: "ref option \<Rightarrow> ref \<Rightarrow> world \<Rightarrow> error option" where
  [check_defs]: "optContext_check mc i w =
     (case mc of
        None \<Rightarrow> None
      | Some c \<Rightarrow> first_err [Context_checkAssumingIsolate c w,
                           fail_if (c_iso (contexts w c) \<noteq> i) (Foreign KContext)])"

definition optContext_handle :: "ref option \<Rightarrow> world \<Rightarrow> uintptr" where
  "optContext_handle mc w = (case mc of None \<Rightarrow> 0 | Some c \<Rightarrow> c_handle (contexts w c))"

definition PerformCheckpoint :: "engine \<Rightarrow> tid \<Rightarrow> ref \<Rightarrow> ref option \<Rightarrow> world \<Rightarrow> unit result" where
  [op_defs]: "PerformCheckpoint E t m mc w =
     guarded [MicrotaskQueue_check t m w, requireInitialized w, optContext_check mc (m_iso (queues w m)) w]
       (\<lambda>w. unitCall E t ''MicrotaskQueue.PerformCheckpoint'' ''gov8_microtask_queue_perform_checkpoint''
              [W (handleAssumingCheck (m_iso (queues w m)) w), W (m_handle (queues w m)),
               W (optContext_handle mc w)] w) w"

definition Enqueue :: "engine \<Rightarrow> tid \<Rightarrow> ref \<Rightarrow> ref option \<Rightarrow> Value \<Rightarrow> world \<Rightarrow> unit result" where
  [op_defs]: "Enqueue E t m mc fn w =
     guarded
       [MicrotaskQueue_check t m w, Value_check t fn w,
        fail_if (v_iso fn \<noteq> m_iso (queues w m)) (Foreign KValue),
        requireInitialized w, optContext_check mc (m_iso (queues w m)) w]
       (\<lambda>w. unitCall E t ''MicrotaskQueue.Enqueue'' ''gov8_microtask_queue_enqueue''
              [W (handleAssumingCheck (m_iso (queues w m)) w), W (m_handle (queues w m)),
               W (optContext_handle mc w), W (v_h fn)] w) w"

definition MicrotaskQueue_Close :: "engine \<Rightarrow> tid \<Rightarrow> ref \<Rightarrow> world \<Rightarrow> unit result" where
  [op_defs]: "MicrotaskQueue_Close E t m w =
     guarded
       [Isolate_check t (m_iso (queues w m)) w,
        fail_if (m_closed (queues w m)) (AlreadyClosed KQueue),
        fail_if (m_attachments (queues w m) \<noteq> 0)
          (MisuseCount ''microtask queue is attached to context(s)'' (nat (m_attachments (queues w m)))),
        requireInitialized w]
       (\<lambda>w. let (r, w1) = shim E t ''gov8_microtask_queue_dispose'' [W (m_handle (queues w m))] w;
                w2 = upd_queue m (\<lambda>q. q\<lparr>m_closed := True\<rparr>) w1
            in if sneg (r1 r) then (Inl (ShimError ''MicrotaskQueue.Close'' (r1 r)), w2) else (Inr (), w2)) w"

definition SetMicrotasksPolicy :: "engine \<Rightarrow> tid \<Rightarrow> ref \<Rightarrow> 8 word \<Rightarrow> world \<Rightarrow> unit result" where
  [op_defs]: "SetMicrotasksPolicy E t i p w =
     guarded [fail_if (p > PolicyExplicit) (MisuseCount ''invalid microtasks policy'' (unat p))]
       (\<lambda>w. andThen (handleChecked t i w) (\<lambda>ih w.
            unitCall E t ''SetMicrotasksPolicy'' ''gov8_isolate_set_microtasks_policy''
              [W ih, W (ucast p)] w)) w"

definition GetMicrotasksPolicy :: "engine \<Rightarrow> tid \<Rightarrow> ref \<Rightarrow> world \<Rightarrow> 8 word result" where
  [op_defs]: "GetMicrotasksPolicy E t i w =
     andThen (handleChecked t i w) (\<lambda>ih w.
     andThen (callErr E t ''GetMicrotasksPolicy'' ''gov8_isolate_get_microtasks_policy'' [W ih] w)
       (\<lambda>r w. (Inr (ucast (r1 r)), w)))"

definition PerformMicrotaskCheckpoint :: "engine \<Rightarrow> tid \<Rightarrow> ref \<Rightarrow> world \<Rightarrow> unit result" where
  [op_defs]: "PerformMicrotaskCheckpoint E t i w =
     andThen (handleChecked t i w) (\<lambda>ih w.
     unitCall E t ''PerformMicrotaskCheckpoint'' ''gov8_isolate_perform_microtask_checkpoint'' [W ih] w)"

text \<open>The bookkeeping of SetMicrotaskQueue: the queue attached before loses an attachment, the new
  one gains it, and attaching the same queue again changes nothing.\<close>

definition attachQueue :: "ref \<Rightarrow> ref \<Rightarrow> world \<Rightarrow> world" where
  [op_defs]: "attachQueue c m w =
     (if c_microtaskQueue (contexts w c) = Some m then w
      else
        let w1 = (case c_microtaskQueue (contexts w c) of
                    None \<Rightarrow> w
                  | Some old \<Rightarrow> upd_queue old (\<lambda>q. q\<lparr>m_attachments := m_attachments q - 1\<rparr>) w);
            w2 = upd_queue m (\<lambda>q. q\<lparr>m_attachments := m_attachments q + 1\<rparr>) w1
        in upd_ctx c (\<lambda>x. x\<lparr>c_microtaskQueue := Some m\<rparr>) w2)"

definition SetMicrotaskQueue :: "engine \<Rightarrow> tid \<Rightarrow> ref \<Rightarrow> ref option \<Rightarrow> world \<Rightarrow> unit result" where
  [op_defs]: "SetMicrotaskQueue E t c mm w =
     guarded [Context_check t c w]
       (\<lambda>w. case mm of
          None \<Rightarrow> (Inl (NilArgument KQueue), w)
        | Some m \<Rightarrow>
            guarded
              [fail_if (m_closed (queues w m)) (UsedAfterClose KQueue),
               fail_if (m_iso (queues w m) \<noteq> c_iso (contexts w c)) (Foreign KQueue)]
              (\<lambda>w. andThen (callErr E t ''Context.SetMicrotaskQueue'' ''gov8_context_set_microtask_queue''
                              [W (c_handle (contexts w c)), W (m_handle (queues w m))] w)
                     (\<lambda>_ w. (Inr (), attachQueue c m w))) w) w"

definition GetMicrotaskQueue :: "engine \<Rightarrow> tid \<Rightarrow> ref \<Rightarrow> world \<Rightarrow> uintptr result" where
  [op_defs]: "GetMicrotaskQueue E t c w =
     guarded [Context_check t c w]
       (\<lambda>w. let (r, w1) = shim E t ''gov8_context_get_microtask_queue'' [W (c_handle (contexts w c))] w
            in (Inr (r1 r), w1)) w"

definition IsRunningMicrotasks :: "engine \<Rightarrow> tid \<Rightarrow> ref \<Rightarrow> world \<Rightarrow> bool result" where
  [op_defs]: "IsRunningMicrotasks E t m w =
     guarded [MicrotaskQueue_check t m w]
       (\<lambda>w. andThen (callErr E t ''MicrotaskQueue.IsRunningMicrotasks'' ''gov8_csa_microtask_queue_is_running''
                       [W (m_handle (queues w m)), Out] w) (\<lambda>r w. (Inr (ucast (out r 0) \<noteq> (0 :: 32 word)), w))) w"

definition GetMicrotasksScopeDepth :: "engine \<Rightarrow> tid \<Rightarrow> ref \<Rightarrow> world \<Rightarrow> 32 word result" where
  [op_defs]: "GetMicrotasksScopeDepth E t m w =
     guarded [MicrotaskQueue_check t m w]
       (\<lambda>w. andThen (callErr E t ''MicrotaskQueue.GetMicrotasksScopeDepth'' ''gov8_csa_microtask_queue_scope_depth''
                       [W (m_handle (queues w m)), Out] w) (\<lambda>r w. (Inr (ucast (out r 0)), w))) w"

section \<open>Contexts with options\<close>

record ContextOptions =
  o_GlobalTemplate :: "Value option"
  o_GlobalObject :: "Value option"
  o_MicrotaskQueue :: "ref option"

text \<open>An ObjectTemplate has the fields of a Value (isolate, scope, handle) and the same
  validation with another message.\<close>

definition Template_check :: "tid \<Rightarrow> Value \<Rightarrow> world \<Rightarrow> error option" where
  [check_defs]: "Template_check t v w =
     first_err [fail_if (v_h v = 0) (Misuse ''zero template handle''), Scope_check t (v_sc v) w]"

definition optTemplate_check :: "tid \<Rightarrow> Value option \<Rightarrow> ref \<Rightarrow> world \<Rightarrow> error option" where
  [check_defs]: "optTemplate_check t mv i w =
     (case mv of
        None \<Rightarrow> None
      | Some v \<Rightarrow> first_err [Template_check t v w, fail_if (v_iso v \<noteq> i) (Foreign KValue)])"

definition optObject_check :: "tid \<Rightarrow> Value option \<Rightarrow> ref \<Rightarrow> world \<Rightarrow> error option" where
  [check_defs]: "optObject_check t mv i w =
     (case mv of
        None \<Rightarrow> None
      | Some v \<Rightarrow> first_err [Value_check t v w, fail_if (v_iso v \<noteq> i) (Foreign KValue)])"

definition optQueue_check :: "tid \<Rightarrow> ref option \<Rightarrow> ref \<Rightarrow> world \<Rightarrow> error option" where
  [check_defs]: "optQueue_check t mm i w =
     (case mm of
        None \<Rightarrow> None
      | Some m \<Rightarrow> first_err [MicrotaskQueue_check t m w, fail_if (m_iso (queues w m) \<noteq> i) (Foreign KQueue)])"

definition optValue_handle :: "Value option \<Rightarrow> uintptr" where
  "optValue_handle mv = (case mv of None \<Rightarrow> 0 | Some v \<Rightarrow> v_h v)"

definition optQueue_handle :: "ref option \<Rightarrow> world \<Rightarrow> uintptr" where
  "optQueue_handle mm w = (case mm of None \<Rightarrow> 0 | Some m \<Rightarrow> m_handle (queues w m))"

text \<open>The end of both constructors: mark the isolate, count the attachment, build the wrapper.\<close>

definition registerContext :: "ref \<Rightarrow> uintptr \<Rightarrow> ref option \<Rightarrow> world \<Rightarrow> ref \<times> world" where
  [op_defs]: "registerContext i ch mm w =
     (let c = nextRef w;
          w1 = upd_iso i (\<lambda>x. x\<lparr>i_contextsCreated := True\<rparr>) w;
          w2 = (case mm of None \<Rightarrow> w1
                | Some m \<Rightarrow> upd_queue m (\<lambda>q. q\<lparr>m_attachments := m_attachments q + 1\<rparr>) w1)
      in (c, w2\<lparr>contexts := (contexts w2)(c := \<lparr>c_iso = i, c_handle = ch, c_closed = False,
                 c_microtaskQueue = mm\<rparr>), nextRef := Suc c\<rparr>))"

definition NewContextWithOptions :: "engine \<Rightarrow> tid \<Rightarrow> ref \<Rightarrow> ref \<Rightarrow> ContextOptions \<Rightarrow> world \<Rightarrow> ref result" where
  [op_defs]: "NewContextWithOptions E t i s opts w =
     guarded [Scope_check t s w]
       (\<lambda>w. andThen (handleChecked t i w) (\<lambda>ih w.
          guarded
            [fail_if (s_iso (scopes w s) \<noteq> i) (Foreign KScope),
             optTemplate_check t (o_GlobalTemplate opts) i w,
             optObject_check t (o_GlobalObject opts) i w,
             optQueue_check t (o_MicrotaskQueue opts) i w]
            (\<lambda>w. andThen (callHandle E t ''Context.NewWithOptions'' ''gov8_csa_context_new_options''
                    [W ih, W (s_handle (scopes w s)), W (optValue_handle (o_GlobalTemplate opts)),
                     W (optValue_handle (o_GlobalObject opts)), W (optQueue_handle (o_MicrotaskQueue opts) w)] w)
                  (\<lambda>ch w. let (c, w1) = registerContext i ch (o_MicrotaskQueue opts) w in (Inr c, w1))) w)) w"

definition ContextFromSnapshotWithOptions :: "engine \<Rightarrow> tid \<Rightarrow> ref \<Rightarrow> uintptr \<Rightarrow> ContextOptions \<Rightarrow> world \<Rightarrow> ref option result" where
  [op_defs]: "ContextFromSnapshotWithOptions E t s index opts w =
     guarded [Scope_check t s w]
       (\<lambda>w. let i = s_iso (scopes w s) in
          andThen (handleChecked t i w) (\<lambda>ih w.
          guarded
            [optObject_check t (o_GlobalObject opts) i w, optQueue_check t (o_MicrotaskQueue opts) i w]
            (\<lambda>w. andThen (callErr E t ''Scope.ContextFromSnapshotWithOptions'' ''gov8_cr_context_from_snapshot_options''
                    [W ih, W (s_handle (scopes w s)), W index, W (optValue_handle (o_GlobalObject opts)),
                     W (optQueue_handle (o_MicrotaskQueue opts) w), Out, Out] w)
                  (\<lambda>r w. if ucast (out r 1) \<noteq> (1 :: 32 word) then (Inr None, w)
                         else if out r 0 = 0 then (Inl (Misuse ''Context::FromSnapshot returned an invalid context''), w)
                         else let (c, w1) = registerContext i (out r 0) (o_MicrotaskQueue opts) w
                              in (Inr (Some c), w1))) w)) w"

section \<open>Entered contexts\<close>

definition ContextRef_check :: "tid \<Rightarrow> ContextRef \<Rightarrow> world \<Rightarrow> error option" where
  [check_defs]: "ContextRef_check t r w =
     first_err
       [Isolate_check t (r_iso r) w,
        fail_if (s_iso (scopes w (r_sc r)) \<noteq> r_iso r) (Foreign KContextRef),
        fail_if (s_closed (scopes w (r_sc r))) (UsedAfterClose KScope)]"

text \<open>The stack of entered contexts of an isolate.\<close>

definition pushContextScope :: "ref \<Rightarrow> ref list \<Rightarrow> ref list" where
  "pushContextScope x st = st @ [x]"

definition contextScopeOnTop :: "ref list \<Rightarrow> ref \<Rightarrow> bool" where
  "contextScopeOnTop st x \<longleftrightarrow> length st \<noteq> 0 \<and> last st = x"

definition popContextScope :: "ref \<Rightarrow> ref list \<Rightarrow> ref list option" where
  "popContextScope x st = (if contextScopeOnTop st x then Some (take (length st - 1) st) else None)"

interpretation ctxs: token_stack pushContextScope popContextScope contextScopeOnTop "\<lambda>st. st"
  by unfold_locales
    (auto simp: pushContextScope_def popContextScope_def contextScopeOnTop_def butlast_conv_take)

definition enterContextScope :: "ref \<Rightarrow> entered \<Rightarrow> world \<Rightarrow> ref \<times> world" where
  [op_defs]: "enterContextScope i en w =
     (let x = nextRef w
      in (x, w\<lparr>ctxScopes := (ctxScopes w)(x := \<lparr>cs_iso = i, cs_entered = en, cs_closed = False\<rparr>),
               contextScopeStacks := (contextScopeStacks w)(i := pushContextScope x (contextScopeStacks w i)),
               nextRef := Suc x\<rparr>))"

definition Context_Enter :: "engine \<Rightarrow> tid \<Rightarrow> ref \<Rightarrow> world \<Rightarrow> ref result" where
  [op_defs]: "Context_Enter E t c w =
     guarded [Context_check t c w]
       (\<lambda>w. andThen (callErr E t ''Context.Enter'' ''gov8_ca_context_enter''
                       [W (handleAssumingCheck (c_iso (contexts w c)) w), W (c_handle (contexts w c))] w)
            (\<lambda>_ w. let (x, w1) = enterContextScope (c_iso (contexts w c)) (EnteredCtx c) w in (Inr x, w1))) w"

definition ContextRef_Enter :: "engine \<Rightarrow> tid \<Rightarrow> ContextRef \<Rightarrow> world \<Rightarrow> ref result" where
  [op_defs]: "ContextRef_Enter E t r w =
     guarded
       [ContextRef_check t r w,
        fail_if (r_h r = 0) (Misuse ''empty context reference''),
        fail_if (s_activeBorrowedContextScopes (scopes w (r_sc r)) = - 1)
          (Misuse ''too many active borrowed context scopes'')]
       (\<lambda>w. let w1 = upd_scope (r_sc r) (\<lambda>x. x\<lparr>s_activeBorrowedContextScopes := s_activeBorrowedContextScopes x + 1\<rparr>) w in
          (case callErr E t ''ContextRef.Enter'' ''gov8_ca_context_enter_local''
                  [W (handleAssumingCheck (r_iso r) w1), W (s_handle (scopes w1 (r_sc r))), W (r_h r)] w1 of
             (Inl e, w2) \<Rightarrow>
               (Inl e, upd_scope (r_sc r) (\<lambda>x. x\<lparr>s_activeBorrowedContextScopes := s_activeBorrowedContextScopes x - 1\<rparr>) w2)
           | (Inr _, w2) \<Rightarrow>
               (let (x, w3) = enterContextScope (r_iso r) (EnteredRef r) w2 in (Inr x, w3)))) w"

definition entered_check :: "tid \<Rightarrow> entered \<Rightarrow> world \<Rightarrow> error option" where
  [check_defs]: "entered_check t en w =
     (case en of EnteredCtx c \<Rightarrow> Context_checkAssumingIsolate c w | EnteredRef r \<Rightarrow> ContextRef_check t r w)"

definition exitContext :: "engine \<Rightarrow> tid \<Rightarrow> ref \<Rightarrow> entered \<Rightarrow> world \<Rightarrow> unit result" where
  [op_defs]: "exitContext E t i en w =
     (case en of
        EnteredCtx c \<Rightarrow>
          unitCall E t ''ContextScope.Close'' ''gov8_ca_context_exit''
            [W (handleAssumingCheck i w), W (c_handle (contexts w c))] w
      | EnteredRef r \<Rightarrow>
          unitCall E t ''ContextScope.Close'' ''gov8_ca_context_exit_local''
            [W (handleAssumingCheck i w), W (s_handle (scopes w (r_sc r))), W (r_h r)] w)"

definition releaseBorrow :: "entered \<Rightarrow> world \<Rightarrow> world" where
  [op_defs]: "releaseBorrow en w =
     (case en of
        EnteredCtx c \<Rightarrow> w
      | EnteredRef r \<Rightarrow>
          upd_scope (r_sc r) (\<lambda>x. x\<lparr>s_activeBorrowedContextScopes := s_activeBorrowedContextScopes x - 1\<rparr>) w)"

definition ContextScope_Close :: "engine \<Rightarrow> tid \<Rightarrow> ref \<Rightarrow> world \<Rightarrow> unit result" where
  [op_defs]: "ContextScope_Close E t x w =
     (let i = cs_iso (ctxScopes w x); en = cs_entered (ctxScopes w x) in
      guarded
        [fail_if (cs_closed (ctxScopes w x)) (AlreadyClosed KContextScope),
         Isolate_check t i w,
         entered_check t en w,
         fail_if (\<not> contextScopeOnTop (contextScopeStacks w i) x)
           (Misuse ''context scopes must be exited in reverse enter order'')]
        (\<lambda>w. andThen (exitContext E t i en w) (\<lambda>_ w.
             (Inr (), releaseBorrow en
                (w\<lparr>contextScopeStacks := (contextScopeStacks w)(i :=
                     take (length (contextScopeStacks w i) - 1) (contextScopeStacks w i)),
                   ctxScopes := (ctxScopes w)(x := (ctxScopes w x)\<lparr>cs_closed := True\<rparr>)\<rparr>)))) w)"

section \<open>Context references\<close>

definition ContextRef_IsEmpty :: "tid \<Rightarrow> ContextRef \<Rightarrow> world \<Rightarrow> bool result" where
  [op_defs]: "ContextRef_IsEmpty t r w = guarded [ContextRef_check t r w] (\<lambda>w. (Inr (r_h r = 0), w)) w"

definition ContextRef_GlobalObject :: "engine \<Rightarrow> tid \<Rightarrow> ContextRef \<Rightarrow> ref option \<Rightarrow> world \<Rightarrow> Value result" where
  [op_defs]: "ContextRef_GlobalObject E t r ms w =
     guarded [ContextRef_check t r w, fail_if (r_h r = 0) (Misuse ''empty context reference'')]
       (\<lambda>w. case ms of
          None \<Rightarrow> (Inl (Foreign KScope), w)
        | Some s \<Rightarrow>
            guarded
              [fail_if (s_iso (scopes w s) \<noteq> r_iso r) (Foreign KScope),
               fail_if (s_closed (scopes w s)) (UsedAfterClose KScope),
               requireCurrent s w]
              (\<lambda>w. andThen (localCall E t ''ContextRef.GlobalObject'' ''gov8_ca_context_global_local''
                      [W (handleAssumingCheck (r_iso r) w), W (s_handle (scopes w s)), W (r_h r), Out]
                      (r_iso r) s w)
                    (\<lambda>v w. if v_h v = 0 then (Inl (Misuse ''ContextRef.GlobalObject returned an empty value''), w)
                           else (Inr v, w))) w) w"

text \<open>CurrentContext and EnteredOrMicrotaskContext differ only in the export they call.\<close>

definition observeContext :: "engine \<Rightarrow> tid \<Rightarrow> string \<Rightarrow> string \<Rightarrow> ref \<Rightarrow> ref option \<Rightarrow> world \<Rightarrow> ContextRef result" where
  [op_defs]: "observeContext E t oper p i ms w =
     guarded [Isolate_check t i w]
       (\<lambda>w. case ms of
          None \<Rightarrow> (Inl (Foreign KScope), w)
        | Some s \<Rightarrow>
            guarded
              [fail_if (s_iso (scopes w s) \<noteq> i) (Foreign KScope),
               fail_if (s_closed (scopes w s)) (UsedAfterClose KScope),
               requireCurrent s w]
              (\<lambda>w. andThen (callErr E t oper p
                      [W (handleAssumingCheck i w), W (s_handle (scopes w s)), Out] w)
                    (\<lambda>r w. (Inr \<lparr>r_iso = i, r_sc = s, r_h = out r 0\<rparr>, w))) w) w"

definition CurrentContext :: "engine \<Rightarrow> tid \<Rightarrow> ref \<Rightarrow> ref option \<Rightarrow> world \<Rightarrow> ContextRef result" where
  [op_defs]: "CurrentContext E t i ms w = observeContext E t ''CurrentContext'' ''gov8_ca_context_current'' i ms w"

definition EnteredOrMicrotaskContext :: "engine \<Rightarrow> tid \<Rightarrow> ref \<Rightarrow> ref option \<Rightarrow> world \<Rightarrow> ContextRef result" where
  [op_defs]: "EnteredOrMicrotaskContext E t i ms w =
     observeContext E t ''EnteredOrMicrotaskContext'' ''gov8_ca_context_entered_or_microtask'' i ms w"

definition ContextRef_SameAs :: "engine \<Rightarrow> tid \<Rightarrow> ContextRef \<Rightarrow> ref option \<Rightarrow> world \<Rightarrow> bool result" where
  [op_defs]: "ContextRef_SameAs E t r mc w =
     guarded [ContextRef_check t r w]
       (\<lambda>w. case mc of
          None \<Rightarrow> (Inl (NilArgument KContext), w)
        | Some c \<Rightarrow>
            if c_iso (contexts w c) \<noteq> r_iso r then (Inr False, w)
            else guarded [Context_checkAssumingIsolate c w]
              (\<lambda>w. andThen (callErr E t ''ContextRef.SameAs'' ''gov8_ca_context_local''
                      [W (handleAssumingCheck (r_iso r) w), W (c_handle (contexts w c)),
                       W (s_handle (scopes w (r_sc r))), Out] w)
                    (\<lambda>q w. let loc = out q 0 in
                       if r_h r = 0 \<or> loc = 0 then (Inr (r_h r = loc), w)
                       else boolCall E t ''ContextRef.SameAs'' ''gov8_ca_context_eq'' [W (r_h r), W loc] w)) w) w"

definition ContextRef_SameAsRef :: "engine \<Rightarrow> tid \<Rightarrow> ContextRef \<Rightarrow> ContextRef option \<Rightarrow> world \<Rightarrow> bool result" where
  [op_defs]: "ContextRef_SameAsRef E t r mo w =
     guarded [ContextRef_check t r w]
       (\<lambda>w. case mo of
          None \<Rightarrow> (Inl (NilArgument KContextRef), w)
        | Some other \<Rightarrow>
            if r_iso other \<noteq> r_iso r then (Inr False, w)
            else guarded [ContextRef_check t other w]
              (\<lambda>w. if r_h r = 0 \<or> r_h other = 0 then (Inr (r_h r = r_h other), w)
                   else boolCall E t ''ContextRef.SameAsRef'' ''gov8_ca_context_eq'' [W (r_h r), W (r_h other)] w) w) w"

section \<open>The operations as steps\<close>

datatype context_op =
    OpNewContext ref | OpContextClose ref | OpGlobalObject ref ref | OpGetExtrasBindingObject ref ref
  | OpSetContinuationData ref Value | OpGetContinuationData ref
  | OpNewMicrotaskQueue ref "8 word" | OpQueueRaw ref | OpPerformCheckpoint ref "ref option"
  | OpEnqueue ref "ref option" Value | OpQueueClose ref | OpSetMicrotasksPolicy ref "8 word"
  | OpGetMicrotasksPolicy ref | OpPerformMicrotaskCheckpoint ref | OpSetMicrotaskQueue ref "ref option"
  | OpGetMicrotaskQueue ref | OpIsRunningMicrotasks ref | OpGetMicrotasksScopeDepth ref
  | OpNewContextWithOptions ref ref ContextOptions | OpContextFromSnapshot ref uintptr ContextOptions
  | OpContextEnter ref | OpContextRefEnter ContextRef | OpContextScopeClose ref
  | OpContextRefIsEmpty ContextRef | OpContextRefGlobalObject ContextRef "ref option"
  | OpCurrentContext ref "ref option" | OpEnteredOrMicrotaskContext ref "ref option"
  | OpContextRefSameAs ContextRef "ref option" | OpContextRefSameAsRef ContextRef "ContextRef option"

fun context_exec :: "engine \<Rightarrow> tid \<Rightarrow> context_op \<Rightarrow> world \<Rightarrow> world" where
  "context_exec E t (OpNewContext i) w = snd (NewContext E t i w)"
| "context_exec E t (OpContextClose c) w = snd (Context_Close E t c w)"
| "context_exec E t (OpGlobalObject c s) w = snd (GlobalObject E t c s w)"
| "context_exec E t (OpGetExtrasBindingObject c s) w = snd (GetExtrasBindingObject E t c s w)"
| "context_exec E t (OpSetContinuationData s v) w = snd (SetContinuationPreservedEmbedderData E t s v w)"
| "context_exec E t (OpGetContinuationData s) w = snd (GetContinuationPreservedEmbedderData E t s w)"
| "context_exec E t (OpNewMicrotaskQueue i p) w = snd (NewMicrotaskQueue E t i p w)"
| "context_exec E t (OpQueueRaw m) w = snd (MicrotaskQueue_Raw t m w)"
| "context_exec E t (OpPerformCheckpoint m mc) w = snd (PerformCheckpoint E t m mc w)"
| "context_exec E t (OpEnqueue m mc v) w = snd (Enqueue E t m mc v w)"
| "context_exec E t (OpQueueClose m) w = snd (MicrotaskQueue_Close E t m w)"
| "context_exec E t (OpSetMicrotasksPolicy i p) w = snd (SetMicrotasksPolicy E t i p w)"
| "context_exec E t (OpGetMicrotasksPolicy i) w = snd (GetMicrotasksPolicy E t i w)"
| "context_exec E t (OpPerformMicrotaskCheckpoint i) w = snd (PerformMicrotaskCheckpoint E t i w)"
| "context_exec E t (OpSetMicrotaskQueue c mm) w = snd (SetMicrotaskQueue E t c mm w)"
| "context_exec E t (OpGetMicrotaskQueue c) w = snd (GetMicrotaskQueue E t c w)"
| "context_exec E t (OpIsRunningMicrotasks m) w = snd (IsRunningMicrotasks E t m w)"
| "context_exec E t (OpGetMicrotasksScopeDepth m) w = snd (GetMicrotasksScopeDepth E t m w)"
| "context_exec E t (OpNewContextWithOptions i s opts) w = snd (NewContextWithOptions E t i s opts w)"
| "context_exec E t (OpContextFromSnapshot s n opts) w = snd (ContextFromSnapshotWithOptions E t s n opts w)"
| "context_exec E t (OpContextEnter c) w = snd (Context_Enter E t c w)"
| "context_exec E t (OpContextRefEnter r) w = snd (ContextRef_Enter E t r w)"
| "context_exec E t (OpContextScopeClose x) w = snd (ContextScope_Close E t x w)"
| "context_exec E t (OpContextRefIsEmpty r) w = snd (ContextRef_IsEmpty t r w)"
| "context_exec E t (OpContextRefGlobalObject r ms) w = snd (ContextRef_GlobalObject E t r ms w)"
| "context_exec E t (OpCurrentContext i ms) w = snd (CurrentContext E t i ms w)"
| "context_exec E t (OpEnteredOrMicrotaskContext i ms) w = snd (EnteredOrMicrotaskContext E t i ms w)"
| "context_exec E t (OpContextRefSameAs r mc) w = snd (ContextRef_SameAs E t r mc w)"
| "context_exec E t (OpContextRefSameAsRef r mo) w = snd (ContextRef_SameAsRef E t r mo w)"

text \<open>A property that does not depend on contexts, queues and entered contexts is kept by every
  operation on them.\<close>

locale context_blind = alloc_stable +
  assumes upd_contexts: "P w \<Longrightarrow> P (w\<lparr>contexts := C\<rparr>)"
    and upd_queues: "P w \<Longrightarrow> P (w\<lparr>queues := Q\<rparr>)"
    and upd_ctxScopes: "P w \<Longrightarrow> P (w\<lparr>ctxScopes := X\<rparr>)"
    and upd_contextScopeStacks: "P w \<Longrightarrow> P (w\<lparr>contextScopeStacks := K\<rparr>)"
    and upd_isolates: "P w \<Longrightarrow>
          \<forall>j. (I j)\<lparr>i_contextsCreated := False\<rparr> = (isolates w j)\<lparr>i_contextsCreated := False\<rparr> \<Longrightarrow>
          P (w\<lparr>isolates := I\<rparr>)"
    and upd_scopes: "P w \<Longrightarrow>
          \<forall>s. (S s)\<lparr>s_activeBorrowedContextScopes := 0\<rparr> = (scopes w s)\<lparr>s_activeBorrowedContextScopes := 0\<rparr> \<Longrightarrow>
          P (w\<lparr>scopes := S\<rparr>)"
begin

lemmas blind_rules = upd_nextRef upd_contexts upd_queues upd_ctxScopes upd_contextScopeStacks
  upd_isolates upd_scopes

lemma P_context_exec: "P w \<Longrightarrow> P (context_exec E t a w)"
  by (cases a)
    (auto simp: op_defs call_eqs Let_def intro!: P_rules blind_rules split: option.split entered.split)

end

lemma fields_created:
  assumes "x\<lparr>i_contextsCreated := False\<rparr> = y\<lparr>i_contextsCreated := False\<rparr>"
  shows "iso_key x = iso_key y" "i_closed x = i_closed y" "i_handleScopeStack x = i_handleScopeStack y"
  using assms by (cases x; cases y; simp add: iso_key_def)+

lemma fields_borrowed:
  assumes "x\<lparr>s_activeBorrowedContextScopes := 0\<rparr> = y\<lparr>s_activeBorrowedContextScopes := 0\<rparr>"
  shows "s_iso x = s_iso y" "s_closed x = s_closed y" "s_borrowed x = s_borrowed y"
  using assms by (cases x; cases y; simp)+

interpretation context_live: context_blind live_inv
proof
  fix w I
  assume "live_inv w" "\<forall>j. (I j)\<lparr>i_contextsCreated := False\<rparr> = (isolates w j)\<lparr>i_contextsCreated := False\<rparr>"
  then show "live_inv (w\<lparr>isolates := I\<rparr>)" by (blast intro: live_inv_isolates fields_created)
qed (simp_all add: live_inv_def)

interpretation context_scp: context_blind scopes_inv
proof
  fix w I
  assume a: "scopes_inv w"
    and "\<forall>j. (I j)\<lparr>i_contextsCreated := False\<rparr> = (isolates w j)\<lparr>i_contextsCreated := False\<rparr>"
  then have "scope_frame w (w\<lparr>isolates := I\<rparr>)"
    by (simp add: scope_frame_def) (blast dest: fields_created)
  with a show "scopes_inv (w\<lparr>isolates := I\<rparr>)" by (rule scopes_inv_frame)
next
  fix w S
  assume a: "scopes_inv w"
    and "\<forall>s. (S s)\<lparr>s_activeBorrowedContextScopes := 0\<rparr> = (scopes w s)\<lparr>s_activeBorrowedContextScopes := 0\<rparr>"
  then have "scope_frame w (w\<lparr>scopes := S\<rparr>)"
    by (simp add: scope_frame_def) (blast dest: fields_borrowed)
  with a show "scopes_inv (w\<lparr>scopes := S\<rparr>)" by (rule scopes_inv_frame)
qed (simp_all add: scopes_inv_def)

section \<open>Attachments of microtask queues\<close>

definition attached :: "(ref \<Rightarrow> Context) \<Rightarrow> ref \<Rightarrow> ref set" where
  "attached C m = {c. c_microtaskQueue (C c) = Some m}"

text \<open>The count a queue keeps is the number of contexts that point to it, a closed queue has none,
  and a context that points to a queue is open.\<close>

definition queues_ok :: "nat \<Rightarrow> (ref \<Rightarrow> Context) \<Rightarrow> (ref \<Rightarrow> MicrotaskQueue) \<Rightarrow> bool" where
  "queues_ok n C Q \<longleftrightarrow>
     (\<forall>c. \<not> c_closed (C c) \<longrightarrow> c < n)
     \<and> (\<forall>c. c_microtaskQueue (C c) \<noteq> None \<longrightarrow> \<not> c_closed (C c))
     \<and> (\<forall>m. m_attachments (Q m) = int (card (attached C m)))
     \<and> (\<forall>m. m_closed (Q m) \<longrightarrow> attached C m = {})
     \<and> (\<forall>m. \<not> m_closed (Q m) \<longrightarrow> m < n)"

definition queues_inv :: "world \<Rightarrow> bool" where
  "queues_inv w \<longleftrightarrow> queues_ok (nextRef w) (contexts w) (queues w)"

lemma queues_ok_mono: "queues_ok n C Q \<Longrightarrow> n \<le> n' \<Longrightarrow> queues_ok n' C Q"
  by (fastforce simp: queues_ok_def)

lemma finite_attached: "queues_ok n C Q \<Longrightarrow> finite (attached C m)"
  by (rule finite_subset [of _ "{..<n}"]) (auto simp: queues_ok_def attached_def)

lemma attached_upd:
  "c_microtaskQueue (C c) = None \<Longrightarrow> c_microtaskQueue x = None \<Longrightarrow> attached (C(c := x)) = attached C"
  "c_microtaskQueue (C c) = None \<Longrightarrow> c_microtaskQueue x = Some m \<Longrightarrow>
     attached (C(c := x)) = (attached C)(m := insert c (attached C m))"
  "c_microtaskQueue (C c) = Some m \<Longrightarrow> c_microtaskQueue x = None \<Longrightarrow>
     attached (C(c := x)) = (attached C)(m := attached C m - {c})"
  by (auto simp: attached_def fun_eq_iff)

text \<open>The changes of a context's queue: a context without one changes, one is attached, one is
  detached, one is replaced.\<close>

lemma queues_ok_none:
  assumes "queues_ok n C Q" "c_microtaskQueue (C c) = None" "c_microtaskQueue x = None" "\<not> c_closed x \<longrightarrow> c < n"
  shows "queues_ok n (C(c := x)) Q"
  using assms by (auto simp: queues_ok_def attached_upd)

lemma queues_ok_attach:
  assumes "queues_ok n C Q" "c_microtaskQueue (C c) = None" "c_microtaskQueue x = Some m"
    "\<not> c_closed x" "c < n" "\<not> m_closed (Q m)"
  shows "queues_ok n (C(c := x)) (Q(m := (Q m)\<lparr>m_attachments := m_attachments (Q m) + 1\<rparr>))"
proof -
  have "c \<notin> attached C m" using assms(2) by (simp add: attached_def)
  then show ?thesis
    using assms finite_attached [OF assms(1), of m] by (auto simp: queues_ok_def attached_upd)
qed

lemma queues_ok_detach:
  assumes "queues_ok n C Q" "c_microtaskQueue (C c) = Some m" "c_microtaskQueue x = None"
    "\<not> c_closed x \<longrightarrow> c < n"
  shows "queues_ok n (C(c := x)) (Q(m := (Q m)\<lparr>m_attachments := m_attachments (Q m) - 1\<rparr>))"
proof -
  have c: "c \<in> attached C m" and f: "finite (attached C m)"
    using assms(2) finite_attached [OF assms(1)] by (simp_all add: attached_def)
  then have "card (attached C m) > 0" by (auto simp: card_gt_0_iff)
  with c f have "int (card (attached C m - {c})) = int (card (attached C m)) - 1" by simp
  then show ?thesis
    using assms by (auto simp: queues_ok_def attached_upd)
qed

lemma queues_ok_replace:
  assumes "queues_ok n C Q" "c_microtaskQueue (C c) = Some m'" "m' \<noteq> m" "\<not> m_closed (Q m)"
  shows "queues_ok n (C(c := (C c)\<lparr>c_microtaskQueue := Some m\<rparr>))
    (Q(m' := (Q m')\<lparr>m_attachments := m_attachments (Q m') - 1\<rparr>, m := (Q m)\<lparr>m_attachments := m_attachments (Q m) + 1\<rparr>))"
proof -
  have open_c: "\<not> c_closed (C c)" "c < n" using assms(1,2) by (auto simp: queues_ok_def)
  then have "queues_ok n (C(c := (C c)\<lparr>c_microtaskQueue := None\<rparr>))
      (Q(m' := (Q m')\<lparr>m_attachments := m_attachments (Q m') - 1\<rparr>))"
    using queues_ok_detach [OF assms(1,2)] by simp
  from queues_ok_attach [OF this, of c "(C c)\<lparr>c_microtaskQueue := Some m\<rparr>" m] open_c assms(3,4)
  show ?thesis by simp
qed

lemma queues_ok_new_queue:
  assumes "queues_ok n C Q" "m_attachments q = 0" "\<not> m_closed q"
  shows "queues_ok (Suc n) C (Q(n := q))"
proof -
  have "m_closed (Q n)" using assms(1) by (auto simp: queues_ok_def)
  then have "attached C n = {}" using assms(1) by (auto simp: queues_ok_def)
  with assms show ?thesis by (auto simp: queues_ok_def less_Suc_eq)
qed

lemma queues_ok_close_queue:
  assumes "queues_ok n C Q" "m_attachments (Q m) = 0"
  shows "queues_ok n C (Q(m := (Q m)\<lparr>m_closed := True\<rparr>))"
  using assms finite_attached [OF assms(1), of m] by (auto simp: queues_ok_def)

lemma queues_ok_new_context:
  assumes "queues_ok n C Q" "c_microtaskQueue x = None"
  shows "queues_ok (Suc n) (C(n := x)) Q"
proof -
  have "c_microtaskQueue (C n) = None" using assms(1) by (auto simp: queues_ok_def)
  with assms(2) show ?thesis
    by (intro queues_ok_none queues_ok_mono [OF assms(1)]) simp_all
qed

lemma queues_ok_new_attached:
  assumes "queues_ok n C Q" "c_microtaskQueue x = Some m" "\<not> c_closed x" "\<not> m_closed (Q m)"
  shows "queues_ok (Suc n) (C(n := x)) (Q(m := (Q m)\<lparr>m_attachments := m_attachments (Q m) + 1\<rparr>))"
proof -
  have "c_microtaskQueue (C n) = None" using assms(1) by (auto simp: queues_ok_def)
  with assms(2-) show ?thesis
    by (intro queues_ok_attach queues_ok_mono [OF assms(1)]) simp_all
qed

interpretation que_alloc: alloc_stable queues_inv
  by unfold_locales (auto simp: queues_inv_def elim: queues_ok_mono)

lemma queues_inv_Context_Close: "queues_inv w \<Longrightarrow> queues_inv (snd (Context_Close E t c w))"
  by (auto simp: Context_Close_def detachQueue_def shim_eq snd_guarded Let_def queues_inv_def
      intro!: queues_ok_none queues_ok_detach split: option.split)

lemma queues_inv_NewMicrotaskQueue: "queues_inv w \<Longrightarrow> queues_inv (snd (NewMicrotaskQueue E t i p w))"
  by (auto simp: NewMicrotaskQueue_def call_eqs outcome_simps Let_def queues_inv_def
      intro!: queues_ok_new_queue split: sum.split)

lemma queues_inv_MicrotaskQueue_Close: "queues_inv w \<Longrightarrow> queues_inv (snd (MicrotaskQueue_Close E t m w))"
  by (auto simp: MicrotaskQueue_Close_def shim_eq snd_guarded Let_def queues_inv_def
      intro!: queues_ok_close_queue)

lemma Context_check_None:
  "Context_check t c w = None \<longleftrightarrow> Isolate_check t (c_iso (contexts w c)) w = None \<and> \<not> c_closed (contexts w c)"
  by (auto simp: Context_check_def)

lemma queues_inv_SetMicrotaskQueue:
  assumes "queues_inv w"
  shows "queues_inv (snd (SetMicrotaskQueue E t c mm w))"
proof -
  have "c < nextRef w" if "\<not> c_closed (contexts w c)"
    using assms that by (auto simp: queues_inv_def queues_ok_def)
  with assms show ?thesis
    by (auto simp: SetMicrotaskQueue_def attachQueue_def callErr_eq outcome_simps Let_def queues_inv_def
        Context_check_None intro!: queues_ok_attach queues_ok_replace split: option.split sum.split)
qed

lemma queues_inv_registerContext:
  assumes "queues_inv w" "\<And>m. mm = Some m \<Longrightarrow> \<not> m_closed (queues w m)"
  shows "queues_inv (snd (registerContext i ch mm w))"
proof (cases mm)
  case None
  with assms(1) show ?thesis
    by (simp add: registerContext_def Let_def queues_inv_def queues_ok_new_context)
next
  case (Some m)
  with assms show ?thesis
    by (simp add: registerContext_def Let_def queues_inv_def queues_ok_new_attached)
qed

lemma optQueue_check_open: "optQueue_check t (Some m) i w = None \<Longrightarrow> \<not> m_closed (queues w m)"
  by (simp add: optQueue_check_def MicrotaskQueue_check_def)

lemma queues_inv_NewContext: "queues_inv w \<Longrightarrow> queues_inv (snd (NewContext E t i w))"
  by (auto simp: NewContext_def call_eqs outcome_simps Let_def queues_inv_def
      intro!: queues_ok_new_context split: sum.split)

lemma queues_inv_context_options:
  assumes "queues_inv w"
  shows "queues_inv (snd (NewContextWithOptions E t i s opts w))"
    "queues_inv (snd (ContextFromSnapshotWithOptions E t s n opts w))"
  using assms
  by (auto simp: NewContextWithOptions_def ContextFromSnapshotWithOptions_def call_eqs
      outcome_simps Let_def split_def
      intro!: queues_inv_registerContext que_alloc.P_called
      dest: optQueue_check_open split: sum.split)

lemma queues_inv_enter_ops:
  assumes "queues_inv w"
  shows "queues_inv (snd (Context_Enter E t c w))" "queues_inv (snd (ContextRef_Enter E t r w))"
    "queues_inv (snd (ContextScope_Close E t x w))"
  using assms
  by (auto simp: Context_Enter_def ContextRef_Enter_def ContextScope_Close_def enterContextScope_def
      exitContext_def releaseBorrow_def unitCall_def call_eqs outcome_simps Let_def queues_inv_def
      elim!: queues_ok_mono split: sum.split entered.split)

lemma context_queues_inv: "queues_inv w \<Longrightarrow> queues_inv (context_exec E t a w)"
proof (cases a)
  case (OpContextRefSameAs r mc)
  assume "queues_inv w"
  with OpContextRefSameAs show ?thesis
    by (auto simp: ContextRef_SameAs_def boolCall_def call_eqs Let_def intro!: que_alloc.P_rules split: option.split)
qed (auto simp: queues_inv_NewContext queues_inv_context_options queues_inv_enter_ops queues_inv_Context_Close
    queues_inv_NewMicrotaskQueue queues_inv_MicrotaskQueue_Close queues_inv_SetMicrotaskQueue
    GlobalObject_def GetExtrasBindingObject_def SetContinuationPreservedEmbedderData_def
    GetContinuationPreservedEmbedderData_def MicrotaskQueue_Raw_def PerformCheckpoint_def Enqueue_def
    SetMicrotasksPolicy_def GetMicrotasksPolicy_def PerformMicrotaskCheckpoint_def GetMicrotaskQueue_def
    IsRunningMicrotasks_def GetMicrotasksScopeDepth_def ContextRef_IsEmpty_def ContextRef_GlobalObject_def
    CurrentContext_def EnteredOrMicrotaskContext_def observeContext_def ContextRef_SameAsRef_def
    boolCall_def unitCall_def localCall_def shim_eq Let_def
    intro!: que_alloc.P_rules split: option.split)

interpretation scope_que: scope_blind queues_inv
  by unfold_locales (simp_all add: queues_inv_def)

lemma lifecycle_queues_inv: "queues_inv w \<Longrightarrow> queues_inv (lifecycle_exec E t a w)"
  using lifecycle_heaps [of E t a w] by (auto simp: queues_inv_def heaps_def elim: queues_ok_mono)

end
