(* ===== verification/Scripts.thy ===== *)
theory Scripts
  imports Contexts
begin

text \<open>
  Scripts and exception observers: the text-returning protocol of value.go (\<open>callTextFn\<close>), the
  TryCatch of trycatch.go and the Script of script.go. Running a script hands control to
  JavaScript, which may call back into Go before the shim returns; \<open>Script_Run\<close> takes the effect
  of those nested calls as an argument.
\<close>

section \<open>Texts\<close>

definition errNoMemory :: int where
  "errNoMemory = - 4"

definition toStringBufCap :: int where
  "toStringBufCap = 4096"

text \<open>A fresh Go buffer of \<open>n\<close> bytes after the shim wrote \<open>d\<close> into it.\<close>

definition bufAfter :: "int \<Rightarrow> string \<Rightarrow> string" where
  "bufAfter n d = take (nat n) d @ replicate (nat n - length d) (CHR 0x00)"

text \<open>An output variable that a call does not write keeps its value.\<close>

definition int64Out :: "int \<Rightarrow> resp \<Rightarrow> int" where
  "int64Out old r = (if outs r = [] then old else sint (hd (outs r)))"

definition callTextFn :: "string \<Rightarrow> (int \<Rightarrow> world \<Rightarrow> resp \<times> world) \<Rightarrow> world \<Rightarrow> string result" where
  [op_defs]: "callTextFn oper fn w =
     (let (r, w1) = fn toStringBufCap w;
          n = int64Out 0 r;
          finish = (\<lambda>r n size w.
             if sneg (r1 r) then (Inl (ShimError oper (r1 r)), w)
             else let m = (if n < 0 \<or> n > size then size else n)
                  in (Inr (take (nat m) (bufAfter size (data r))), w))
      in if sint (r1 r) = errNoMemory
         then if n \<le> 0 then (Inl (ShimError oper (r1 r)), w1)
              else let (r', w2) = fn n w1 in finish r' (int64Out n r') n w2
         else finish r n toStringBufCap w1)"

section \<open>TryCatch\<close>

definition NewTryCatch :: "engine \<Rightarrow> tid \<Rightarrow> ref \<Rightarrow> world \<Rightarrow> ref result" where
  [op_defs]: "NewTryCatch E t i w =
     andThen (handleChecked t i w) (\<lambda>ih w.
     andThen (callHandle E t ''TryCatch.New'' ''gov8_trycatch_new'' [W ih] w) (\<lambda>h w.
       let x = nextRef w
       in (Inr x, w\<lparr>tryCatches := (tryCatches w)(x := \<lparr>tc_iso = i, tc_handle = h, tc_closed = False\<rparr>),
                    nextRef := Suc x\<rparr>)))"

definition TryCatch_check :: "tid \<Rightarrow> ref \<Rightarrow> world \<Rightarrow> error option" where
  [check_defs]: "TryCatch_check t x w =
     first_err [Isolate_check t (tc_iso (tryCatches w x)) w,
                fail_if (tc_closed (tryCatches w x)) (UsedAfterClose KTryCatch)]"

definition TryCatch_Close :: "engine \<Rightarrow> tid \<Rightarrow> ref \<Rightarrow> world \<Rightarrow> unit result" where
  [op_defs]: "TryCatch_Close E t x w =
     guarded
       [Isolate_check t (tc_iso (tryCatches w x)) w,
        fail_if (tc_closed (tryCatches w x)) (AlreadyClosed KTryCatch),
        requireInitialized w]
       (\<lambda>w. let (r, w1) = shim E t ''gov8_trycatch_dispose'' [W (tc_handle (tryCatches w x))] w;
                w2 = w1\<lparr>tryCatches := (tryCatches w1)(x := (tryCatches w1 x)\<lparr>tc_closed := True\<rparr>)\<rparr>
            in if sneg (r1 r) then (Inl (ShimError ''TryCatch.Close'' (r1 r)), w2) else (Inr (), w2)) w"

definition HasCaught :: "engine \<Rightarrow> tid \<Rightarrow> ref \<Rightarrow> world \<Rightarrow> bool result" where
  [op_defs]: "HasCaught E t x w = guarded [TryCatch_check t x w]
     (\<lambda>w. boolCall E t ''HasCaught'' ''gov8_tc_has_caught'' [W (tc_handle (tryCatches w x))] w) w"

definition CanContinue :: "engine \<Rightarrow> tid \<Rightarrow> ref \<Rightarrow> world \<Rightarrow> bool result" where
  [op_defs]: "CanContinue E t x w = guarded [TryCatch_check t x w]
     (\<lambda>w. boolCall E t ''CanContinue'' ''gov8_tc_can_continue'' [W (tc_handle (tryCatches w x))] w) w"

definition IsVerbose :: "engine \<Rightarrow> tid \<Rightarrow> ref \<Rightarrow> world \<Rightarrow> bool result" where
  [op_defs]: "IsVerbose E t x w = guarded [TryCatch_check t x w]
     (\<lambda>w. boolCall E t ''TryCatch.IsVerbose'' ''gov8_ea_tc_is_verbose'' [W (tc_handle (tryCatches w x))] w) w"

definition SetVerbose :: "engine \<Rightarrow> tid \<Rightarrow> ref \<Rightarrow> bool \<Rightarrow> world \<Rightarrow> unit result" where
  [op_defs]: "SetVerbose E t x b w = guarded [TryCatch_check t x w]
     (\<lambda>w. unitCall E t ''TryCatch.SetVerbose'' ''gov8_ea_tc_set_verbose''
            [W (tc_handle (tryCatches w x)), W (if b then 1 else 0)] w) w"

definition SetCaptureMessage :: "engine \<Rightarrow> tid \<Rightarrow> ref \<Rightarrow> bool \<Rightarrow> world \<Rightarrow> unit result" where
  [op_defs]: "SetCaptureMessage E t x b w = guarded [TryCatch_check t x w]
     (\<lambda>w. unitCall E t ''TryCatch.SetCaptureMessage'' ''gov8_ea_tc_set_capture_message''
            [W (tc_handle (tryCatches w x)), W (if b then 1 else 0)] w) w"

definition Reset :: "engine \<Rightarrow> tid \<Rightarrow> ref \<Rightarrow> world \<Rightarrow> unit result" where
  [op_defs]: "Reset E t x w = guarded [TryCatch_check t x w]
     (\<lambda>w. unitCall E t ''Reset'' ''gov8_tc_reset'' [W (tc_handle (tryCatches w x))] w) w"

definition utf8Text :: "engine \<Rightarrow> tid \<Rightarrow> ref \<Rightarrow> string \<Rightarrow> string \<Rightarrow> ref \<Rightarrow> ref \<Rightarrow> world \<Rightarrow> string result" where
  [op_defs]: "utf8Text E t x p oper s c w =
     guarded
       [TryCatch_check t x w,
        Context_checkAssumingIsolate c w,
        fail_if (s_closed (scopes w s)) (UsedAfterClose KScope),
        fail_if (c_iso (contexts w c) \<noteq> tc_iso (tryCatches w x)) (Foreign KContext),
        fail_if (s_iso (scopes w s) \<noteq> tc_iso (tryCatches w x)) (Foreign KScope)]
       (\<lambda>w. callTextFn oper (\<lambda>cap w. shim E t p
               [W (handleAssumingCheck (tc_iso (tryCatches w x)) w), W (tc_handle (tryCatches w x)),
                W (c_handle (contexts w c)), W (s_handle (scopes w s)), OutBuf cap, Out] w) w) w"

definition MessageText :: "engine \<Rightarrow> tid \<Rightarrow> ref \<Rightarrow> ref \<Rightarrow> ref \<Rightarrow> world \<Rightarrow> string result" where
  [op_defs]: "MessageText E t x s c w = utf8Text E t x ''gov8_tc_message_utf8'' ''MessageText'' s c w"

definition ExceptionText :: "engine \<Rightarrow> tid \<Rightarrow> ref \<Rightarrow> ref \<Rightarrow> ref \<Rightarrow> world \<Rightarrow> string result" where
  [op_defs]: "ExceptionText E t x s c w = utf8Text E t x ''gov8_tc_exception_utf8'' ''ExceptionText'' s c w"

definition ExceptionIsString :: "engine \<Rightarrow> tid \<Rightarrow> ref \<Rightarrow> world \<Rightarrow> bool result" where
  [op_defs]: "ExceptionIsString E t x w = guarded [TryCatch_check t x w]
     (\<lambda>w. boolCall E t ''ExceptionIsString'' ''gov8_tc_exception_is_string'' [W (tc_handle (tryCatches w x))] w) w"

text \<open>StartPosition and StartColumn differ in the export only.\<close>

definition messageOffset :: "engine \<Rightarrow> tid \<Rightarrow> ref \<Rightarrow> string \<Rightarrow> string \<Rightarrow> ref \<Rightarrow> world \<Rightarrow> int result" where
  [op_defs]: "messageOffset E t x oper p s w =
     guarded
       [TryCatch_check t x w,
        fail_if (s_closed (scopes w s)) (UsedAfterClose KScope),
        fail_if (s_iso (scopes w s) \<noteq> tc_iso (tryCatches w x)) (Foreign KScope)]
       (\<lambda>w. andThen (callErr E t oper p
               [W (handleAssumingCheck (tc_iso (tryCatches w x)) w), W (tc_handle (tryCatches w x)),
                W (s_handle (scopes w s))] w) (\<lambda>r w. (Inr (sint (r1 r)), w))) w"

definition StartPosition :: "engine \<Rightarrow> tid \<Rightarrow> ref \<Rightarrow> ref \<Rightarrow> world \<Rightarrow> int result" where
  [op_defs]: "StartPosition E t x s w = messageOffset E t x ''StartPosition'' ''gov8_tc_start_position'' s w"

definition StartColumn :: "engine \<Rightarrow> tid \<Rightarrow> ref \<Rightarrow> ref \<Rightarrow> world \<Rightarrow> int result" where
  [op_defs]: "StartColumn E t x s w = messageOffset E t x ''StartColumn'' ''gov8_tc_start_column'' s w"

definition LineNumber :: "engine \<Rightarrow> tid \<Rightarrow> ref \<Rightarrow> ref \<Rightarrow> ref \<Rightarrow> world \<Rightarrow> (32 word \<times> bool) result" where
  [op_defs]: "LineNumber E t x s c w =
     guarded
       [TryCatch_check t x w,
        Context_checkAssumingIsolate c w,
        fail_if (s_closed (scopes w s)) (UsedAfterClose KScope),
        fail_if (c_iso (contexts w c) \<noteq> tc_iso (tryCatches w x)) (Foreign KContext),
        fail_if (s_iso (scopes w s) \<noteq> tc_iso (tryCatches w x)) (Foreign KScope)]
       (\<lambda>w. andThen (callErr E t ''LineNumber'' ''gov8_tc_line_number''
               [W (handleAssumingCheck (tc_iso (tryCatches w x)) w), W (tc_handle (tryCatches w x)),
                W (c_handle (contexts w c)), W (s_handle (scopes w s)), Out, Out] w)
             (\<lambda>r w. (Inr (ucast (out r 0), ucast (out r 1) = (1 :: 32 word)), w))) w"

section \<open>Script\<close>

text \<open>The optional TryCatch of Compile and Run: its isolate first, then its own validation.\<close>

definition optTryCatch_check :: "tid \<Rightarrow> ref option \<Rightarrow> ref \<Rightarrow> world \<Rightarrow> error option" where
  [check_defs]: "optTryCatch_check t mx i w =
     (case mx of
        None \<Rightarrow> None
      | Some x \<Rightarrow> first_err [fail_if (tc_iso (tryCatches w x) \<noteq> i) (Foreign KTryCatch), TryCatch_check t x w])"

definition optTryCatch_handle :: "ref option \<Rightarrow> world \<Rightarrow> uintptr" where
  "optTryCatch_handle mx w = (case mx of None \<Rightarrow> 0 | Some x \<Rightarrow> tc_handle (tryCatches w x))"

definition Compile :: "engine \<Rightarrow> tid \<Rightarrow> ref \<Rightarrow> ref \<Rightarrow> string \<Rightarrow> ref option \<Rightarrow> world \<Rightarrow> ref result" where
  [op_defs]: "Compile E t c s source mx w =
     guarded
       [Context_check t c w,
        fail_if (s_iso (scopes w s) \<noteq> c_iso (contexts w c)) (Foreign KScope),
        optTryCatch_check t mx (c_iso (contexts w c)) w,
        fail_if (s_closed (scopes w s)) (UsedAfterClose KScope)]
       (\<lambda>w. andThen (callErr E t ''Compile'' ''gov8_script_compile''
               [W (handleAssumingCheck (c_iso (contexts w c)) w), W (c_handle (contexts w c)),
                W (s_handle (scopes w s)), W (optTryCatch_handle mx w), Buf source, Out] w)
             (\<lambda>r w. let x = nextRef w
                    in (Inr x, w\<lparr>scripts := (scripts w)(x := \<lparr>sc_iso = c_iso (contexts w c), sc_ctx = c,
                                   sc_handle = out r 0, sc_state = 0\<rparr>), nextRef := Suc x\<rparr>))) w"

definition Script_check :: "tid \<Rightarrow> ref \<Rightarrow> world \<Rightarrow> error option" where
  [check_defs]: "Script_check t x w =
     first_err
       [Isolate_check t (sc_iso (scripts w x)) w,
        fail_if (sc_state (scripts w x) \<noteq> 0) (UsedAfterClose KScript),
        Context_checkAssumingIsolate (sc_ctx (scripts w x)) w]"

definition Script_ID :: "engine \<Rightarrow> tid \<Rightarrow> ref \<Rightarrow> world \<Rightarrow> 32 word result" where
  [op_defs]: "Script_ID E t x w = guarded [Script_check t x w]
     (\<lambda>w. andThen (callErr E t ''Script.ID'' ''gov8_script_id'' [W (sc_handle (scripts w x)), Out] w)
            (\<lambda>r w. (Inr (ucast (out r 0)), w))) w"

definition upd_script :: "ref \<Rightarrow> (Script \<Rightarrow> Script) \<Rightarrow> world \<Rightarrow> world" where
  [op_defs]: "upd_script x f w = w\<lparr>scripts := (scripts w)(x := f (scripts w x))\<rparr>"

definition Script_Run :: "engine \<Rightarrow> tid \<Rightarrow> (world \<Rightarrow> world) \<Rightarrow> ref \<Rightarrow> ref \<Rightarrow> ref option \<Rightarrow> world \<Rightarrow> Value result" where
  [op_defs]: "Script_Run E t nested x s mx w =
     guarded
       [Script_check t x w,
        fail_if (s_iso (scopes w s) \<noteq> sc_iso (scripts w x)) (Foreign KScope),
        optTryCatch_check t mx (sc_iso (scripts w x)) w,
        fail_if (s_closed (scopes w s)) (UsedAfterClose KScope)]
       (\<lambda>w. let (r, w1) = shim E t ''gov8_script_run''
                  [W (handleAssumingCheck (sc_iso (scripts w x)) w), W (c_handle (contexts w (sc_ctx (scripts w x)))),
                   W (s_handle (scopes w s)), W (sc_handle (scripts w x)), W (optTryCatch_handle mx w), Out] w;
                w2 = nested w1;
                w3 = (if outs r = [] then w2 else upd_script x (\<lambda>q. q\<lparr>sc_state := out r 0\<rparr>) w2);
                res = sc_state (scripts w3 x);
                w4 = upd_script x (\<lambda>q. q\<lparr>sc_state := 0\<rparr>) w3
            in if sneg (r1 r) then (Inl (ShimError ''Run'' (r1 r)), w4)
               else (Inr \<lparr>v_iso = sc_iso (scripts w4 x), v_sc = s, v_h = res\<rparr>, w4)) w"

definition Script_Close :: "engine \<Rightarrow> tid \<Rightarrow> ref \<Rightarrow> world \<Rightarrow> unit result" where
  [op_defs]: "Script_Close E t x w =
     guarded
       [Isolate_check t (sc_iso (scripts w x)) w,
        fail_if (sc_state (scripts w x) \<noteq> 0) (AlreadyClosed KScript),
        requireInitialized w]
       (\<lambda>w. let (r, w1) = shim E t ''gov8_script_dispose'' [W (sc_handle (scripts w x))] w;
                w2 = upd_script x (\<lambda>q. q\<lparr>sc_state := 1\<rparr>) w1
            in if sneg (r1 r) then (Inl (ShimError ''Script.Close'' (r1 r)), w2) else (Inr (), w2)) w"

section \<open>The operations as steps\<close>

text \<open>Run is not among them: its nested calls make it a recursive step, which the root theory
  builds.\<close>

datatype script_op =
    OpNewTryCatch ref | OpTryCatchClose ref | OpHasCaught ref | OpCanContinue ref | OpIsVerbose ref
  | OpSetVerbose ref bool | OpSetCaptureMessage ref bool | OpReset ref | OpMessageText ref ref ref
  | OpExceptionText ref ref ref | OpExceptionIsString ref | OpStartPosition ref ref
  | OpStartColumn ref ref | OpLineNumber ref ref ref | OpCompile ref ref string "ref option"
  | OpScriptID ref | OpScriptClose ref

fun script_exec :: "engine \<Rightarrow> tid \<Rightarrow> script_op \<Rightarrow> world \<Rightarrow> world" where
  "script_exec E t (OpNewTryCatch i) w = snd (NewTryCatch E t i w)"
| "script_exec E t (OpTryCatchClose x) w = snd (TryCatch_Close E t x w)"
| "script_exec E t (OpHasCaught x) w = snd (HasCaught E t x w)"
| "script_exec E t (OpCanContinue x) w = snd (CanContinue E t x w)"
| "script_exec E t (OpIsVerbose x) w = snd (IsVerbose E t x w)"
| "script_exec E t (OpSetVerbose x b) w = snd (SetVerbose E t x b w)"
| "script_exec E t (OpSetCaptureMessage x b) w = snd (SetCaptureMessage E t x b w)"
| "script_exec E t (OpReset x) w = snd (Reset E t x w)"
| "script_exec E t (OpMessageText x s c) w = snd (MessageText E t x s c w)"
| "script_exec E t (OpExceptionText x s c) w = snd (ExceptionText E t x s c w)"
| "script_exec E t (OpExceptionIsString x) w = snd (ExceptionIsString E t x w)"
| "script_exec E t (OpStartPosition x s) w = snd (StartPosition E t x s w)"
| "script_exec E t (OpStartColumn x s) w = snd (StartColumn E t x s w)"
| "script_exec E t (OpLineNumber x s c) w = snd (LineNumber E t x s c w)"
| "script_exec E t (OpCompile c s src mx) w = snd (Compile E t c s src mx w)"
| "script_exec E t (OpScriptID x) w = snd (Script_ID E t x w)"
| "script_exec E t (OpScriptClose x) w = snd (Script_Close E t x w)"

locale script_blind = alloc_stable +
  assumes upd_tryCatches: "P w \<Longrightarrow> P (w\<lparr>tryCatches := X\<rparr>)"
    and upd_scripts: "P w \<Longrightarrow> P (w\<lparr>scripts := S\<rparr>)"
begin

lemmas blind_rules = upd_nextRef upd_tryCatches upd_scripts

lemma P_script_exec: "P w \<Longrightarrow> P (script_exec E t a w)"
  by (cases a) (auto simp: op_defs call_eqs Let_def intro!: P_rules blind_rules)

lemma P_Script_Run:
  assumes nested: "\<And>w. P w \<Longrightarrow> P (nested w)" and w: "P w"
  shows "P (snd (Script_Run E t nested x s mx w))"
  using w by (auto simp: Script_Run_def upd_script_def shim_eq Let_def intro!: P_rules blind_rules nested)

end

interpretation script_live: script_blind live_inv
  by unfold_locales (simp_all add: live_inv_def)

interpretation script_scp: script_blind scopes_inv
  by unfold_locales (simp_all add: scopes_inv_def)

interpretation script_que: script_blind queues_inv
  by unfold_locales (simp_all add: queues_inv_def)

end
