(* ===== verification/Handles.thy ===== *)
theory Handles
  imports Scripts
begin

text \<open>
  Persistent handles of handle.go: strong globals, weak handles, the integer registry through which
  weak finalizers are dispatched, and the per-isolate count of live weak handles that decides
  whether an isolate may be shared. A finalizer is named by a number; the log \<open>finalized\<close> records the
  registry numbers whose finalizer was invoked.
\<close>

section \<open>Globals\<close>

definition NewGlobal :: "engine \<Rightarrow> tid \<Rightarrow> ref \<Rightarrow> Value \<Rightarrow> world \<Rightarrow> ref result" where
  [op_defs]: "NewGlobal E t s v w =
     guarded
       [Scope_check t s w, Value_check t v w,
        fail_if (v_iso v \<noteq> s_iso (scopes w s)) (Foreign KValue)]
       (\<lambda>w. andThen (handleChecked t (s_iso (scopes w s)) w) (\<lambda>ih w.
            andThen (callHandle E t ''Global.New'' ''gov8_global_new''
                       [W ih, W (s_handle (scopes w s)), W (v_h v)] w) (\<lambda>cell w.
              let g = nextRef w
              in (Inr g, w\<lparr>globals := (globals w)(g := \<lparr>g_iso = s_iso (scopes w s), g_cell = cell,
                             g_closed = False\<rparr>), nextRef := Suc g\<rparr>)))) w"

definition Global_check :: "tid \<Rightarrow> ref \<Rightarrow> world \<Rightarrow> error option" where
  [check_defs]: "Global_check t g w =
     first_err [fail_if (g_closed (globals w g)) (UsedAfterClose KGlobal),
                Isolate_check t (g_iso (globals w g)) w]"

definition Global_Clone :: "engine \<Rightarrow> tid \<Rightarrow> ref \<Rightarrow> world \<Rightarrow> ref result" where
  [op_defs]: "Global_Clone E t g w =
     guarded [Global_check t g w]
       (\<lambda>w. andThen (handleChecked t (g_iso (globals w g)) w) (\<lambda>ih w.
            andThen (callHandle E t ''Global.Clone'' ''gov8_global_clone'' [W ih, W (g_cell (globals w g))] w) (\<lambda>cell w.
              let g' = nextRef w
              in (Inr g', w\<lparr>globals := (globals w)(g' := \<lparr>g_iso = g_iso (globals w g), g_cell = cell,
                              g_closed = False\<rparr>), nextRef := Suc g'\<rparr>)))) w"

definition Global_Equal :: "engine \<Rightarrow> tid \<Rightarrow> ref \<Rightarrow> ref option \<Rightarrow> world \<Rightarrow> bool result" where
  [op_defs]: "Global_Equal E t g mo w =
     (case mo of
        None \<Rightarrow> (Inl (NilArgument KGlobal), w)
      | Some g' \<Rightarrow>
          if g_iso (globals w g) \<noteq> g_iso (globals w g') then (Inr False, w)
          else guarded [Global_check t g w, Global_check t g' w]
            (\<lambda>w. boolCall E t ''Global.Equal'' ''gov8_data_eq''
                   [W (g_cell (globals w g)), W (g_cell (globals w g'))] w) w)"

definition Global_ToLocal :: "engine \<Rightarrow> tid \<Rightarrow> ref \<Rightarrow> ref \<Rightarrow> world \<Rightarrow> Value result" where
  [op_defs]: "Global_ToLocal E t g s w =
     guarded
       [Global_check t g w,
        fail_if (s_iso (scopes w s) \<noteq> g_iso (globals w g)) (Foreign KScope),
        Scope_check t s w]
       (\<lambda>w. localCall E t ''Global.ToLocal'' ''gov8_global_to_local''
              [W (i_handle (isolates w (g_iso (globals w g)))), W (s_handle (scopes w s)),
               W (g_cell (globals w g)), Out] (g_iso (globals w g)) s w) w"

definition setGlobal :: "ref \<Rightarrow> (Global \<Rightarrow> Global) \<Rightarrow> world \<Rightarrow> world" where
  [op_defs]: "setGlobal g f w = w\<lparr>globals := (globals w)(g := f (globals w g))\<rparr>"

definition Global_Close :: "engine \<Rightarrow> tid \<Rightarrow> ref \<Rightarrow> world \<Rightarrow> unit result" where
  [op_defs]: "Global_Close E t g w =
     guarded [fail_if (g_closed (globals w g)) (AlreadyClosed KGlobal)]
       (\<lambda>w. if isolateClosed (g_iso (globals w g)) w
            then (Inr (), setGlobal g (\<lambda>x. x\<lparr>g_closed := True\<rparr>) w)
            else guarded [Isolate_check t (g_iso (globals w g)) w, requireInitialized w]
              (\<lambda>w. case unitCall E t ''Global.Close'' ''gov8_global_reset''
                          [W (i_handle (isolates w (g_iso (globals w g)))), W (g_cell (globals w g))] w of
                     (res, w1) \<Rightarrow> (res, setGlobal g (\<lambda>x. x\<lparr>g_closed := True\<rparr>) w1)) w) w"

definition IntoRaw :: "tid \<Rightarrow> ref \<Rightarrow> world \<Rightarrow> uintptr result" where
  [op_defs]: "IntoRaw t g w =
     guarded [Global_check t g w]
       (\<lambda>w. (Inr (g_cell (globals w g)), setGlobal g (\<lambda>x. x\<lparr>g_cell := 0, g_closed := True\<rparr>) w)) w"

definition GlobalFromRaw :: "tid \<Rightarrow> ref \<Rightarrow> uintptr \<Rightarrow> world \<Rightarrow> ref result" where
  [op_defs]: "GlobalFromRaw t i raw w =
     guarded
       [fail_if (raw = 0) (Misuse ''zero raw global handle''),
        Isolate_check t i w, requireInitialized w]
       (\<lambda>w. let g = nextRef w
            in (Inr g, w\<lparr>globals := (globals w)(g := \<lparr>g_iso = i, g_cell = raw, g_closed = False\<rparr>),
                         nextRef := Suc g\<rparr>)) w"

section \<open>Counting live weak handles\<close>

definition registerWeakLiveness :: "ref \<Rightarrow> world \<Rightarrow> world" where
  [op_defs]: "registerWeakLiveness x w =
     upd_weak x (\<lambda>q. q\<lparr>w_tracked := True\<rparr>)
       (w\<lparr>weakLiveness := (weakLiveness w)(w_iso (weaks w x) := Suc (weakLiveness w (w_iso (weaks w x))))\<rparr>)"

definition unregisterWeakLiveness :: "ref \<Rightarrow> world \<Rightarrow> world" where
  [op_defs]: "unregisterWeakLiveness x w =
     (if \<not> w_tracked (weaks w x) then w
      else
        let i = w_iso (weaks w x); count = weakLiveness w i
        in upd_weak x (\<lambda>q. q\<lparr>w_tracked := False\<rparr>)
             (w\<lparr>weakLiveness := (weakLiveness w)(i := (if count \<le> 1 then 0 else count - 1))\<rparr>))"

definition liveWeakCount :: "ref \<Rightarrow> world \<Rightarrow> nat" where
  [check_defs]: "liveWeakCount i w = weakLiveness w i"

section \<open>The finalizer registry\<close>

definition ensureWeakDispatcher :: "engine \<Rightarrow> tid \<Rightarrow> uintptr \<Rightarrow> world \<Rightarrow> unit result" where
  [op_defs]: "ensureWeakDispatcher E t entry w =
     (case weakDispatcherErr w of
        Some None \<Rightarrow> (Inr (), w)
      | Some (Some e) \<Rightarrow> (Inl e, w)
      | None \<Rightarrow>
          (case callErr E t ''SetWeakDispatcher'' ''gov8_weak_set_entry'' [W entry] w of
             (Inl e, w1) \<Rightarrow> (Inl e, w1\<lparr>weakDispatcherErr := Some (Some e)\<rparr>)
           | (Inr _, w1) \<Rightarrow> (Inr (), w1\<lparr>weakDispatcherErr := Some None\<rparr>)))"

definition weakFinalizerDispatch :: "(finalizer \<Rightarrow> world \<Rightarrow> world) \<Rightarrow> nat \<Rightarrow> world \<Rightarrow> world" where
  [op_defs]: "weakFinalizerDispatch cb n w =
     (case weakEntries w n of
        None \<Rightarrow> w
      | Some e \<Rightarrow>
          cb (we_fin e) (w\<lparr>weakEntries := (weakEntries w)(n := None), finalized := finalized w @ [n]\<rparr>))"

definition removeWeakEntry :: "nat \<Rightarrow> world \<Rightarrow> world" where
  [op_defs]: "removeWeakEntry n w =
     (if n = 0 then w else w\<lparr>weakEntries := (weakEntries w)(n := None)\<rparr>)"

section \<open>Weak handles\<close>

definition isolateIsShared :: "ref \<Rightarrow> world \<Rightarrow> bool" where
  [check_defs]: "isolateIsShared i w \<longleftrightarrow> sharedRegistry w i \<noteq> None"

text \<open>Allocation of a finalizer number; 0 stands for no finalizer.\<close>

definition nextWeakId :: "finalizer option \<Rightarrow> world \<Rightarrow> nat \<times> world" where
  [op_defs]: "nextWeakId mf w =
     (case mf of None \<Rightarrow> (0, w) | Some _ \<Rightarrow> (Suc (weakNext w), w\<lparr>weakNext := Suc (weakNext w)\<rparr>))"

definition registerFinalizer :: "nat \<Rightarrow> ref \<Rightarrow> ref \<Rightarrow> uintptr \<Rightarrow> finalizer option \<Rightarrow> world \<Rightarrow> world" where
  [op_defs]: "registerFinalizer n i x wrap mf w =
     (case mf of
        None \<Rightarrow> w
      | Some f \<Rightarrow> w\<lparr>weakEntries := (weakEntries w)(n \<mapsto>
                     \<lparr>we_iso = i, we_weak = x, we_wrap = wrap, we_fin = f\<rparr>)\<rparr>)"

text \<open>The part of newWeak after its tests.\<close>

definition createWeak :: "engine \<Rightarrow> tid \<Rightarrow> ref \<Rightarrow> finalizer option \<Rightarrow> world \<Rightarrow> ref result" where
  [op_defs]: "createWeak E t g mf w =
     (let i = g_iso (globals w g); (n, w1) = nextWeakId mf w in
      (case callHandle E t ''Weak.New'' ''gov8_weak_new''
              [W (i_handle (isolates w1 i)), W (g_cell (globals w1 g)), W (of_nat n)] w1 of
         (Inl e, w2) \<Rightarrow> (Inl e, removeWeakEntry n w2)
       | (Inr wrap, w2) \<Rightarrow>
           (let x = nextRef w2;
                w3 = w2\<lparr>weaks := (weaks w2)(x := \<lparr>w_iso = i, w_wrap = wrap, w_empty = False, w_id = n,
                           w_tracked = False, w_closed = False\<rparr>), nextRef := Suc x\<rparr>;
                w4 = registerWeakLiveness x w3
            in (Inr x, registerFinalizer n i x wrap mf w4))))"

definition newWeak :: "engine \<Rightarrow> tid \<Rightarrow> uintptr \<Rightarrow> ref \<Rightarrow> finalizer option \<Rightarrow> world \<Rightarrow> ref result" where
  [op_defs]: "newWeak E t entry g mf w =
     guarded
       [Global_check t g w,
        fail_if (isolateIsShared (g_iso (globals w g)) w)
          (Misuse ''weak handles are not supported on shared isolates'')]
       (\<lambda>w. andThen (ensureWeakDispatcher E t entry w) (\<lambda>_ w. createWeak E t g mf w)) w"

definition NewWeak :: "engine \<Rightarrow> tid \<Rightarrow> uintptr \<Rightarrow> ref \<Rightarrow> world \<Rightarrow> ref result" where
  [op_defs]: "NewWeak E t entry g w = newWeak E t entry g None w"

definition NewWeakWithFinalizer :: "engine \<Rightarrow> tid \<Rightarrow> uintptr \<Rightarrow> ref \<Rightarrow> nat option \<Rightarrow> world \<Rightarrow> ref result" where
  [op_defs]: "NewWeakWithFinalizer E t entry g cb w =
     (case cb of None \<Rightarrow> (Inl (Misuse ''weak finalizer required''), w)
      | Some f \<Rightarrow> newWeak E t entry g (Some (Regular f)) w)"

definition NewWeakWithGuaranteedFinalizer :: "engine \<Rightarrow> tid \<Rightarrow> uintptr \<Rightarrow> ref \<Rightarrow> nat option \<Rightarrow> world \<Rightarrow> ref result" where
  [op_defs]: "NewWeakWithGuaranteedFinalizer E t entry g cb w =
     (case cb of None \<Rightarrow> (Inl (Misuse ''weak finalizer required''), w)
      | Some f \<Rightarrow> newWeak E t entry g (Some (Guaranteed f)) w)"

subsection \<open>Draining guaranteed finalizers\<close>

definition pendingGuaranteed :: "ref \<Rightarrow> world \<Rightarrow> nat \<Rightarrow> bool" where
  "pendingGuaranteed i w n =
     (case weakEntries w n of
        None \<Rightarrow> False
      | Some e \<Rightarrow> we_iso e = i \<and> (case we_fin e of Guaranteed _ \<Rightarrow> True | Regular _ \<Rightarrow> False))"

text \<open>What one round of the loop does after the shim call: forget the entry, consume the weak
  handle, invoke the callback. The callback is user code; \<open>cb\<close> is its effect.\<close>

definition consumeDrained :: "nat \<Rightarrow> ref \<Rightarrow> world \<Rightarrow> world" where
  [op_defs]: "consumeDrained n x w =
     upd_weak x (\<lambda>q. q\<lparr>w_closed := True, w_wrap := 0, w_id := 0\<rparr>)
       (unregisterWeakLiveness x (removeWeakEntry n w))"

definition runDrained :: "(finalizer \<Rightarrow> world \<Rightarrow> world) \<Rightarrow> nat \<Rightarrow> weakEntry \<Rightarrow> world \<Rightarrow> world" where
  [op_defs]: "runDrained cb n e w =
     (let w1 = consumeDrained n (we_weak e) w in cb (we_fin e) (w1\<lparr>finalized := finalized w1 @ [n]\<rparr>))"

primrec drainLoop :: "engine \<Rightarrow> tid \<Rightarrow> (finalizer \<Rightarrow> world \<Rightarrow> world) \<Rightarrow> ref \<Rightarrow> (nat \<times> weakEntry) list \<Rightarrow> world \<Rightarrow> unit result" where
  "drainLoop E t cb i [] w = (Inr (), w)"
| "drainLoop E t cb i (p # ps) w =
     (case callErr E t ''DrainGuaranteedWeakFinalizers'' ''gov8_weak_drain_guaranteed''
             [W (i_handle (isolates w i)), W (we_wrap (snd p))] w of
        (Inl e, w1) \<Rightarrow> (Inl e, w1)
      | (Inr _, w1) \<Rightarrow> drainLoop E t cb i ps (runDrained cb (fst p) (snd p) w1))"

text \<open>Go iterates over the registry in an unspecified order: \<open>order\<close> lists the registry's numbers
  in the order the runtime visits them.\<close>

definition collectPending :: "ref \<Rightarrow> nat list \<Rightarrow> world \<Rightarrow> (nat \<times> weakEntry) list" where
  "collectPending i order w =
     map (\<lambda>n. (n, the (weakEntries w n))) (filter (pendingGuaranteed i w) order)"

definition DrainGuaranteedWeakFinalizers :: "engine \<Rightarrow> tid \<Rightarrow> (finalizer \<Rightarrow> world \<Rightarrow> world) \<Rightarrow> ref \<Rightarrow> nat list \<Rightarrow> world \<Rightarrow> unit result" where
  [op_defs]: "DrainGuaranteedWeakFinalizers E t cb i order w =
     guarded [Isolate_check t i w, requireInitialized w]
       (\<lambda>w. drainLoop E t cb i (collectPending i order w) w) w"

subsection \<open>Operations\<close>

definition EmptyWeak :: "tid \<Rightarrow> ref \<Rightarrow> world \<Rightarrow> ref result" where
  [op_defs]: "EmptyWeak t i w =
     guarded [Isolate_check t i w]
       (\<lambda>w. let x = nextRef w
            in (Inr x, w\<lparr>weaks := (weaks w)(x := \<lparr>w_iso = i, w_wrap = 0, w_empty = True, w_id = 0,
                           w_tracked = False, w_closed = False\<rparr>), nextRef := Suc x\<rparr>)) w"

definition Weak_check :: "tid \<Rightarrow> ref \<Rightarrow> world \<Rightarrow> error option" where
  [check_defs]: "Weak_check t x w =
     first_err [fail_if (w_closed (weaks w x)) (UsedAfterClose KWeak),
                Isolate_check t (w_iso (weaks w x)) w]"

definition collected :: "engine \<Rightarrow> tid \<Rightarrow> ref \<Rightarrow> world \<Rightarrow> bool result" where
  [op_defs]: "collected E t x w =
     (if w_empty (weaks w x) then (Inr True, w)
      else boolCall E t ''Weak.IsEmpty'' ''gov8_weak_is_empty''
             [W (i_handle (isolates w (w_iso (weaks w x)))), W (w_wrap (weaks w x))] w)"

definition Weak_IsEmpty :: "engine \<Rightarrow> tid \<Rightarrow> ref \<Rightarrow> world \<Rightarrow> bool result" where
  [op_defs]: "Weak_IsEmpty E t x w =
     guarded [Weak_check t x w]
       (\<lambda>w. if isolateClosed (w_iso (weaks w x)) w then (Inr True, w) else collected E t x w) w"

definition Weak_ToLocal :: "engine \<Rightarrow> tid \<Rightarrow> ref \<Rightarrow> ref \<Rightarrow> world \<Rightarrow> Value option result" where
  [op_defs]: "Weak_ToLocal E t x s w =
     guarded
       [Weak_check t x w,
        fail_if (s_iso (scopes w s) \<noteq> w_iso (weaks w x)) (Foreign KScope),
        Scope_check t s w]
       (\<lambda>w. if w_empty (weaks w x) \<or> isolateClosed (w_iso (weaks w x)) w then (Inr None, w)
            else andThen (callErr E t ''Weak.ToLocal'' ''gov8_weak_to_local''
                    [W (i_handle (isolates w (w_iso (weaks w x)))), W (s_handle (scopes w s)),
                     W (w_wrap (weaks w x)), Out] w)
                  (\<lambda>r w. if r1 r = 1 then (Inr None, w)
                         else (Inr (Some \<lparr>v_iso = w_iso (weaks w x), v_sc = s, v_h = out r 0\<rparr>), w))) w"

definition Weak_ToGlobal :: "engine \<Rightarrow> tid \<Rightarrow> ref \<Rightarrow> world \<Rightarrow> ref option result" where
  [op_defs]: "Weak_ToGlobal E t x w =
     guarded [Weak_check t x w]
       (\<lambda>w. if w_empty (weaks w x) \<or> isolateClosed (w_iso (weaks w x)) w then (Inr None, w)
            else let (r, w1) = shim E t ''gov8_weak_to_global''
                       [W (i_handle (isolates w (w_iso (weaks w x)))), W (w_wrap (weaks w x))] w
                 in if r1 r = 0 then (Inr None, w1)
                    else let g = nextRef w1
                         in (Inr (Some g), w1\<lparr>globals := (globals w1)(g := \<lparr>g_iso = w_iso (weaks w1 x),
                                    g_cell = r1 r, g_closed = False\<rparr>), nextRef := Suc g\<rparr>)) w"

definition newWeakStruct :: "ref \<Rightarrow> uintptr \<Rightarrow> bool \<Rightarrow> Weak" where
  "newWeakStruct i wrap emp = \<lparr>w_iso = i, w_wrap = wrap, w_empty = emp, w_id = 0, w_tracked = False, w_closed = False\<rparr>"

definition Weak_Clone :: "engine \<Rightarrow> tid \<Rightarrow> ref \<Rightarrow> world \<Rightarrow> ref result" where
  [op_defs]: "Weak_Clone E t x w =
     guarded [Weak_check t x w]
       (\<lambda>w. let i = w_iso (weaks w x);
                alloc = (\<lambda>q w. w\<lparr>weaks := (weaks w)(nextRef w := q), nextRef := Suc (nextRef w)\<rparr>) in
            if w_empty (weaks w x) then (Inr (nextRef w), alloc (newWeakStruct i 0 True) w)
            else if isolateClosed i w then (Inl (UsedAfterClose KWeak), w)
            else andThen (callErr E t ''Weak.Clone'' ''gov8_weak_clone''
                    [W (i_handle (isolates w i)), W (w_wrap (weaks w x))] w)
                  (\<lambda>r w. if r1 r = 0 then (Inr (nextRef w), alloc (newWeakStruct i 0 True) w)
                         else (Inr (nextRef w),
                               registerWeakLiveness (nextRef w) (alloc (newWeakStruct i (r1 r) False) w)))) w"

definition cellOf :: "engine \<Rightarrow> tid \<Rightarrow> ref \<Rightarrow> uintptr \<Rightarrow> world \<Rightarrow> uintptr \<times> world" where
  [op_defs]: "cellOf E t i wrap w =
     (let (r, w1) = shim E t ''gov8_weak_cell'' [W (i_handle (isolates w i)), W wrap] w in (r1 r, w1))"

definition EqualWeak :: "engine \<Rightarrow> tid \<Rightarrow> ref \<Rightarrow> ref option \<Rightarrow> world \<Rightarrow> bool result" where
  [op_defs]: "EqualWeak E t x mo w =
     (case mo of
        None \<Rightarrow> (Inl (NilArgument KWeak), w)
      | Some y \<Rightarrow>
          let i = w_iso (weaks w x) in
          if i \<noteq> w_iso (weaks w y) then (Inr False, w)
          else guarded [Weak_check t x w, Weak_check t y w]
            (\<lambda>w. if isolateClosed i w then (Inr False, w)
                 else andThen (collected E t x w) (\<lambda>a w. andThen (collected E t y w) (\<lambda>b w.
                   if a \<noteq> b then (Inr False, w)
                   else if a then (Inr True, w)
                   else let (ca, w1) = cellOf E t i (w_wrap (weaks w x)) w;
                            (cb, w2) = cellOf E t i (w_wrap (weaks w1 y)) w1
                        in if ca = 0 \<or> cb = 0 then (Inr False, w2)
                           else boolCall E t ''Weak.EqualWeak'' ''gov8_data_eq'' [W ca, W cb] w2))) w)"

definition EqualGlobal :: "engine \<Rightarrow> tid \<Rightarrow> ref \<Rightarrow> ref option \<Rightarrow> world \<Rightarrow> bool result" where
  [op_defs]: "EqualGlobal E t x mg w =
     (case mg of
        None \<Rightarrow> (Inl (NilArgument KWeak), w)
      | Some g \<Rightarrow>
          let i = w_iso (weaks w x) in
          if i \<noteq> g_iso (globals w g) then (Inr False, w)
          else guarded [Weak_check t x w, Global_check t g w]
            (\<lambda>w. if isolateClosed i w then (Inr False, w)
                 else andThen (collected E t x w) (\<lambda>a w.
                   if a then (Inr False, w)
                   else let (c, w1) = cellOf E t i (w_wrap (weaks w x)) w
                        in if c = 0 then (Inr False, w1)
                           else boolCall E t ''Weak.EqualGlobal'' ''gov8_data_eq'' [W c, W (g_cell (globals w1 g))] w1)) w)"

definition Weak_Close :: "engine \<Rightarrow> tid \<Rightarrow> ref \<Rightarrow> world \<Rightarrow> unit result" where
  [op_defs]: "Weak_Close E t x w =
     guarded [fail_if (w_closed (weaks w x)) (AlreadyClosed KWeak)]
       (\<lambda>w. if w_empty (weaks w x) \<or> isolateClosed (w_iso (weaks w x)) w
            then (Inr (), removeWeakEntry (w_id (weaks w x))
                    (upd_weak x (\<lambda>q. q\<lparr>w_closed := True\<rparr>) (unregisterWeakLiveness x w)))
            else guarded [Isolate_check t (w_iso (weaks w x)) w, requireInitialized w]
              (\<lambda>w. let (r, w1) = shim E t ''gov8_weak_close''
                         [W (i_handle (isolates w (w_iso (weaks w x)))), W (w_wrap (weaks w x))] w;
                       w2 = upd_weak x (\<lambda>q. q\<lparr>w_closed := True\<rparr>) w1
                   in if sint (r1 r) = 1
                      then (Inr (), unregisterWeakLiveness x (removeWeakEntry (w_id (weaks w2 x)) w2))
                      else if sneg (r1 r) then (Inl (ShimError ''Weak.Close'' (r1 r)), w2)
                      else (Inr (), unregisterWeakLiveness x w2)) w) w"

section \<open>The operations as steps\<close>

text \<open>The finalizers themselves are not steps of the binding: here they have no effect on the state.
  Dispatch is a step of the collector, and the runtime's iteration over the registry visits a
  number once.\<close>

definition noEffect :: "finalizer \<Rightarrow> world \<Rightarrow> world" where
  "noEffect f w = w"

datatype handle_op =
    OpNewGlobal ref Value | OpGlobalClone ref | OpGlobalEqual ref "ref option" | OpGlobalToLocal ref ref
  | OpGlobalClose ref | OpIntoRaw ref | OpGlobalFromRaw ref uintptr
  | OpNewWeak uintptr ref | OpNewWeakWithFinalizer uintptr ref "nat option"
  | OpNewWeakWithGuaranteedFinalizer uintptr ref "nat option" | OpWeakDispatch nat
  | OpDrain ref "nat list" | OpEmptyWeak ref | OpWeakIsEmpty ref | OpWeakToLocal ref ref
  | OpWeakToGlobal ref | OpWeakClone ref | OpEqualWeak ref "ref option" | OpEqualGlobal ref "ref option"
  | OpWeakClose ref

fun handle_exec :: "engine \<Rightarrow> tid \<Rightarrow> handle_op \<Rightarrow> world \<Rightarrow> world" where
  "handle_exec E t (OpNewGlobal s v) w = snd (NewGlobal E t s v w)"
| "handle_exec E t (OpGlobalClone g) w = snd (Global_Clone E t g w)"
| "handle_exec E t (OpGlobalEqual g mo) w = snd (Global_Equal E t g mo w)"
| "handle_exec E t (OpGlobalToLocal g s) w = snd (Global_ToLocal E t g s w)"
| "handle_exec E t (OpGlobalClose g) w = snd (Global_Close E t g w)"
| "handle_exec E t (OpIntoRaw g) w = snd (IntoRaw t g w)"
| "handle_exec E t (OpGlobalFromRaw i raw) w = snd (GlobalFromRaw t i raw w)"
| "handle_exec E t (OpNewWeak en g) w = snd (NewWeak E t en g w)"
| "handle_exec E t (OpNewWeakWithFinalizer en g cb) w = snd (NewWeakWithFinalizer E t en g cb w)"
| "handle_exec E t (OpNewWeakWithGuaranteedFinalizer en g cb) w = snd (NewWeakWithGuaranteedFinalizer E t en g cb w)"
| "handle_exec E t (OpWeakDispatch n) w = weakFinalizerDispatch noEffect n w"
| "handle_exec E t (OpDrain i order) w = snd (DrainGuaranteedWeakFinalizers E t noEffect i (remdups order) w)"
| "handle_exec E t (OpEmptyWeak i) w = snd (EmptyWeak t i w)"
| "handle_exec E t (OpWeakIsEmpty x) w = snd (Weak_IsEmpty E t x w)"
| "handle_exec E t (OpWeakToLocal x s) w = snd (Weak_ToLocal E t x s w)"
| "handle_exec E t (OpWeakToGlobal x) w = snd (Weak_ToGlobal E t x w)"
| "handle_exec E t (OpWeakClone x) w = snd (Weak_Clone E t x w)"
| "handle_exec E t (OpEqualWeak x mo) w = snd (EqualWeak E t x mo w)"
| "handle_exec E t (OpEqualGlobal x mg) w = snd (EqualGlobal E t x mg w)"
| "handle_exec E t (OpWeakClose x) w = snd (Weak_Close E t x w)"

locale handle_blind = alloc_stable +
  assumes upd_globals: "P w \<Longrightarrow> P (w\<lparr>globals := G\<rparr>)"
    and upd_weaks: "P w \<Longrightarrow> P (w\<lparr>weaks := X\<rparr>)"
    and upd_weakNext: "P w \<Longrightarrow> P (w\<lparr>weakNext := k\<rparr>)"
    and upd_weakEntries: "P w \<Longrightarrow> P (w\<lparr>weakEntries := m\<rparr>)"
    and upd_weakLiveness: "P w \<Longrightarrow> P (w\<lparr>weakLiveness := l\<rparr>)"
    and upd_weakDispatcherErr: "P w \<Longrightarrow> P (w\<lparr>weakDispatcherErr := d\<rparr>)"
    and upd_finalized: "P w \<Longrightarrow> P (w\<lparr>finalized := f\<rparr>)"
begin

lemmas blind_rules = upd_nextRef upd_globals upd_weaks upd_weakNext upd_weakEntries upd_weakLiveness
  upd_weakDispatcherErr upd_finalized

lemma P_registerWeakLiveness: "P w \<Longrightarrow> P (registerWeakLiveness x w)"
  by (simp add: registerWeakLiveness_def blind_rules)

lemma P_unregisterWeakLiveness: "P w \<Longrightarrow> P (unregisterWeakLiveness x w)"
  by (simp add: unregisterWeakLiveness_def Let_def blind_rules)

lemma P_removeWeakEntry: "P w \<Longrightarrow> P (removeWeakEntry n w)"
  by (simp add: removeWeakEntry_def blind_rules)

lemma P_registerFinalizer: "P w \<Longrightarrow> P (registerFinalizer n i x wrap mf w)"
  by (simp add: registerFinalizer_def blind_rules split: option.split)

lemma P_nextWeakId: "P w \<Longrightarrow> P (snd (nextWeakId mf w))"
  by (simp add: nextWeakId_def blind_rules split: option.split)

lemma P_ensureWeakDispatcher: "P w \<Longrightarrow> P (snd (ensureWeakDispatcher E t en w))"
  by (auto simp: ensureWeakDispatcher_def callErr_eq Let_def intro!: blind_rules P_called split: option.split)

lemmas weak_rules = P_registerWeakLiveness P_unregisterWeakLiveness P_removeWeakEntry P_registerFinalizer
  P_nextWeakId P_ensureWeakDispatcher

lemma P_runDrained: "P w \<Longrightarrow> P (runDrained noEffect n e w)"
  unfolding runDrained_def consumeDrained_def noEffect_def Let_def
  by (intro blind_rules weak_rules)

lemma P_drainLoop: "P w \<Longrightarrow> P (snd (drainLoop E t noEffect i ps w))"
  by (induction ps arbitrary: w) (auto simp: callErr_eq Let_def P_called P_runDrained)

lemma P_newWeak: "P w \<Longrightarrow> P (snd (newWeak E t en g mf w))"
  by (auto simp: newWeak_def createWeak_def callHandle_eq Let_def split_def intro!: P_rules blind_rules weak_rules)

lemma P_handle_exec: "P w \<Longrightarrow> P (handle_exec E t a w)"
  by (cases a)
    (auto simp: op_defs call_eqs Let_def noEffect_def
      intro!: P_rules blind_rules P_newWeak P_drainLoop P_registerWeakLiveness P_unregisterWeakLiveness
      split: option.split simp del: newWeak_def unregisterWeakLiveness_def registerWeakLiveness_def)

end

interpretation handle_live: handle_blind live_inv
  by unfold_locales (simp_all add: live_inv_def)

interpretation handle_scp: handle_blind scopes_inv
  by unfold_locales (simp_all add: scopes_inv_def)

interpretation handle_que: handle_blind queues_inv
  by unfold_locales (simp_all add: queues_inv_def)

section \<open>The count of live weak handles\<close>

definition tracked :: "(ref \<Rightarrow> Weak) \<Rightarrow> ref \<Rightarrow> ref set" where
  "tracked X i = {x. w_tracked (X x) \<and> w_iso (X x) = i}"

text \<open>The count kept for an isolate is the number of its tracked weak handles, and every weak handle
  that is open and not empty is tracked.\<close>

definition weaks_ok :: "nat \<Rightarrow> (ref \<Rightarrow> Weak) \<Rightarrow> (ref \<Rightarrow> nat) \<Rightarrow> bool" where
  "weaks_ok n X L \<longleftrightarrow>
     (\<forall>x. w_tracked (X x) \<or> \<not> w_closed (X x) \<longrightarrow> x < n)
     \<and> (\<forall>i. L i = card (tracked X i))
     \<and> (\<forall>x. \<not> w_closed (X x) \<and> \<not> w_empty (X x) \<longrightarrow> w_tracked (X x))"

text \<open>A registered finalizer belongs to the weak handle that carries its number, no number is
  registered after its finalizer ran, and none ran twice.\<close>

definition registry_ok :: "nat \<Rightarrow> (ref \<Rightarrow> Weak) \<Rightarrow> nat \<Rightarrow> (nat \<rightharpoonup> weakEntry) \<Rightarrow> nat list \<Rightarrow> bool" where
  "registry_ok n X N M F \<longleftrightarrow>
     (\<forall>k e. M k = Some e \<longrightarrow> 0 < k \<and> k \<le> N \<and> k \<notin> set F \<and> we_weak e < n
        \<and> w_iso (X (we_weak e)) = we_iso e \<and> w_id (X (we_weak e)) = k)
     \<and> distinct F \<and> (\<forall>k \<in> set F. k \<le> N)"

definition weaks_inv :: "world \<Rightarrow> bool" where
  "weaks_inv w \<longleftrightarrow> weaks_ok (nextRef w) (weaks w) (weakLiveness w)
     \<and> registry_ok (nextRef w) (weaks w) (weakNext w) (weakEntries w) (finalized w)"

lemma weaks_ok_mono: "weaks_ok n X L \<Longrightarrow> n \<le> n' \<Longrightarrow> weaks_ok n' X L"
  by (fastforce simp: weaks_ok_def)

lemma registry_ok_mono: "registry_ok n X N M F \<Longrightarrow> n \<le> n' \<Longrightarrow> N \<le> N' \<Longrightarrow> registry_ok n' X N' M F"
  by (fastforce simp: registry_ok_def)

lemma finite_tracked: "weaks_ok n X L \<Longrightarrow> finite (tracked X i)"
  by (rule finite_subset [of _ "{..<n}"]) (auto simp: weaks_ok_def tracked_def)

lemma tracked_upd:
  "\<not> w_tracked (X x) \<Longrightarrow> \<not> w_tracked y \<Longrightarrow> tracked (X(x := y)) = tracked X"
  "w_tracked (X x) \<Longrightarrow> w_tracked y \<Longrightarrow> w_iso y = w_iso (X x) \<Longrightarrow> tracked (X(x := y)) = tracked X"
  "\<not> w_tracked (X x) \<Longrightarrow> w_tracked y \<Longrightarrow>
     tracked (X(x := y)) = (tracked X)(w_iso y := insert x (tracked X (w_iso y)))"
  "w_tracked (X x) \<Longrightarrow> \<not> w_tracked y \<Longrightarrow>
     tracked (X(x := y)) = (tracked X)(w_iso (X x) := tracked X (w_iso (X x)) - {x})"
  by (auto simp: tracked_def fun_eq_iff)

text \<open>A handle changes without a change of its tracking, one is created, one is released.\<close>

lemma weaks_ok_keep:
  assumes "weaks_ok n X L" "w_tracked y = w_tracked (X x)" "w_iso y = w_iso (X x)" "w_closed y"
  shows "weaks_ok n (X(x := y)) L"
  using assms tracked_upd(1,2) [of X x y] by (auto simp: weaks_ok_def)

lemma weaks_ok_new_empty:
  assumes "weaks_ok n X L" "\<not> w_tracked y" "w_empty y"
  shows "weaks_ok (Suc n) (X(n := y)) L"
proof -
  have "\<not> w_tracked (X n)" using assms(1) by (auto simp: weaks_ok_def)
  with assms show ?thesis by (auto simp: weaks_ok_def tracked_upd less_Suc_eq)
qed

lemma weaks_ok_new:
  assumes "weaks_ok n X L" "w_tracked y" "w_iso y = i"
  shows "weaks_ok (Suc n) (X(n := y)) (L(i := Suc (L i)))"
proof -
  have n: "\<not> w_tracked (X n)" using assms(1) by (auto simp: weaks_ok_def)
  then have "n \<notin> tracked X i" by (simp add: tracked_def)
  with assms n finite_tracked [OF assms(1), of i] show ?thesis
    by (auto simp: weaks_ok_def tracked_upd less_Suc_eq)
qed

lemma weaks_ok_release:
  assumes "weaks_ok n X L" "w_tracked (X x)" "w_iso (X x) = i" "\<not> w_tracked y" "w_closed y"
  shows "weaks_ok n (X(x := y)) (L(i := (if L i \<le> 1 then 0 else L i - 1)))"
proof -
  have "x \<in> tracked X i" using assms by (simp add: tracked_def)
  then have "card (tracked X i - {x}) = (if L i \<le> 1 then 0 else L i - 1)"
    using assms(1) finite_tracked [OF assms(1), of i] by (auto simp: weaks_ok_def)
  with assms show ?thesis by (auto simp: weaks_ok_def tracked_upd)
qed

lemma registry_ok_weak:
  assumes "registry_ok n X N M F" "w_iso y = w_iso (X x)" "w_id y = w_id (X x)"
  shows "registry_ok n (X(x := y)) N M F"
  using assms by (auto simp: registry_ok_def)

lemma registry_ok_new_weak:
  assumes "registry_ok n X N M F"
  shows "registry_ok (Suc n) (X(n := y)) N M F"
  using assms by (fastforce simp: registry_ok_def)

lemma registry_ok_add:
  assumes "registry_ok n X N M F" "N < k" "k \<le> N'" "we_weak e < n"
    "w_iso (X (we_weak e)) = we_iso e" "w_id (X (we_weak e)) = k"
  shows "registry_ok n X N' (M(k \<mapsto> e)) F"
  using assms by (fastforce simp: registry_ok_def)

lemma registry_ok_new_entry:
  assumes "registry_ok n X N M F" "we_weak e = n" "w_iso y = we_iso e" "w_id y = Suc N"
  shows "registry_ok (Suc n) (X(n := y)) (Suc N) (M(Suc N \<mapsto> e)) F"
  using registry_ok_add [OF registry_ok_new_weak [OF assms(1), of y], of "Suc N" "Suc N" e] assms by simp

lemma registry_ok_remove: "registry_ok n X N M F \<Longrightarrow> registry_ok n X N (M(k := None)) F"
  by (auto simp: registry_ok_def)

lemma registry_ok_fire:
  "registry_ok n X N M F \<Longrightarrow> M k = Some e \<Longrightarrow> registry_ok n X N (M(k := None)) (F @ [k])"
  by (auto simp: registry_ok_def)

lemma registry_ok_consume:
  assumes "registry_ok n X N M F" "M k = Some e" "w_iso y = w_iso (X (we_weak e))"
  shows "registry_ok n (X(we_weak e := y)) N (M(k := None)) F"
proof -
  have "we_weak e' \<noteq> we_weak e" if "M k' = Some e'" "k' \<noteq> k" for k' e'
    using assms(1,2) that by (metis registry_ok_def)
  with assms show ?thesis by (fastforce simp: registry_ok_def)
qed

interpretation weak_alloc: alloc_stable weaks_inv
  by unfold_locales (auto simp: weaks_inv_def elim: weaks_ok_mono registry_ok_mono)

text \<open>What each registry operation leaves in the fields the invariant reads.\<close>

lemma removeWeakEntry_simps [simp]:
  "weaks (removeWeakEntry k w) = weaks w" "weakLiveness (removeWeakEntry k w) = weakLiveness w"
  "nextRef (removeWeakEntry k w) = nextRef w" "weakNext (removeWeakEntry k w) = weakNext w"
  "finalized (removeWeakEntry k w) = finalized w" "weakEntries (removeWeakEntry k w) =
     (if k = 0 then weakEntries w else (weakEntries w)(k := None))"
  by (simp_all add: removeWeakEntry_def)

definition dropCount :: "(ref \<Rightarrow> nat) \<Rightarrow> ref \<Rightarrow> (ref \<Rightarrow> nat)" where
  "dropCount L i = L(i := (if L i \<le> 1 then 0 else L i - 1))"

lemma unregister_simps [simp]:
  "weaks (unregisterWeakLiveness x w) = (weaks w)(x := (weaks w x)\<lparr>w_tracked := False\<rparr>)"
  "weakLiveness (unregisterWeakLiveness x w) =
     (if w_tracked (weaks w x) then dropCount (weakLiveness w) (w_iso (weaks w x)) else weakLiveness w)"
  "nextRef (unregisterWeakLiveness x w) = nextRef w" "weakNext (unregisterWeakLiveness x w) = weakNext w"
  "finalized (unregisterWeakLiveness x w) = finalized w"
  "weakEntries (unregisterWeakLiveness x w) = weakEntries w"
  by (auto simp: unregisterWeakLiveness_def Let_def dropCount_def)

lemmas weaks_ok_drop = weaks_ok_release [folded dropCount_def]

lemma registry_ok_consume_fire:
  assumes "registry_ok n X N M F" "M k = Some e" "w_iso y = w_iso (X (we_weak e))"
  shows "registry_ok n (X(we_weak e := y)) N (M(k := None)) (F @ [k])"
proof -
  have "k \<le> N" "k \<notin> set F" using assms(1,2) by (auto simp: registry_ok_def)
  with registry_ok_consume [OF assms] show ?thesis by (auto simp: registry_ok_def)
qed

lemma weaks_inv_Weak_Close: "weaks_inv w \<Longrightarrow> weaks_inv (snd (Weak_Close E t x w))"
  by (auto simp: Weak_Close_def shim_eq snd_guarded Let_def weaks_inv_def weaks_ok_drop weaks_ok_keep
      registry_ok_weak registry_ok_remove)

lemma weaks_inv_Weak_Clone: "weaks_inv w \<Longrightarrow> weaks_inv (snd (Weak_Clone E t x w))"
  by (auto simp: Weak_Clone_def callErr_eq outcome_simps Let_def weaks_inv_def newWeakStruct_def
      registerWeakLiveness_def intro!: weaks_ok_new_empty weaks_ok_new registry_ok_new_weak split: sum.split)

lemma weaks_inv_EmptyWeak: "weaks_inv w \<Longrightarrow> weaks_inv (snd (EmptyWeak t i w))"
  by (auto simp: EmptyWeak_def outcome_simps Let_def weaks_inv_def intro!: weaks_ok_new_empty registry_ok_new_weak)

lemma weaks_inv_dispatch: "weaks_inv w \<Longrightarrow> weaks_inv (weakFinalizerDispatch noEffect n w)"
  by (auto simp: weakFinalizerDispatch_def noEffect_def weaks_inv_def registry_ok_fire split: option.split)

lemma weaks_inv_ensure: "weaks_inv w \<Longrightarrow> weaks_inv (snd (ensureWeakDispatcher E t en w))"
  by (auto simp: ensureWeakDispatcher_def callErr_eq Let_def weaks_inv_def split: option.split)

lemma weaks_inv_createWeak:
  assumes w: "weaks_inv w"
  shows "weaks_inv (snd (createWeak E t g mf w))"
proof (cases mf)
  case None
  then show ?thesis using w
    by (auto simp: createWeak_def nextWeakId_def callHandle_eq Let_def registerFinalizer_def weaks_inv_def
        registerWeakLiveness_def intro!: weaks_ok_new registry_ok_new_weak)
next
  case (Some f)
  then show ?thesis using w
    by (auto simp: createWeak_def nextWeakId_def callHandle_eq Let_def registerFinalizer_def weaks_inv_def
        registerWeakLiveness_def intro!: weaks_ok_new registry_ok_new_entry registry_ok_remove
        elim: registry_ok_mono)
qed

lemma weaks_inv_newWeak: "weaks_inv w \<Longrightarrow> weaks_inv (snd (newWeak E t en g mf w))"
  unfolding newWeak_def
  by (intro weak_alloc.P_guarded weak_alloc.P_andThen weaks_inv_ensure weaks_inv_createWeak)

text \<open>Draining keeps it as long as the pending entries are still registered.\<close>

lemma weaks_inv_runDrained:
  assumes "weaks_inv w" "weakEntries w k = Some e"
  shows "weaks_inv (runDrained noEffect k e w)"
    "weakEntries (runDrained noEffect k e w) = (weakEntries w)(k := None)"
proof -
  have "k \<noteq> 0" using assms by (auto simp: weaks_inv_def registry_ok_def)
  with assms show "weaks_inv (runDrained noEffect k e w)"
    by (simp add: runDrained_def consumeDrained_def noEffect_def Let_def weaks_inv_def weaks_ok_drop
        weaks_ok_keep registry_ok_consume_fire)
  show "weakEntries (runDrained noEffect k e w) = (weakEntries w)(k := None)"
    using \<open>k \<noteq> 0\<close> by (simp add: runDrained_def consumeDrained_def noEffect_def Let_def)
qed

lemma weaks_inv_drainLoop:
  assumes "weaks_inv w" "distinct (map fst ps)" "\<forall>p \<in> set ps. weakEntries w (fst p) = Some (snd p)"
  shows "weaks_inv (snd (drainLoop E t noEffect i ps w))"
  using assms
proof (induction ps arbitrary: w)
  case (Cons p ps)
  let ?w = "called t ''gov8_weak_drain_guaranteed'' [W (i_handle (isolates w i)), W (we_wrap (snd p))] w"
  have "weaks_inv ?w" using Cons.prems by (simp add: weaks_inv_def)
  moreover have "weaks_inv (snd (drainLoop E t noEffect i ps (runDrained noEffect (fst p) (snd p) ?w)))"
    using Cons.prems \<open>weaks_inv ?w\<close> weaks_inv_runDrained [of ?w "fst p" "snd p"]
    by (intro Cons.IH) (auto, force)
  ultimately show ?case by (simp add: callErr_eq Let_def)
qed simp

lemma weaks_inv_Drain:
  assumes "weaks_inv w" "distinct order"
  shows "weaks_inv (snd (DrainGuaranteedWeakFinalizers E t noEffect i order w))"
  using assms
  by (auto simp: DrainGuaranteedWeakFinalizers_def snd_guarded collectPending_def pendingGuaranteed_def o_def
      intro!: weaks_inv_drainLoop split: option.splits)

lemma weaks_inv_globals: "weaks_inv (w\<lparr>globals := G\<rparr>) = weaks_inv w"
  by (simp add: weaks_inv_def)

lemma handle_weaks_inv: "weaks_inv w \<Longrightarrow> weaks_inv (handle_exec E t a w)"
proof (cases a)
  case (OpDrain i order)
  assume "weaks_inv w"
  then show ?thesis using OpDrain by (simp add: weaks_inv_Drain)
qed (auto simp: weaks_inv_Weak_Close weaks_inv_Weak_Clone weaks_inv_EmptyWeak weaks_inv_dispatch
    NewWeak_def NewWeakWithFinalizer_def NewWeakWithGuaranteedFinalizer_def weaks_inv_newWeak
    NewGlobal_def Global_Clone_def Global_Equal_def Global_ToLocal_def Global_Close_def IntoRaw_def
    GlobalFromRaw_def setGlobal_def Weak_IsEmpty_def Weak_ToLocal_def Weak_ToGlobal_def EqualWeak_def
    EqualGlobal_def collected_def cellOf_def boolCall_def unitCall_def localCall_def call_eqs Let_def
    weaks_inv_globals intro!: weak_alloc.P_rules weak_alloc.upd_nextRef split: option.split)

text \<open>The other components do not touch weak handles.\<close>

interpretation scope_weak: scope_blind weaks_inv
  by unfold_locales (simp_all add: weaks_inv_def)

interpretation context_weak: context_blind weaks_inv
  by unfold_locales (simp_all add: weaks_inv_def)

interpretation script_weak: script_blind weaks_inv
  by unfold_locales (simp_all add: weaks_inv_def)

lemma lifecycle_weaks_inv: "weaks_inv w \<Longrightarrow> weaks_inv (lifecycle_exec E t a w)"
  using lifecycle_heaps [of E t a w]
  by (auto simp: weaks_inv_def heaps_def elim: weaks_ok_mono registry_ok_mono)

end
