(* ===== verification/Locker.thy ===== *)
theory Locker
  imports Handles
begin

text \<open>
  Shared isolates: locker.go. TryIntoShared moves an isolate from the owned mode (bound to one
  thread) to the shared mode, in which a thread may use it only between Lock and Locker.Close, and
  UnlockWindow suspends a lock for the duration of a closure. Lock and UnlockWindow release the
  registry mutex while they wait for the engine's lock, so each is a sequence of atomic steps
  (\<open>Lock_begin\<close>, \<open>Lock_acquire\<close>, \<open>Lock_publish\<close>; \<open>UnlockWindow_begin\<close>, \<open>UnlockWindow_end\<close>,
  \<open>UnlockWindow_publish\<close>) between which other threads run. A SharedIsolate is the pointer of its
  isolate.
\<close>

section \<open>Conversion\<close>

definition tryCurrent :: "engine \<Rightarrow> tid \<Rightarrow> world \<Rightarrow> uintptr \<times> world" where
  [op_defs]: "tryCurrent E t w = (let (r, w1) = shim E t ''gov8_ca_try_current'' [] w in (r1 r, w1))"

definition TryIntoShared :: "engine \<Rightarrow> tid \<Rightarrow> ref \<Rightarrow> world \<Rightarrow> ref result" where
  [op_defs]: "TryIntoShared E t i w =
     guarded
       [requireInitialized w,
        fail_if (sharedRegistry w i \<noteq> None) (Misuse ''isolate is already shared''),
        fail_if (isolateClosed i w) (UsedAfterClose KIsolate),
        fail_if (liveWeakCount i w > 0) (IntoSharedError KindLiveWeakHandlesOrPendingFinalizers i),
        fail_if (i_customCppGCHeap (isolates w i)) (IntoSharedError KindEmbedderCppHeap i)]
       (\<lambda>w. let (cur, w1) = tryCurrent E t w in
          if cur \<noteq> i_handle (isolates w1 i) then (Inl (IntoSharedError KindAnotherIsolateEntered i), w1)
          else andThen (callErr E t ''TryIntoShared'' ''gov8_ca_shared_convert'' [W (i_handle (isolates w1 i))] w1)
            (\<lambda>_ w. (Inr i, upd_iso i (\<lambda>s. s\<lparr>i_tid := 0\<rparr>)
               (w\<lparr>sharedRegistry := (sharedRegistry w)(i \<mapsto>
                    \<lparr>st_locked = False, st_window = False, st_ownerTid = 0, st_windowOwnerTid = 0,
                     st_creatorTid = i_tid (isolates w i)\<rparr>)\<rparr>)))) w"

section \<open>Lock\<close>

text \<open>Phase 1: the tests under the registry mutex. The goroutine is pinned before the tests; the
  first two error returns do not release the pin.\<close>

definition Lock_begin :: "engine \<Rightarrow> tid \<Rightarrow> ref \<Rightarrow> world \<Rightarrow> unit result" where
  [op_defs]: "Lock_begin E t i w =
     guarded [requireInitialized w]
       (\<lambda>w. let w1 = LockOSThread t w in
          (case sharedRegistry w1 i of
             None \<Rightarrow> (Inl (Misuse ''isolate is not shared''), w1)
           | Some st \<Rightarrow>
               if isolateClosed i w1 then (Inl (UsedAfterClose KIsolate), w1)
               else if st_window st then
                 (if st_windowOwnerTid st = t
                  then (Inl (Misuse ''isolate is suspended in this thread's own unlock window''), UnlockOSThread t w1)
                  else (Inr (), w1))
               else if st_locked st then
                 (if st_ownerTid st = t
                  then (Inl (Misuse ''attempted to lock an isolate that is already locked by this thread''), UnlockOSThread t w1)
                  else (Inr (), w1))
               else
                 (let (cur, w2) = tryCurrent E t w1 in
                  if cur \<noteq> 0
                  then (Inl (Misuse ''attempted to lock a shared isolate while another isolate is entered''), UnlockOSThread t w2)
                  else (Inr (), w2)))) w"

text \<open>Phase 2: the blocking engine call.\<close>

definition Lock_acquire :: "engine \<Rightarrow> tid \<Rightarrow> ref \<Rightarrow> world \<Rightarrow> uintptr result" where
  [op_defs]: "Lock_acquire E t i w =
     (case callHandle E t ''SharedIsolate.Lock'' ''gov8_ca_shared_lock'' [W (i_handle (isolates w i))] w of
        (Inl e, w1) \<Rightarrow> (Inl e, UnlockOSThread t w1)
      | (Inr h, w1) \<Rightarrow> (Inr h, w1))"

text \<open>Phase 3: publish the holder. The shared state is the object found in phase 1; when its
  registry entry is gone the writes go to an unreachable object.\<close>

definition setShared :: "ref \<Rightarrow> (sharedState \<Rightarrow> sharedState) \<Rightarrow> world \<Rightarrow> world" where
  [op_defs]: "setShared i f w =
     (case sharedRegistry w i of
        None \<Rightarrow> w
      | Some st \<Rightarrow> w\<lparr>sharedRegistry := (sharedRegistry w)(i \<mapsto> f st)\<rparr>)"

definition Lock_publish :: "tid \<Rightarrow> ref \<Rightarrow> uintptr \<Rightarrow> world \<Rightarrow> ref \<times> world" where
  [op_defs]: "Lock_publish t i h w =
     (let w1 = setShared i (\<lambda>st. st\<lparr>st_locked := True, st_ownerTid := t\<rparr>) w;
          w2 = upd_iso i (\<lambda>s. s\<lparr>i_tid := t\<rparr>) w1;
          l = nextRef w2
      in (l, w2\<lparr>lockers := (lockers w2)(l := \<lparr>l_iso = i, l_handle = h, l_tid = t, l_closed = False\<rparr>),
                nextRef := Suc l\<rparr>))"

text \<open>The three phases of one call, with what other threads do before and after the engine call.\<close>

definition Lock :: "engine \<Rightarrow> tid \<Rightarrow> (world \<Rightarrow> world) \<Rightarrow> (world \<Rightarrow> world) \<Rightarrow> ref \<Rightarrow> world \<Rightarrow> ref result" where
  [op_defs]: "Lock E t before after i w =
     andThen (Lock_begin E t i w) (\<lambda>_ w.
     andThen (Lock_acquire E t i (before w)) (\<lambda>h w.
       let (l, w1) = Lock_publish t i h (after w) in (Inr l, w1)))"

section \<open>Unlock\<close>

definition setLocker :: "ref \<Rightarrow> (Locker \<Rightarrow> Locker) \<Rightarrow> world \<Rightarrow> world" where
  [op_defs]: "setLocker l f w = w\<lparr>lockers := (lockers w)(l := f (lockers w l))\<rparr>"

definition Locker_Close :: "engine \<Rightarrow> tid \<Rightarrow> ref \<Rightarrow> world \<Rightarrow> unit result" where
  [op_defs]: "Locker_Close E t l w =
     (let x = lockers w l; i = l_iso x;
          refuse = (\<lambda>e. (Inl e, setLocker l (\<lambda>q. q\<lparr>l_closed := True\<rparr>) w)) in
      if l_closed x then (Inl (AlreadyClosed KLocker), w)
      else (case sharedRegistry w i of
        None \<Rightarrow> refuse (Misuse ''locker is not the active lock holder'')
      | Some st \<Rightarrow>
          if st_window st \<and> st_windowOwnerTid st = l_tid x
          then refuse (Misuse ''cannot close a locker inside its own unlock window'')
          else if \<not> st_locked st \<or> st_ownerTid st \<noteq> l_tid x
          then refuse (Misuse ''locker is not the active lock holder'')
          else if t \<noteq> l_tid x then (Inl (CloseWrongThread KLocker (l_tid x) t), w)
          else (case callErr E t ''Locker.Close'' ''gov8_ca_shared_unlock''
                       [W (i_handle (isolates w i)), W (l_handle x)] w of
                  (Inl e, w1) \<Rightarrow> (Inl e, setLocker l (\<lambda>q. q\<lparr>l_closed := True\<rparr>) w1)
                | (Inr _, w1) \<Rightarrow>
                    (Inr (), UnlockOSThread t (upd_iso i (\<lambda>s. s\<lparr>i_tid := 0\<rparr>)
                       (setShared i (\<lambda>st. st\<lparr>st_locked := False, st_ownerTid := 0\<rparr>)
                          (setLocker l (\<lambda>q. q\<lparr>l_closed := True\<rparr>) w1)))))))"

section \<open>The unlock window\<close>

definition UnlockWindow_begin :: "engine \<Rightarrow> tid \<Rightarrow> ref \<Rightarrow> world \<Rightarrow> uintptr result" where
  [op_defs]: "UnlockWindow_begin E t l w =
     (let x = lockers w l; i = l_iso x in
      guarded
        [fail_if (l_closed x) (AlreadyClosed KLocker),
         fail_if (case sharedRegistry w i of
                    None \<Rightarrow> True
                  | Some st \<Rightarrow> \<not> st_locked st \<or> st_ownerTid st \<noteq> l_tid x \<or> st_window st)
           (Misuse ''locker is not the active lock holder''),
         fail_if (t \<noteq> l_tid x) (CloseWrongThread KLocker (l_tid x) t)]
        (\<lambda>w. let (cur, w1) = tryCurrent E t w in
           if cur \<noteq> i_handle (isolates w1 i)
           then (Inl (Misuse ''unlock called while another isolate was entered on top of this one''), w1)
           else andThen (callHandle E t ''Locker.UnlockWindow'' ''gov8_ca_shared_unlock_window_begin''
                           [W (i_handle (isolates w1 i))] w1)
             (\<lambda>h w. (Inr h, upd_iso i (\<lambda>s. s\<lparr>i_tid := 0\<rparr>)
                (setShared i (\<lambda>st. st\<lparr>st_window := True, st_windowOwnerTid := l_tid x,
                                     st_locked := False, st_ownerTid := 0\<rparr>) w)))) w)"

definition UnlockWindow_end :: "engine \<Rightarrow> tid \<Rightarrow> uintptr \<Rightarrow> world \<Rightarrow> unit result" where
  [op_defs]: "UnlockWindow_end E t h w =
     (let (cur, w1) = tryCurrent E t w in
      if cur \<noteq> 0 then (Inl (Misuse ''unlock window closure returned while an isolate was still entered''), w1)
      else unitCall E t ''Locker.UnlockWindowEnd'' ''gov8_ca_shared_unlock_window_end'' [W h] w1)"

definition UnlockWindow_publish :: "ref \<Rightarrow> world \<Rightarrow> world" where
  [op_defs]: "UnlockWindow_publish l w =
     (let x = lockers w l; i = l_iso x in
      upd_iso i (\<lambda>s. s\<lparr>i_tid := l_tid x\<rparr>)
        (setShared i (\<lambda>st. st\<lparr>st_window := False, st_windowOwnerTid := 0, st_locked := True,
                             st_ownerTid := l_tid x\<rparr>) w))"

text \<open>The whole call: \<open>fn\<close> is the closure (\<open>None\<close> for nil) with what other threads do meanwhile.\<close>

definition UnlockWindow :: "engine \<Rightarrow> tid \<Rightarrow> ref \<Rightarrow> (world \<Rightarrow> error option \<times> world) option \<Rightarrow> world \<Rightarrow> unit result" where
  [op_defs]: "UnlockWindow E t l fn w =
     (case fn of
        None \<Rightarrow> (Inl (Misuse ''unlock window requires a closure''), w)
      | Some f \<Rightarrow>
          andThen (UnlockWindow_begin E t l w) (\<lambda>h w.
            let (fnErr, w1) = f w in
            andThen (UnlockWindow_end E t h w1) (\<lambda>_ w.
              ((case fnErr of None \<Rightarrow> Inr () | Some e \<Rightarrow> Inl e), UnlockWindow_publish l w))))"

section \<open>Disposal\<close>

definition SharedIsolate_Close :: "engine \<Rightarrow> tid \<Rightarrow> ref \<Rightarrow> world \<Rightarrow> unit result" where
  [op_defs]: "SharedIsolate_Close E t i w =
     guarded [requireInitialized w]
       (\<lambda>w0. let w = LockOSThread t w0; refuse = (\<lambda>e w. (Inl e, UnlockOSThread t w)) in
          (case sharedRegistry w i of
             None \<Rightarrow> refuse (Misuse ''isolate is not shared'') w
           | Some st \<Rightarrow>
               if st_locked st then refuse (Misuse ''cannot dispose a shared isolate while a lock is held'') w
               else if st_window st then refuse (Misuse ''cannot dispose a shared isolate inside an unlock window'') w
               else if isolateClosed i w then refuse (AlreadyClosed KIsolate) w
               else (case callErr E t ''SharedIsolate.Close'' ''gov8_ca_shared_isolate_dispose''
                            [W (i_handle (isolates w i))] w of
                       (Inl e, w1) \<Rightarrow> refuse e w1
                     | (Inr _, w1) \<Rightarrow>
                         (let w2 = publishClosedLocked i (upd_iso i (\<lambda>s. s\<lparr>i_handle := 0\<rparr>) w1);
                              w3 = w2\<lparr>sharedRegistry := (sharedRegistry w2)(i := None)\<rparr>;
                              w4 = unregisterIsolate i w3;
                              w5 = (if t = st_creatorTid st then UnlockOSThread t w4 else w4)
                          in (Inr (), UnlockOSThread t w5))))) w"

definition IsLocked :: "engine \<Rightarrow> tid \<Rightarrow> ref \<Rightarrow> world \<Rightarrow> bool \<times> world" where
  [op_defs]: "IsLocked E t i w =
     (if isolateClosed i w then (False, w)
      else let (r, w1) = shim E t ''gov8_ca_is_locked'' [W (i_handle (isolates w i))] w in (r1 r = 1, w1))"

section \<open>The operations as steps\<close>

datatype locker_op =
    OpTryIntoShared ref | OpLockBegin ref | OpLockAcquire ref | OpLockPublish ref uintptr
  | OpLockerClose ref | OpWindowBegin ref | OpWindowEnd uintptr | OpWindowPublish ref
  | OpSharedClose ref | OpIsLocked ref

fun locker_exec :: "engine \<Rightarrow> tid \<Rightarrow> locker_op \<Rightarrow> world \<Rightarrow> world" where
  "locker_exec E t (OpTryIntoShared i) w = snd (TryIntoShared E t i w)"
| "locker_exec E t (OpLockBegin i) w = snd (Lock_begin E t i w)"
| "locker_exec E t (OpLockAcquire i) w = snd (Lock_acquire E t i w)"
| "locker_exec E t (OpLockPublish i h) w = snd (Lock_publish t i h w)"
| "locker_exec E t (OpLockerClose l) w = snd (Locker_Close E t l w)"
| "locker_exec E t (OpWindowBegin l) w = snd (UnlockWindow_begin E t l w)"
| "locker_exec E t (OpWindowEnd h) w = snd (UnlockWindow_end E t h w)"
| "locker_exec E t (OpWindowPublish l) w = UnlockWindow_publish l w"
| "locker_exec E t (OpSharedClose i) w = snd (SharedIsolate_Close E t i w)"
| "locker_exec E t (OpIsLocked i) w = snd (IsLocked E t i w)"

text \<open>A property that does not depend on locks and thread bindings is kept by every operation but
  the disposal, and by the disposal as well when it ignores what happens to closed isolates.\<close>

locale locker_blind = alloc_stable +
  assumes upd_osPins: "P w \<Longrightarrow> P (w\<lparr>osPins := p\<rparr>)"
    and upd_sharedRegistry: "P w \<Longrightarrow> P (w\<lparr>sharedRegistry := m\<rparr>)"
    and upd_lockers: "P w \<Longrightarrow> P (w\<lparr>lockers := l\<rparr>)"
    and upd_tids: "P w \<Longrightarrow> \<forall>j. (I j)\<lparr>i_tid := 0\<rparr> = (isolates w j)\<lparr>i_tid := 0\<rparr> \<Longrightarrow> P (w\<lparr>isolates := I\<rparr>)"
begin

lemmas blind_rules = upd_nextRef upd_osPins upd_sharedRegistry upd_lockers upd_tids

lemma P_locker_exec: "P w \<Longrightarrow> (\<And>i. a \<noteq> OpSharedClose i) \<Longrightarrow> P (locker_exec E t a w)"
  by (cases a)
    (auto simp: op_defs call_eqs Let_def intro!: P_rules blind_rules split: option.split)

end

locale dispose_blind = locker_blind +
  assumes upd_liveIsolates: "P w \<Longrightarrow> P (w\<lparr>liveIsolates := L\<rparr>)"
    and upd_closed: "P w \<Longrightarrow> \<forall>j. I j = isolates w j \<or> i_closed (I j) \<Longrightarrow> P (w\<lparr>isolates := I\<rparr>)"
begin

lemma P_dispose_exec: "P w \<Longrightarrow> P (locker_exec E t a w)"
proof (cases a)
  case (OpSharedClose i)
  assume "P w"
  then show ?thesis using OpSharedClose
    by (auto simp: SharedIsolate_Close_def LockOSThread_def UnlockOSThread_def publishClosedLocked_def
        unregisterIsolate_def callErr_eq Let_def
        intro!: P_rules upd_osPins upd_sharedRegistry upd_liveIsolates upd_closed split: option.split)
qed (auto intro: P_locker_exec simp del: locker_exec.simps)

end

lemma fields_tid:
  assumes "x\<lparr>i_tid := 0\<rparr> = y\<lparr>i_tid := 0\<rparr>"
  shows "iso_key x = iso_key y" "i_closed x = i_closed y" "i_handleScopeStack x = i_handleScopeStack y"
  using assms by (cases x; cases y; simp add: iso_key_def)+

interpretation locker_live: locker_blind live_inv
proof
  fix w I
  assume "live_inv w" "\<forall>j. (I j)\<lparr>i_tid := 0\<rparr> = (isolates w j)\<lparr>i_tid := 0\<rparr>"
  then show "live_inv (w\<lparr>isolates := I\<rparr>)" by (blast intro: live_inv_isolates fields_tid)
qed (simp_all add: live_inv_def)

interpretation dispose_scp: dispose_blind scopes_inv
proof
  fix w I
  assume a: "scopes_inv w"
    and "\<forall>j. (I j)\<lparr>i_tid := 0\<rparr> = (isolates w j)\<lparr>i_tid := 0\<rparr>"
  then have "scope_frame w (w\<lparr>isolates := I\<rparr>)"
    by (simp add: scope_frame_def) (blast dest: fields_tid)
  with a show "scopes_inv (w\<lparr>isolates := I\<rparr>)" by (rule scopes_inv_frame)
next
  fix w I
  assume "scopes_inv w" "\<forall>j. I j = isolates w j \<or> i_closed (I j)"
  then show "scopes_inv (w\<lparr>isolates := I\<rparr>)"
    unfolding scopes_inv_def scopes_ok_def by (simp, metis)
qed (simp_all add: scopes_inv_def)

interpretation dispose_que: dispose_blind queues_inv
  by unfold_locales (simp_all add: queues_inv_def)

interpretation dispose_weak: dispose_blind weaks_inv
  by unfold_locales (simp_all add: weaks_inv_def)

lemma live_inv_SharedIsolate_Close: "live_inv w \<Longrightarrow> live_inv (snd (SharedIsolate_Close E t i w))"
  by (auto simp: SharedIsolate_Close_def LockOSThread_def UnlockOSThread_def publishClosedLocked_def
      unregisterIsolate_def callErr_eq outcome_simps Let_def live_inv_def split: option.split)

lemma locker_live_inv: "live_inv w \<Longrightarrow> live_inv (locker_exec E t a w)"
proof (cases a)
  case (OpSharedClose i)
  assume "live_inv w"
  then show ?thesis using OpSharedClose by (simp add: live_inv_SharedIsolate_Close)
qed (auto intro: locker_live.P_locker_exec simp del: locker_exec.simps)

end
