(* ===== verification/Sharing.thy ===== *)
theory Sharing
  imports Locker
begin

text \<open>
  The locking protocol of locker.go under arbitrary interleaving: the critical sections of Lock,
  Locker.Close, UnlockWindow and SharedIsolate.Close are the steps of a transition system over the
  threads that compete for one shared isolate. The engine's own lock is part of the system; what is
  relied on of it is in \<open>grantable\<close>, \<open>grant\<close> and \<open>release\<close>.
\<close>

section \<open>The protocol\<close>

text \<open>
  One shared isolate \<open>i\<close> and the threads that compete for it. \<open>phase\<close> is where a thread stands inside
  Lock or UnlockWindow while the registry mutex is released; \<open>holder\<close> is the engine's own lock (a
  v8::Locker), with its recursion depth.
\<close>

datatype phase = Idle | Acquiring | Publishing uintptr | InWindow ref uintptr nat | Republishing ref

record lsys =
  lw :: world
  phase_of :: "tid \<Rightarrow> phase"
  holder :: "(tid \<times> nat) option"

text \<open>What is relied on of the engine: its lock is granted to a thread only while no other thread
  holds it, it nests, and an unlocker gives up all levels and takes them back.\<close>

definition grantable :: "(tid \<times> nat) option \<Rightarrow> tid \<Rightarrow> bool" where
  "grantable h t \<longleftrightarrow> (case h of None \<Rightarrow> True | Some (u, d) \<Rightarrow> u = t)"

definition grant :: "(tid \<times> nat) option \<Rightarrow> tid \<Rightarrow> (tid \<times> nat) option" where
  "grant h t = (case h of None \<Rightarrow> Some (t, 1) | Some (u, d) \<Rightarrow> Some (t, Suc d))"

definition release :: "(tid \<times> nat) option \<Rightarrow> (tid \<times> nat) option" where
  "release h = (case h of None \<Rightarrow> None | Some (u, d) \<Rightarrow> if d \<le> 1 then None else Some (u, d - 1))"

definition depth :: "(tid \<times> nat) option \<Rightarrow> nat" where
  "depth h = (case h of None \<Rightarrow> 0 | Some (u, d) \<Rightarrow> d)"

text \<open>The isolate's thread binding and its shared state, all that the protocol reads.\<close>

definition binding :: "ref \<Rightarrow> world \<Rightarrow> tid \<times> sharedState option" where
  "binding i w = (i_tid (isolates w i), sharedRegistry w i)"

inductive lstep :: "engine \<Rightarrow> ref \<Rightarrow> lsys \<Rightarrow> lsys \<Rightarrow> bool" for E i where
  begin_ok: "phase_of s t = Idle \<Longrightarrow> t \<noteq> 0 \<Longrightarrow> Lock_begin E t i (lw s) = (Inr u, w') \<Longrightarrow>
     lstep E i s (s\<lparr>lw := w', phase_of := (phase_of s)(t := Acquiring)\<rparr>)"
| begin_err: "Lock_begin E t i (lw s) = (Inl e, w') \<Longrightarrow> lstep E i s (s\<lparr>lw := w'\<rparr>)"
| acquire_ok: "phase_of s t = Acquiring \<Longrightarrow> grantable (holder s) t \<Longrightarrow>
     Lock_acquire E t i (lw s) = (Inr h, w') \<Longrightarrow>
     lstep E i s (s\<lparr>lw := w', phase_of := (phase_of s)(t := Publishing h), holder := grant (holder s) t\<rparr>)"
| acquire_err: "phase_of s t = Acquiring \<Longrightarrow> Lock_acquire E t i (lw s) = (Inl e, w') \<Longrightarrow>
     lstep E i s (s\<lparr>lw := w', phase_of := (phase_of s)(t := Idle)\<rparr>)"
| publish: "phase_of s t = Publishing h \<Longrightarrow> Lock_publish t i h (lw s) = (l, w') \<Longrightarrow>
     lstep E i s (s\<lparr>lw := w', phase_of := (phase_of s)(t := Idle)\<rparr>)"
| close_ok: "phase_of s t = Idle \<Longrightarrow> l_iso (lockers (lw s) l) = i \<Longrightarrow>
     Locker_Close E t l (lw s) = (Inr u, w') \<Longrightarrow>
     lstep E i s (s\<lparr>lw := w', holder := release (holder s)\<rparr>)"
| close_err: "Locker_Close E t l (lw s) = (Inl e, w') \<Longrightarrow> lstep E i s (s\<lparr>lw := w'\<rparr>)"
| window_begin_ok: "phase_of s t = Idle \<Longrightarrow> l_iso (lockers (lw s) l) = i \<Longrightarrow>
     UnlockWindow_begin E t l (lw s) = (Inr h, w') \<Longrightarrow>
     lstep E i s (s\<lparr>lw := w', phase_of := (phase_of s)(t := InWindow l h (depth (holder s))), holder := None\<rparr>)"
| window_begin_err: "UnlockWindow_begin E t l (lw s) = (Inl e, w') \<Longrightarrow> lstep E i s (s\<lparr>lw := w'\<rparr>)"
| window_end_ok: "phase_of s t = InWindow l h d \<Longrightarrow> holder s = None \<Longrightarrow>
     UnlockWindow_end E t h (lw s) = (Inr u, w') \<Longrightarrow>
     lstep E i s (s\<lparr>lw := w', phase_of := (phase_of s)(t := Republishing l), holder := Some (t, d)\<rparr>)"
| window_end_err: "phase_of s t = InWindow l h d \<Longrightarrow> UnlockWindow_end E t h (lw s) = (Inl e, w') \<Longrightarrow>
     lstep E i s (s\<lparr>lw := w', phase_of := (phase_of s)(t := Idle)\<rparr>)"
| window_publish: "phase_of s t = Republishing l \<Longrightarrow>
     lstep E i s (s\<lparr>lw := UnlockWindow_publish l (lw s), phase_of := (phase_of s)(t := Idle)\<rparr>)"
| dispose: "lstep E i s (s\<lparr>lw := snd (SharedIsolate_Close E t i (lw s))\<rparr>)"
| other: "binding i w' = binding i (lw s) \<Longrightarrow> lockers w' = lockers (lw s) \<Longrightarrow> nextRef (lw s) \<le> nextRef w' \<Longrightarrow> lstep E i s (s\<lparr>lw := w'\<rparr>)"

inductive_cases lstepE: "lstep E i s s'"

definition held_by :: "tid \<Rightarrow> (tid \<times> nat) option \<Rightarrow> bool" where
  "held_by t h \<longleftrightarrow> (\<exists>d. h = Some (t, d))"

definition locker_id :: "world \<Rightarrow> ref \<Rightarrow> (ref \<times> tid) option" where
  "locker_id w l = (if l < nextRef w then Some (l_iso (lockers w l), l_tid (lockers w l)) else None)"

definition lockers_below :: "world \<Rightarrow> bool" where
  "lockers_below w \<longleftrightarrow> (\<forall>l. \<not> l_closed (lockers w l) \<longrightarrow> l < nextRef w)"

text \<open>The invariant: a thread that is bound to the shared isolate, recorded as its owner, or about to
  publish itself, holds the engine lock.\<close>

fun phase_ok :: "ref \<Rightarrow> (ref \<Rightarrow> (ref \<times> tid) option) \<Rightarrow> (tid \<times> nat) option \<Rightarrow> tid \<Rightarrow> phase \<Rightarrow> bool" where
  "phase_ok i K h t Idle = True"
| "phase_ok i K h t Acquiring = (t \<noteq> 0)"
| "phase_ok i K h t (Publishing _) = (t \<noteq> 0 \<and> held_by t h)"
| "phase_ok i K h t (InWindow l _ _) = (t \<noteq> 0 \<and> K l = Some (i, t))"
| "phase_ok i K h t (Republishing l) = (t \<noteq> 0 \<and> K l = Some (i, t) \<and> held_by t h)"

definition binding_ok :: "tid \<times> sharedState option \<Rightarrow> (tid \<times> nat) option \<Rightarrow> bool" where
  "binding_ok b h \<longleftrightarrow>
     (case snd b of
        None \<Rightarrow> True
      | Some st \<Rightarrow> (fst b \<noteq> 0 \<longrightarrow> held_by (fst b) h) \<and> (st_locked st \<longrightarrow> st_ownerTid st \<noteq> 0 \<and> held_by (st_ownerTid st) h))"

definition lock_inv :: "ref \<Rightarrow> lsys \<Rightarrow> bool" where
  "lock_inv i s \<longleftrightarrow> lockers_below (lw s) \<and> binding_ok (binding i (lw s)) (holder s)
     \<and> (\<forall>t. phase_ok i (locker_id (lw s)) (holder s) t (phase_of s t))"

lemma held_by_unique: "held_by t h \<Longrightarrow> held_by u h \<Longrightarrow> t = u"
  by (auto simp: held_by_def)

text \<open>What the operations do to the binding and to the lockers.\<close>

definition same_locks :: "ref \<Rightarrow> world \<Rightarrow> world \<Rightarrow> bool" where
  "same_locks i w w' \<longleftrightarrow> binding i w' = binding i w \<and> lockers w' = lockers w \<and> nextRef w \<le> nextRef w'"

lemma Lock_begin_same: "same_locks j w (snd (Lock_begin E t i w))"
  by (auto simp: Lock_begin_def LockOSThread_def UnlockOSThread_def tryCurrent_def shim_eq snd_guarded Let_def
      binding_def same_locks_def split: option.split)

lemma Lock_acquire_same: "same_locks j w (snd (Lock_acquire E t i w))"
  by (auto simp: Lock_acquire_def UnlockOSThread_def callHandle_eq Let_def binding_def same_locks_def)

lemma UnlockWindow_end_same: "same_locks j w (snd (UnlockWindow_end E t h w))"
  by (auto simp: UnlockWindow_end_def tryCurrent_def unitCall_def call_eqs snd_andThen Let_def binding_def
      same_locks_def split: sum.split)

lemma UnlockWindow_begin_err:
  assumes "UnlockWindow_begin E t l w = (Inl e, w')"
  shows "same_locks i w w'"
proof -
  have "same_locks i w (snd (UnlockWindow_begin E t l w))"
    using assms
    by (auto simp: UnlockWindow_begin_def guarded_def tryCurrent_def call_eqs Let_def binding_def same_locks_def
        split: if_splits option.splits)
  with assms show ?thesis by simp
qed

text \<open>A locker that is closed changes nothing else.\<close>

definition closed_locker :: "ref \<Rightarrow> world \<Rightarrow> world \<Rightarrow> bool" where
  "closed_locker l w w' \<longleftrightarrow> nextRef w' = nextRef w
     \<and> (lockers w' = lockers w \<or> lockers w' = (lockers w)(l := (lockers w l)\<lparr>l_closed := True\<rparr>))"

lemma Locker_Close_ok:
  assumes "Locker_Close E t l w = (Inr u, w')" "l_iso (lockers w l) = i"
  shows "\<exists>st. sharedRegistry w i = Some st \<and> st_locked st \<and> st_ownerTid st = t
     \<and> binding i w' = (0, Some (st\<lparr>st_locked := False, st_ownerTid := 0\<rparr>)) \<and> closed_locker l w w'"
  using assms
  by (auto simp: Locker_Close_def setLocker_def setShared_def UnlockOSThread_def callErr_eq Let_def binding_def
      closed_locker_def split: if_splits option.splits)

lemma Locker_Close_err:
  assumes "Locker_Close E t l w = (Inl e, w')"
  shows "binding i w' = binding i w" "closed_locker l w w'"
  using assms
  by (auto simp: Locker_Close_def setLocker_def callErr_eq Let_def binding_def closed_locker_def
      split: if_splits option.splits)

lemma UnlockWindow_begin_ok:
  assumes "UnlockWindow_begin E t l w = (Inr h, w')" "l_iso (lockers w l) = i"
  shows "\<exists>st. sharedRegistry w i = Some st \<and> st_locked st \<and> st_ownerTid st = t
     \<and> l_tid (lockers w l) = t \<and> \<not> l_closed (lockers w l)
     \<and> binding i w' = (0, Some (st\<lparr>st_window := True, st_windowOwnerTid := t, st_locked := False, st_ownerTid := 0\<rparr>))
     \<and> lockers w' = lockers w \<and> nextRef w' = nextRef w"
  using assms
  by (auto simp: UnlockWindow_begin_def guarded_eq_Inr andThen_eq_Inr tryCurrent_def setShared_def call_eqs Let_def
      binding_def split: if_splits option.splits)

lemma SharedIsolate_Close_binding:
  fixes E t i w
  defines "w' \<equiv> snd (SharedIsolate_Close E t i w)"
  shows "binding i w' = binding i w \<or> snd (binding i w') = None"
    and "lockers w' = lockers w \<and> nextRef w' = nextRef w"
  unfolding w'_def
  by (auto simp: SharedIsolate_Close_def LockOSThread_def UnlockOSThread_def publishClosedLocked_def
      unregisterIsolate_def callErr_eq snd_guarded Let_def binding_def split: option.split)

section \<open>The invariant is kept\<close>

lemma phase_ok_mono:
  assumes "phase_ok i K h t p" "held_by t h \<Longrightarrow> held_by t h'" "\<And>l x. K l = Some x \<Longrightarrow> K' l = Some x"
  shows "phase_ok i K' h' t p"
  using assms by (cases p) auto

lemma locker_id_mono: "lockers w' = lockers w \<Longrightarrow> nextRef w \<le> nextRef w' \<Longrightarrow> locker_id w l = Some x \<Longrightarrow> locker_id w' l = Some x"
  by (auto simp: locker_id_def split: if_splits)

lemma held_by_grant: "grantable h t \<Longrightarrow> held_by u h \<Longrightarrow> held_by u (grant h t)" "grantable h t \<Longrightarrow> held_by t (grant h t)"
  by (auto simp: held_by_def grantable_def grant_def split: option.splits)

lemma same_locks_id: "same_locks i w w' \<Longrightarrow> locker_id w l = Some x \<Longrightarrow> locker_id w' l = Some x"
  by (auto simp: same_locks_def intro: locker_id_mono)

text \<open>One rule for all steps: the new binding is in order, the lockers are only added or closed, a
  thread other than the one that moves keeps the engine lock, and the mover's new phase is in order.\<close>

lemma lock_inv_step:
  assumes inv: "lock_inv i s"
    and s': "phase_of s' = (phase_of s)(t := p)" "lockers_below (lw s')" "binding_ok (binding i (lw s')) (holder s')"
    and K: "\<And>l x. locker_id (lw s) l = Some x \<Longrightarrow> locker_id (lw s') l = Some x"
    and others: "\<And>u. u \<noteq> t \<Longrightarrow> held_by u (holder s) \<Longrightarrow> held_by u (holder s')"
    and mover: "phase_ok i (locker_id (lw s')) (holder s') t p"
  shows "lock_inv i s'"
proof -
  have "phase_ok i (locker_id (lw s')) (holder s') u (phase_of s u)" if "u \<noteq> t" for u
    using inv that others K unfolding lock_inv_def by (blast intro: phase_ok_mono)
  with s' mover show ?thesis by (simp add: lock_inv_def)
qed

lemma lock_inv_same:
  assumes inv: "lock_inv i s" and same: "same_locks i (lw s) w'"
    and p: "phase_ok i (locker_id (lw s)) (holder s) t p"
  shows "lock_inv i (s\<lparr>lw := w', phase_of := (phase_of s)(t := p)\<rparr>)"
proof -
  have K: "locker_id (lw s) l = Some x \<Longrightarrow> locker_id w' l = Some x" for l x
    using same by (rule same_locks_id)
  have "lockers_below w'" "binding_ok (binding i w') (holder s)"
    using inv same by (force simp: lock_inv_def lockers_below_def same_locks_def)+
  with K phase_ok_mono [OF p _ K] show ?thesis by (intro lock_inv_step [OF inv, of _ t p]) simp_all
qed

lemma lock_inv_phase: "lock_inv i s \<Longrightarrow> phase_ok i (locker_id (lw s)) (holder s) t (phase_of s t)"
  by (simp add: lock_inv_def)

lemma lock_inv_same_phase:
  assumes "lock_inv i s" "same_locks i (lw s) w'"
  shows "lock_inv i (s\<lparr>lw := w'\<rparr>)"
  using assms(1) lock_inv_same [OF assms lock_inv_phase [OF assms(1)], of 0] by (simp add: lock_inv_def)

lemma closed_locker_below: "lockers_below w \<Longrightarrow> closed_locker l w w' \<Longrightarrow> lockers_below w'"
  by (auto simp: lockers_below_def closed_locker_def split: if_splits)

lemma closed_locker_id: "closed_locker l w w' \<Longrightarrow> locker_id w' = locker_id w"
  by (auto simp: closed_locker_def locker_id_def fun_eq_iff)

lemma lock_inv_acquire:
  assumes inv: "lock_inv i s" and "phase_of s t = Acquiring" and g: "grantable (holder s) t"
    and "Lock_acquire E t i (lw s) = (Inr h, w')"
  shows "lock_inv i (s\<lparr>lw := w', phase_of := (phase_of s)(t := Publishing h), holder := grant (holder s) t\<rparr>)"
proof -
  have same: "same_locks i (lw s) w'" using Lock_acquire_same [of i "lw s" E t i] assms(4) by simp
  have "t \<noteq> 0" using lock_inv_phase [OF inv, of t] assms(2) by simp
  moreover have "lockers_below w'" "binding_ok (binding i w') (grant (holder s) t)"
    using inv same g by (force simp: lock_inv_def lockers_below_def same_locks_def binding_ok_def held_by_grant
        split: option.splits)+
  ultimately show ?thesis
    using same_locks_id [OF same] g by (intro lock_inv_step [OF inv, of _ t "Publishing h"])
      (simp_all add: held_by_grant)
qed

lemma lock_inv_close:
  assumes inv: "lock_inv i s" and "phase_of s t = Idle" "l_iso (lockers (lw s) l) = i"
    and "Locker_Close E t l (lw s) = (Inr u, w')"
  shows "lock_inv i (s\<lparr>lw := w', holder := release (holder s)\<rparr>)"
proof -
  obtain st where st: "sharedRegistry (lw s) i = Some st" "st_locked st" "st_ownerTid st = t"
    and b: "binding i w' = (0, Some (st\<lparr>st_locked := False, st_ownerTid := 0\<rparr>))"
    and cl: "closed_locker l (lw s) w'"
    using Locker_Close_ok [OF assms(4,3)] by blast
  have "held_by t (holder s)" using inv st by (simp add: lock_inv_def binding_ok_def binding_def)
  then have "v \<noteq> t \<Longrightarrow> held_by v (holder s) \<Longrightarrow> held_by v (release (holder s))" for v
    by (auto simp: held_by_def)
  moreover have "lockers_below w'" using inv cl closed_locker_below by (auto simp: lock_inv_def)
  ultimately show ?thesis
    using assms(2) b cl by (intro lock_inv_step [OF inv, of _ t Idle])
      (simp_all add: binding_ok_def closed_locker_id fun_upd_idem)
qed

lemma lock_inv_window_begin:
  assumes inv: "lock_inv i s" and "l_iso (lockers (lw s) l) = i"
    and "UnlockWindow_begin E t l (lw s) = (Inr h, w')"
  shows "lock_inv i (s\<lparr>lw := w', phase_of := (phase_of s)(t := InWindow l h d), holder := None\<rparr>)"
proof -
  obtain st where st: "sharedRegistry (lw s) i = Some st" "st_locked st" "st_ownerTid st = t"
      "l_tid (lockers (lw s) l) = t" "\<not> l_closed (lockers (lw s) l)"
    and b: "binding i w' = (0, Some (st\<lparr>st_window := True, st_windowOwnerTid := t, st_locked := False, st_ownerTid := 0\<rparr>))"
    and l: "lockers w' = lockers (lw s)" "nextRef w' = nextRef (lw s)"
    using UnlockWindow_begin_ok [OF assms(3,2)] by blast
  have t: "held_by t (holder s)" "t \<noteq> 0" and below: "lockers_below (lw s)"
    using inv st by (auto simp: lock_inv_def binding_ok_def binding_def)
  have "u \<noteq> t \<Longrightarrow> held_by u (holder s) \<Longrightarrow> held_by u None" for u
    using t by (auto dest: held_by_unique)
  moreover have "locker_id w' l = Some (i, t)" using below st assms(2) l by (simp add: locker_id_def lockers_below_def)
  ultimately show ?thesis
    using below l b t locker_id_mono [OF l(1)] by (intro lock_inv_step [OF inv, of _ t "InWindow l h d"])
      (simp_all add: binding_ok_def lockers_below_def)
qed

lemma lock_inv_window_end:
  assumes inv: "lock_inv i s" and ph: "phase_of s t = InWindow l h d" and "holder s = None"
    and "UnlockWindow_end E t h (lw s) = (Inr u, w')"
  shows "lock_inv i (s\<lparr>lw := w', phase_of := (phase_of s)(t := Republishing l), holder := Some (t, d)\<rparr>)"
proof -
  have same: "same_locks i (lw s) w'" using UnlockWindow_end_same [of i "lw s" E t h] assms(4) by simp
  have l: "t \<noteq> 0" "locker_id (lw s) l = Some (i, t)" using lock_inv_phase [OF inv, of t] ph by simp_all
  have "lockers_below w'" "binding_ok (binding i w') (Some (t, d))"
    using inv same assms(3)
    by (force simp: lock_inv_def lockers_below_def same_locks_def binding_ok_def held_by_def split: option.splits)+
  then show ?thesis
    using same_locks_id [OF same] l assms(3) by (intro lock_inv_step [OF inv, of _ t "Republishing l"])
      (simp_all add: held_by_def)
qed

lemma lock_inv_publish:
  assumes inv: "lock_inv i s" and ph: "phase_of s t = Publishing h"
  shows "lock_inv i (s\<lparr>lw := snd (Lock_publish t i h (lw s)), phase_of := (phase_of s)(t := Idle)\<rparr>)"
proof -
  let ?w = "snd (Lock_publish t i h (lw s))"
  have t: "t \<noteq> 0" "held_by t (holder s)" using lock_inv_phase [OF inv, of t] ph by simp_all
  have "lockers_below ?w" using inv
    by (auto simp: lock_inv_def lockers_below_def Lock_publish_def setShared_def Let_def less_Suc_eq split: option.splits)
  moreover have "locker_id (lw s) k = Some x \<Longrightarrow> locker_id ?w k = Some x" for k x
    by (auto simp: locker_id_def Lock_publish_def setShared_def Let_def split: if_splits option.splits)
  moreover have "binding_ok (binding i ?w) (holder s)"
    using inv t by (auto simp: lock_inv_def binding_ok_def binding_def Lock_publish_def setShared_def Let_def split: option.splits)
  ultimately show ?thesis
    by (intro lock_inv_step [OF inv, of _ t Idle]) simp_all
qed

lemma lock_inv_window_publish:
  assumes inv: "lock_inv i s" and ph: "phase_of s t = Republishing l"
  shows "lock_inv i (s\<lparr>lw := UnlockWindow_publish l (lw s), phase_of := (phase_of s)(t := Idle)\<rparr>)"
proof -
  let ?w = "UnlockWindow_publish l (lw s)"
  have t: "t \<noteq> 0" "held_by t (holder s)" "locker_id (lw s) l = Some (i, t)" using lock_inv_phase [OF inv, of t] ph by simp_all
  have l: "l_iso (lockers (lw s) l) = i" "l_tid (lockers (lw s) l) = t" using t(3) by (auto simp: locker_id_def split: if_splits)
  have w: "lockers ?w = lockers (lw s)" "nextRef ?w = nextRef (lw s)"
    by (auto simp: UnlockWindow_publish_def setShared_def Let_def split: option.splits)
  have "binding_ok (binding i ?w) (holder s)"
    using inv t l by (auto simp: lock_inv_def binding_ok_def binding_def UnlockWindow_publish_def setShared_def Let_def split: option.splits)
  then show ?thesis
    using inv locker_id_mono [OF w(1)] by (intro lock_inv_step [OF inv, of _ t Idle])
      (simp_all add: w lock_inv_def lockers_below_def)
qed

lemma lock_inv_dispose:
  assumes inv: "lock_inv i s"
  shows "lock_inv i (s\<lparr>lw := snd (SharedIsolate_Close E t i (lw s))\<rparr>)"
proof -
  let ?w = "snd (SharedIsolate_Close E t i (lw s))"
  have "lockers ?w = lockers (lw s)" "nextRef ?w = nextRef (lw s)" using SharedIsolate_Close_binding(2) by simp_all
  moreover have "binding_ok (binding i ?w) (holder s)"
    using SharedIsolate_Close_binding(1) [of i E t "lw s"]
  proof
    assume "binding i ?w = binding i (lw s)"
    with inv show ?thesis by (simp add: lock_inv_def)
  qed (simp add: binding_ok_def)
  moreover from calculation have "locker_id ?w = locker_id (lw s)" by (simp add: locker_id_def fun_eq_iff)
  ultimately show ?thesis
    using inv by (simp add: lock_inv_def lockers_below_def)
qed

lemma lock_inv_close_err:
  assumes inv: "lock_inv i s" and "Locker_Close E t l (lw s) = (Inl e, w')"
  shows "lock_inv i (s\<lparr>lw := w'\<rparr>)"
  using inv Locker_Close_err [OF assms(2)] closed_locker_below closed_locker_id
  by (simp add: lock_inv_def) blast

lemma lstep_lock_inv: "lstep E i s s' \<Longrightarrow> lock_inv i s \<Longrightarrow> lock_inv i s'"
proof (induction rule: lstep.induct)
  case (begin_ok s t u w')
  then show ?case using Lock_begin_same [of i "lw s" E t i] by (intro lock_inv_same) simp_all
next
  case (begin_err t s e w')
  then show ?case using Lock_begin_same [of i "lw s" E t i] by (intro lock_inv_same_phase) simp_all
next
  case (acquire_err s t e w')
  then show ?case using Lock_acquire_same [of i "lw s" E t i] by (intro lock_inv_same) simp_all
next
  case (publish s t h l w')
  then show ?case using lock_inv_publish [of i s t h] by simp
next
  case (window_begin_err t l s e w')
  then show ?case by (intro lock_inv_same_phase UnlockWindow_begin_err)
next
  case (window_end_err s t l h d e w')
  then show ?case using UnlockWindow_end_same [of i "lw s" E t h] by (intro lock_inv_same) simp_all
next
  case (other w' s)
  then show ?case by (intro lock_inv_same_phase) (simp_all add: same_locks_def)
qed (blast intro: lock_inv_acquire lock_inv_close lock_inv_close_err lock_inv_window_begin lock_inv_window_end
    lock_inv_window_publish lock_inv_dispose)+

text \<open>The system starts right after the conversion: no lock is held, no thread is bound.\<close>

definition just_shared :: "ref \<Rightarrow> lsys \<Rightarrow> bool" where
  "just_shared i s \<longleftrightarrow> lockers_below (lw s) \<and> i_tid (isolates (lw s) i) = 0
     \<and> (case sharedRegistry (lw s) i of None \<Rightarrow> False | Some st \<Rightarrow> \<not> st_locked st)
     \<and> holder s = None \<and> (\<forall>t. phase_of s t = Idle)"

lemma just_shared_inv: "just_shared i s \<Longrightarrow> lock_inv i s"
  by (auto simp: just_shared_def lock_inv_def binding_ok_def binding_def split: option.splits)

interpretation share: invariant_system "just_shared i" "lstep E i" "lock_inv i" for E i
  by unfold_locales (auto intro: just_shared_inv lstep_lock_inv)

end
