(* ===== verification/Api.thy ===== *)
theory Api
  imports Sharing
begin

text \<open>
  The whole binding as one transition system: a call of any operation by any thread is a step, and
  a script run carries the list of calls that JavaScript makes back into the binding before it
  returns. The invariants of the components hold in every state a sequence of steps can reach.
\<close>

section \<open>Calls and sequences of calls\<close>

datatype api =
    Life lifecycle_op | Scp scope_op | Ctx context_op | Scr script_op | Hnd handle_op | Lck locker_op
  | Run ref ref "ref option" "api list"

primrec exec :: "engine \<Rightarrow> tid \<Rightarrow> api \<Rightarrow> world \<Rightarrow> world" where
  "exec E t (Life a) = lifecycle_exec E t a"
| "exec E t (Scp a) = scope_exec E t a"
| "exec E t (Ctx a) = context_exec E t a"
| "exec E t (Scr a) = script_exec E t a"
| "exec E t (Hnd a) = handle_exec E t a"
| "exec E t (Lck a) = locker_exec E t a"
| "exec E t (Run x s mx as) = (\<lambda>w. snd (Script_Run E t (fold id (map (exec E t) as)) x s mx w))"

definition runs :: "engine \<Rightarrow> (tid \<times> api) list \<Rightarrow> world \<Rightarrow> world" where
  "runs E tr w = fold (\<lambda>(t, a). exec E t a) tr w"

lemma runs_simps [simp]: "runs E [] w = w" "runs E ((t, a) # tr) w = runs E tr (exec E t a w)"
  by (simp_all add: runs_def)

definition step :: "engine \<Rightarrow> world \<Rightarrow> world \<Rightarrow> bool" where
  "step E w w' \<longleftrightarrow> (\<exists>t a. w' = exec E t a w)"

lemma runs_steps: "(step E)\<^sup>*\<^sup>* w (runs E tr w)"
proof (induction tr arbitrary: w)
  case (Cons p tr)
  obtain t a where "p = (t, a)" by (cases p)
  then have "step E w (exec E t a w)" by (auto simp: step_def)
  with Cons.IH [of "exec E t a w"] \<open>p = (t, a)\<close> show ?case
    by (simp add: converse_rtranclp_into_rtranclp)
qed simp

section \<open>The first state\<close>

text \<open>The package variables before any call: the zero values of Go, no object allocated. \<open>e\<close> is
  what loading the shim reported.\<close>

definition boot :: "error option \<Rightarrow> world" where
  "boot e = \<lparr>calls = [], shimLoadErr = e, platform = stateUninitialized, liveIsolates = {},
     selectedPlatform = None, selectedCustomPlatform = None, cppgcExplicit = False,
     cppgcRetainedPlatform = False, cppgcHeaps = {}, nextRef = 0, osPins = (\<lambda>_. 0),
     isolates = (\<lambda>_. \<lparr>i_handle = 0, i_tid = 0, i_closed = True, i_closedState = True,
       i_contextsCreated = False, i_advancedCounterHandle = 0, i_advancedExternalReferences = False,
       i_customCppGCHeap = False, i_arrayBufferAllocatorReference = 0, i_handleScopeStack = []\<rparr>),
     scopes = (\<lambda>_. \<lparr>s_iso = 0, s_handle = 0, s_closed = True, s_borrowed = False,
       s_activeBorrowedContextScopes = 0, s_javascriptExecutionGuards = []\<rparr>),
     escScopes = (\<lambda>_. \<lparr>e_iso = 0, e_outer = 0, e_handle = 0, e_escaped = False, e_closed = True\<rparr>),
     contexts = (\<lambda>_. \<lparr>c_iso = 0, c_handle = 0, c_closed = True, c_microtaskQueue = None\<rparr>),
     queues = (\<lambda>_. \<lparr>m_iso = 0, m_handle = 0, m_raw = 0, m_closed = True, m_attachments = 0\<rparr>),
     tryCatches = (\<lambda>_. \<lparr>tc_iso = 0, tc_handle = 0, tc_closed = True\<rparr>),
     scripts = (\<lambda>_. \<lparr>sc_iso = 0, sc_ctx = 0, sc_handle = 0, sc_state = 1\<rparr>),
     ctxScopes = (\<lambda>_. \<lparr>cs_iso = 0, cs_entered = EnteredCtx 0, cs_closed = True\<rparr>),
     contextScopeStacks = (\<lambda>_. []),
     disallows = (\<lambda>_. \<lparr>d_scope = 0, d_handle = 0, d_closed = True\<rparr>),
     allows = (\<lambda>_. \<lparr>d_scope = 0, d_handle = 0, d_closed = True\<rparr>),
     globals = (\<lambda>_. \<lparr>g_iso = 0, g_cell = 0, g_closed = True\<rparr>),
     weaks = (\<lambda>_. \<lparr>w_iso = 0, w_wrap = 0, w_empty = False, w_id = 0, w_tracked = False, w_closed = True\<rparr>),
     weakNext = 0, weakEntries = Map.empty, weakLiveness = (\<lambda>_. 0), weakDispatcherErr = None,
     sharedRegistry = Map.empty, lockers = (\<lambda>_. \<lparr>l_iso = 0, l_handle = 0, l_tid = 0, l_closed = True\<rparr>),
     inspectorIsolates = Map.empty, inspectorInspectables = [], heapSnapshotActive = (\<lambda>_. 0),
     cppgcPersistents = (\<lambda>_. \<lparr>p_iso = 0, p_handle = 0, p_weak = False, p_closed = True\<rparr>),
     cppgcPersistentIsolates = (\<lambda>_. []), fastAPIIsolates = {}, isolateCounters = {}, finalized = []\<rparr>"

section \<open>The invariants hold everywhere\<close>

definition api_inv :: "world \<Rightarrow> bool" where
  "api_inv w \<longleftrightarrow> live_inv w \<and> scopes_inv w \<and> queues_inv w \<and> weaks_inv w"

lemma api_inv_boot: "api_inv (boot e)"
  by (simp add: api_inv_def boot_def live_inv_def scopes_inv_def scopes_ok_def open_tokens_def
      queues_inv_def queues_ok_def attached_def weaks_inv_def weaks_ok_def tracked_def registry_ok_def)

text \<open>A property that the plain steps of every component keep is kept by a script run, whatever the
  script calls back, and by every sequence of calls.\<close>

locale api_stable = script_blind +
  assumes P_life: "P w \<Longrightarrow> P (lifecycle_exec E t la w)"
    and P_scope: "P w \<Longrightarrow> P (scope_exec E t sa w)"
    and P_context: "P w \<Longrightarrow> P (context_exec E t ca w)"
    and P_handle: "P w \<Longrightarrow> P (handle_exec E t ha w)"
    and P_locker: "P w \<Longrightarrow> P (locker_exec E t ka w)"
begin

lemma fold_keeps: "(\<And>f w. f \<in> set fs \<Longrightarrow> P w \<Longrightarrow> P (f w)) \<Longrightarrow> P w \<Longrightarrow> P (fold id fs w)"
  by (induction fs arbitrary: w) auto

lemma P_exec: "P w \<Longrightarrow> P (exec E t a w)"
proof (induction a arbitrary: w)
  case (Run x s mx as)
  then have "P (fold id (map (exec E t) as) w)" if "P w" for w
    using that by (intro fold_keeps) auto
  with Run.prems show ?case by (simp add: P_Script_Run)
qed (simp_all add: P_life P_scope P_context P_script_exec P_handle P_locker)

end

sublocale api_stable \<subseteq> invariant_system P "step E" P for E
  by unfold_locales (auto simp: step_def P_exec)

context api_stable
begin

lemma P_runs: "P w \<Longrightarrow> P (runs E tr w)"
  using rtranclp_inv [OF runs_steps] .

end

interpretation gov8: api_stable api_inv
  by unfold_locales (auto simp: api_inv_def lifecycle_live_inv lifecycle_scopes_inv lifecycle_queues_inv
      lifecycle_weaks_inv scope_live.P_scope_exec scope_scopes_inv scope_que.P_scope_exec
      scope_weak.P_scope_exec context_live.P_context_exec context_scp.P_context_exec context_queues_inv
      context_weak.P_context_exec handle_live.P_handle_exec handle_scp.P_handle_exec
      handle_que.P_handle_exec handle_weaks_inv locker_live_inv dispose_scp.P_dispose_exec
      dispose_que.P_dispose_exec dispose_weak.P_dispose_exec live_alloc.P_called scp_alloc.P_called
      que_alloc.P_called weak_alloc.P_called live_alloc.upd_nextRef scp_alloc.upd_nextRef
      que_alloc.upd_nextRef weak_alloc.upd_nextRef script_live.upd_scripts script_scp.upd_scripts
      script_que.upd_scripts script_weak.upd_scripts script_live.upd_tryCatches script_scp.upd_tryCatches
      script_que.upd_tryCatches script_weak.upd_tryCatches)

lemma runs_api_inv: "api_inv (runs E tr (boot e))"
  by (rule gov8.P_runs [OF api_inv_boot])

lemmas runs_inv = runs_api_inv [unfolded api_inv_def, THEN conjunct1]
  runs_api_inv [unfolded api_inv_def, THEN conjunct2, THEN conjunct1]
  runs_api_inv [unfolded api_inv_def, THEN conjunct2, THEN conjunct2, THEN conjunct1]
  runs_api_inv [unfolded api_inv_def, THEN conjunct2, THEN conjunct2, THEN conjunct2]

section \<open>The isolate an operation is bound to\<close>

text \<open>The isolate whose thread binding the operation tests first; none for the operations that are
  not bound to one (process lifecycle, collector callbacks, locking).\<close>

fun scope_target :: "scope_op \<Rightarrow> world \<Rightarrow> ref option" where
  "scope_target (OpNewScope i) w = Some i"
| "scope_target (OpScopeClose s) w = Some (s_iso (scopes w s))"
| "scope_target (OpConstructPrimitive s _ _ _) w = Some (s_iso (scopes w s))"
| "scope_target (OpNewEscapableScope s) w = Some (s_iso (scopes w s))"
| "scope_target (OpEscape e _) w = Some (s_iso (scopes w (e_outer (escScopes w e))))"
| "scope_target (OpEscapableScopeClose e) w = Some (s_iso (scopes w (e_outer (escScopes w e))))"
| "scope_target (OpNewDisallow s _) w = Some (s_iso (scopes w s))"
| "scope_target (OpNewAllow d) w = Some (s_iso (scopes w (d_scope (disallows w d))))"
| "scope_target (OpDisallowClose d) w = Some (s_iso (scopes w (d_scope (disallows w d))))"
| "scope_target (OpAllowClose a) w = Some (s_iso (scopes w (d_scope (allows w a))))"

fun context_target :: "context_op \<Rightarrow> world \<Rightarrow> ref option" where
  "context_target (OpNewContext i) w = Some i"
| "context_target (OpContextClose c) w = Some (c_iso (contexts w c))"
| "context_target (OpGlobalObject c _) w = Some (c_iso (contexts w c))"
| "context_target (OpGetExtrasBindingObject c _) w = Some (c_iso (contexts w c))"
| "context_target (OpSetContinuationData s _) w = Some (s_iso (scopes w s))"
| "context_target (OpGetContinuationData s) w = Some (s_iso (scopes w s))"
| "context_target (OpNewMicrotaskQueue i _) w = Some i"
| "context_target (OpQueueRaw m) w = Some (m_iso (queues w m))"
| "context_target (OpPerformCheckpoint m _) w = Some (m_iso (queues w m))"
| "context_target (OpEnqueue m _ _) w = Some (m_iso (queues w m))"
| "context_target (OpQueueClose m) w = Some (m_iso (queues w m))"
| "context_target (OpSetMicrotasksPolicy i _) w = Some i"
| "context_target (OpGetMicrotasksPolicy i) w = Some i"
| "context_target (OpPerformMicrotaskCheckpoint i) w = Some i"
| "context_target (OpSetMicrotaskQueue c _) w = Some (c_iso (contexts w c))"
| "context_target (OpGetMicrotaskQueue c) w = Some (c_iso (contexts w c))"
| "context_target (OpIsRunningMicrotasks m) w = Some (m_iso (queues w m))"
| "context_target (OpGetMicrotasksScopeDepth m) w = Some (m_iso (queues w m))"
| "context_target (OpNewContextWithOptions _ s _) w = Some (s_iso (scopes w s))"
| "context_target (OpContextFromSnapshot s _ _) w = Some (s_iso (scopes w s))"
| "context_target (OpContextEnter c) w = Some (c_iso (contexts w c))"
| "context_target (OpContextRefEnter r) w = Some (r_iso r)"
| "context_target (OpContextScopeClose x) w = Some (cs_iso (ctxScopes w x))"
| "context_target (OpContextRefIsEmpty r) w = Some (r_iso r)"
| "context_target (OpContextRefGlobalObject r _) w = Some (r_iso r)"
| "context_target (OpCurrentContext i _) w = Some i"
| "context_target (OpEnteredOrMicrotaskContext i _) w = Some i"
| "context_target (OpContextRefSameAs r _) w = Some (r_iso r)"
| "context_target (OpContextRefSameAsRef r _) w = Some (r_iso r)"

fun script_target :: "script_op \<Rightarrow> world \<Rightarrow> ref option" where
  "script_target (OpNewTryCatch i) w = Some i"
| "script_target (OpTryCatchClose x) w = Some (tc_iso (tryCatches w x))"
| "script_target (OpHasCaught x) w = Some (tc_iso (tryCatches w x))"
| "script_target (OpCanContinue x) w = Some (tc_iso (tryCatches w x))"
| "script_target (OpIsVerbose x) w = Some (tc_iso (tryCatches w x))"
| "script_target (OpSetVerbose x _) w = Some (tc_iso (tryCatches w x))"
| "script_target (OpSetCaptureMessage x _) w = Some (tc_iso (tryCatches w x))"
| "script_target (OpReset x) w = Some (tc_iso (tryCatches w x))"
| "script_target (OpMessageText x _ _) w = Some (tc_iso (tryCatches w x))"
| "script_target (OpExceptionText x _ _) w = Some (tc_iso (tryCatches w x))"
| "script_target (OpExceptionIsString x) w = Some (tc_iso (tryCatches w x))"
| "script_target (OpStartPosition x _) w = Some (tc_iso (tryCatches w x))"
| "script_target (OpStartColumn x _) w = Some (tc_iso (tryCatches w x))"
| "script_target (OpLineNumber x _ _) w = Some (tc_iso (tryCatches w x))"
| "script_target (OpCompile c _ _ _) w = Some (c_iso (contexts w c))"
| "script_target (OpScriptID x) w = Some (sc_iso (scripts w x))"
| "script_target (OpScriptClose x) w = Some (sc_iso (scripts w x))"

fun handle_target :: "handle_op \<Rightarrow> world \<Rightarrow> ref option" where
  "handle_target (OpNewGlobal s _) w = Some (s_iso (scopes w s))"
| "handle_target (OpGlobalClone g) w = Some (g_iso (globals w g))"
| "handle_target (OpGlobalEqual g _) w = Some (g_iso (globals w g))"
| "handle_target (OpGlobalToLocal g _) w = Some (g_iso (globals w g))"
| "handle_target (OpGlobalClose g) w = Some (g_iso (globals w g))"
| "handle_target (OpIntoRaw g) w = Some (g_iso (globals w g))"
| "handle_target (OpGlobalFromRaw i _) w = Some i"
| "handle_target (OpNewWeak _ g) w = Some (g_iso (globals w g))"
| "handle_target (OpNewWeakWithFinalizer _ g _) w = Some (g_iso (globals w g))"
| "handle_target (OpNewWeakWithGuaranteedFinalizer _ g _) w = Some (g_iso (globals w g))"
| "handle_target (OpWeakDispatch _) w = None"
| "handle_target (OpDrain i _) w = Some i"
| "handle_target (OpEmptyWeak i) w = Some i"
| "handle_target (OpWeakIsEmpty x) w = Some (w_iso (weaks w x))"
| "handle_target (OpWeakToLocal x _) w = Some (w_iso (weaks w x))"
| "handle_target (OpWeakToGlobal x) w = Some (w_iso (weaks w x))"
| "handle_target (OpWeakClone x) w = Some (w_iso (weaks w x))"
| "handle_target (OpEqualWeak x _) w = Some (w_iso (weaks w x))"
| "handle_target (OpEqualGlobal x _) w = Some (w_iso (weaks w x))"
| "handle_target (OpWeakClose x) w = Some (w_iso (weaks w x))"

fun target :: "api \<Rightarrow> world \<Rightarrow> ref option" where
  "target (Life (OpIsolateClose i)) w = Some i"
| "target (Life (OpRunIdleTasks mi _)) w = mi"
| "target (Life _) w = None"
| "target (Scp a) w = scope_target a w"
| "target (Ctx a) w = context_target a w"
| "target (Scr a) w = script_target a w"
| "target (Hnd a) w = handle_target a w"
| "target (Lck _) w = None"
| "target (Run x _ _ _) w = Some (sc_iso (scripts w x))"

text \<open>Closing a global or weak handle of an isolate that is gone only marks the wrapper.\<close>

fun wrapper_close :: "api \<Rightarrow> bool" where
  "wrapper_close (Hnd (OpGlobalClose _)) = True"
| "wrapper_close (Hnd (OpWeakClose _)) = True"
| "wrapper_close _ = False"

lemma checks_None:
  "Scope_check t s w = None \<longleftrightarrow> Isolate_check t (s_iso (scopes w s)) w = None \<and> \<not> s_closed (scopes w s)"
  "Context_check t c w = None \<longleftrightarrow> Isolate_check t (c_iso (contexts w c)) w = None \<and> \<not> c_closed (contexts w c)"
  "MicrotaskQueue_check t m w = None \<longleftrightarrow> Isolate_check t (m_iso (queues w m)) w = None \<and> \<not> m_closed (queues w m)"
  "TryCatch_check t x w = None \<longleftrightarrow> Isolate_check t (tc_iso (tryCatches w x)) w = None \<and> \<not> tc_closed (tryCatches w x)"
  "Script_check t y w = None \<longleftrightarrow> Isolate_check t (sc_iso (scripts w y)) w = None \<and> sc_state (scripts w y) = 0
     \<and> \<not> c_closed (contexts w (sc_ctx (scripts w y)))"
  "Global_check t g w = None \<longleftrightarrow> \<not> g_closed (globals w g) \<and> Isolate_check t (g_iso (globals w g)) w = None"
  "Weak_check t z w = None \<longleftrightarrow> \<not> w_closed (weaks w z) \<and> Isolate_check t (w_iso (weaks w z)) w = None"
  "EscapableScope_check t e w = None \<longleftrightarrow> Scope_check t (e_outer (escScopes w e)) w = None \<and> \<not> e_closed (escScopes w e)"
  "ContextRef_check t r w = None \<longleftrightarrow> Isolate_check t (r_iso r) w = None \<and> s_iso (scopes w (r_sc r)) = r_iso r
     \<and> \<not> s_closed (scopes w (r_sc r))"
  "JSGuard_checkCurrent k t d w = None \<longleftrightarrow> Isolate_check t (s_iso (scopes w (d_scope d))) w = None \<and> \<not> d_closed d
     \<and> \<not> s_closed (scopes w (d_scope d)) \<and> guardOnTop (scopes w (d_scope d)) (d_handle d)"
  by (auto simp: Scope_check_def Context_check_def MicrotaskQueue_check_def TryCatch_check_def Script_check_def
      Context_checkAssumingIsolate_def Global_check_def Weak_check_def EscapableScope_check_def ContextRef_check_def
      JSGuard_checkCurrent_def)

lemma handleChecked_refuse: "Isolate_check t i w = Some e \<Longrightarrow> handleChecked t i w = (Inl e, w)"
  by (simp add: handleChecked_def)

lemma checkedHandle_refuse: "Isolate_check t (s_iso (scopes w s)) w = Some e \<Longrightarrow> checkedHandle t s w = (Inl e, w)"
  by (simp add: checkedHandle_def Scope_check_def)

lemmas refuse_simps = snd_guarded checks_None handleChecked_refuse checkedHandle_refuse
  Disallow_checkCurrent_def Allow_checkCurrent_def

lemma scope_refuse:
  assumes "scope_target a w = Some i" "Isolate_check t i w = Some e"
  shows "scope_exec E t a w = w"
  using assms
  by (cases a) (simp_all add: refuse_simps NewScope_def Scope_Close_def constructPrimitive_def NewEscapableScope_def
      Escape_def EscapableScope_Close_def NewDisallowJavascriptExecutionScope_def
      NewAllowJavascriptExecutionScope_def Disallow_Close_def Allow_Close_def)

lemma context_refuse:
  assumes "context_target a w = Some i" "Isolate_check t i w = Some e"
  shows "context_exec E t a w = w"
  using assms
  by (cases a) (simp_all add: refuse_simps NewContext_def NewMicrotaskQueue_def SetMicrotasksPolicy_def
      GetMicrotasksPolicy_def PerformMicrotaskCheckpoint_def Context_Close_def GlobalObject_def
      GetExtrasBindingObject_def SetContinuationPreservedEmbedderData_def
      GetContinuationPreservedEmbedderData_def MicrotaskQueue_Raw_def PerformCheckpoint_def Enqueue_def
      MicrotaskQueue_Close_def SetMicrotaskQueue_def GetMicrotaskQueue_def IsRunningMicrotasks_def
      GetMicrotasksScopeDepth_def NewContextWithOptions_def ContextFromSnapshotWithOptions_def
      Context_Enter_def ContextRef_Enter_def ContextScope_Close_def ContextRef_IsEmpty_def
      ContextRef_GlobalObject_def CurrentContext_def EnteredOrMicrotaskContext_def observeContext_def
      ContextRef_SameAs_def ContextRef_SameAsRef_def Let_def)

lemma script_refuse:
  assumes "script_target a w = Some i" "Isolate_check t i w = Some e"
  shows "script_exec E t a w = w"
  using assms
  by (cases a) (simp_all add: refuse_simps NewTryCatch_def TryCatch_Close_def HasCaught_def CanContinue_def
      IsVerbose_def SetVerbose_def SetCaptureMessage_def Reset_def MessageText_def ExceptionText_def utf8Text_def
      ExceptionIsString_def StartPosition_def StartColumn_def messageOffset_def LineNumber_def Compile_def
      Script_ID_def Script_Close_def)

lemma handle_refuse:
  assumes "handle_target a w = Some i" "Isolate_check t i w = Some e" "\<not> wrapper_close (Hnd a)"
  shows "handle_exec E t a w = w"
  using assms
  by (cases a) (auto simp: refuse_simps NewGlobal_def Global_Clone_def Global_Equal_def Global_ToLocal_def
      IntoRaw_def GlobalFromRaw_def NewWeak_def NewWeakWithFinalizer_def NewWeakWithGuaranteedFinalizer_def
      newWeak_def DrainGuaranteedWeakFinalizers_def EmptyWeak_def Weak_IsEmpty_def Weak_ToLocal_def
      Weak_ToGlobal_def Weak_Clone_def EqualWeak_def EqualGlobal_def Let_def split: option.split)

lemma wrapper_close_refuse:
  assumes "Isolate_check t (g_iso (globals w g)) w = Some e"
  shows "calls (snd (Global_Close E t g w)) = calls w"
  using assms by (simp add: Global_Close_def setGlobal_def snd_guarded)

lemma weak_close_refuse:
  assumes "Isolate_check t (w_iso (weaks w x)) w = Some e"
  shows "calls (snd (Weak_Close E t x w)) = calls w"
  using assms by (simp add: Weak_Close_def unregisterWeakLiveness_def removeWeakEntry_def snd_guarded Let_def)

lemma refused_calls:
  assumes "target a w = Some i" "Isolate_check t i w = Some e" "live_inv w"
  shows "wrapper_close a \<or> exec E t a w = w" and "calls (exec E t a w) = calls w"
proof -
  show *: "wrapper_close a \<or> exec E t a w = w"
  proof (cases a)
    case (Life b)
    then show ?thesis using assms
      by (cases b) (auto simp: Isolate_Close_def RunIdleTasks_def snd_guarded live_inv_def Isolate_check_def
          split: if_splits)
  next
    case (Run x s mx as)
    then show ?thesis using assms by (simp add: Script_Run_def refuse_simps)
  next
    case (Hnd b)
    then show ?thesis using assms handle_refuse [of b w i t e E] by auto
  qed (use assms in \<open>auto simp: scope_refuse context_refuse script_refuse handle_refuse\<close>)
  show "calls (exec E t a w) = calls w"
    using * assms wrapper_close_refuse weak_close_refuse by (cases a rule: wrapper_close.cases) auto
qed

section \<open>What stays closed\<close>

text \<open>A closed scope and a closed isolate are never reopened.\<close>

definition scope_gone :: "ref \<Rightarrow> world \<Rightarrow> bool" where
  "scope_gone s w \<longleftrightarrow> s < nextRef w \<and> s_closed (scopes w s)"

definition isolate_gone :: "ref \<Rightarrow> world \<Rightarrow> bool" where
  "isolate_gone i w \<longleftrightarrow> i < nextRef w \<and> i_closed (isolates w i) \<and> i_closedState (isolates w i)"

lemma gone_heaps: "heaps w' = heaps w \<Longrightarrow> nextRef w \<le> nextRef w' \<Longrightarrow>
    scope_gone s w \<Longrightarrow> scope_gone s w'"
  by (auto simp: heaps_def scope_gone_def)

interpretation gone_scope_alloc: alloc_stable "scope_gone s" for s
  by unfold_locales (auto simp: scope_gone_def)

interpretation gone_scope_context: context_blind "scope_gone s" for s
proof
  fix w S
  assume "scope_gone s w"
    and S: "\<forall>s. (S s)\<lparr>s_activeBorrowedContextScopes := 0\<rparr> = (scopes w s)\<lparr>s_activeBorrowedContextScopes := 0\<rparr>"
  then show "scope_gone s (w\<lparr>scopes := S\<rparr>)"
    using fields_borrowed(2) [of "S s" "scopes w s"] by (simp add: scope_gone_def)
qed (simp_all add: scope_gone_def)

interpretation gone_scope_script: script_blind "scope_gone s" for s
  by unfold_locales (simp_all add: scope_gone_def)

interpretation gone_scope_handle: handle_blind "scope_gone s" for s
  by unfold_locales (simp_all add: scope_gone_def)

interpretation gone_scope_dispose: dispose_blind "scope_gone s" for s
  by unfold_locales (simp_all add: scope_gone_def)

lemma scope_gone_scope_exec: "scope_gone s w \<Longrightarrow> scope_gone s (scope_exec E t a w)"
  by (cases a)
    (auto simp: op_defs call_eqs outcome_simps Let_def scope_gone_def scope_stack_defs
      split: sum.splits option.splits)

lemma scope_gone_lifecycle: "scope_gone s w \<Longrightarrow> scope_gone s (lifecycle_exec E t a w)"
  using lifecycle_heaps [of E t a w] gone_heaps by blast

interpretation gone_scope: api_stable "scope_gone s" for s
  by unfold_locales (simp_all add: scope_gone_lifecycle scope_gone_scope_exec gone_scope_context.P_context_exec
      gone_scope_handle.P_handle_exec gone_scope_dispose.P_dispose_exec)

interpretation gone_iso_alloc: alloc_stable "isolate_gone i" for i
  by unfold_locales (auto simp: isolate_gone_def)

lemma iso_key_gone:
  "isolate_gone i w \<Longrightarrow> iso_key (I i) = iso_key (isolates w i) \<Longrightarrow> isolate_gone i (w\<lparr>isolates := I\<rparr>)"
  by (simp add: isolate_gone_def iso_key_def)

interpretation gone_iso_scope: scope_blind "isolate_gone i" for i
proof
  fix w I
  assume "isolate_gone i w" "\<forall>j. (I j)\<lparr>i_handleScopeStack := []\<rparr> = (isolates w j)\<lparr>i_handleScopeStack := []\<rparr>"
  then show "isolate_gone i (w\<lparr>isolates := I\<rparr>)" by (blast intro: iso_key_gone iso_key_stack)
qed (simp_all add: isolate_gone_def)

interpretation gone_iso_context: context_blind "isolate_gone i" for i
proof
  fix w I
  assume "isolate_gone i w" "\<forall>j. (I j)\<lparr>i_contextsCreated := False\<rparr> = (isolates w j)\<lparr>i_contextsCreated := False\<rparr>"
  then show "isolate_gone i (w\<lparr>isolates := I\<rparr>)" by (blast intro: iso_key_gone fields_created)
qed (simp_all add: isolate_gone_def)

interpretation gone_iso_script: script_blind "isolate_gone i" for i
  by unfold_locales (simp_all add: isolate_gone_def)

interpretation gone_iso_handle: handle_blind "isolate_gone i" for i
  by unfold_locales (simp_all add: isolate_gone_def)

interpretation gone_iso_locker: locker_blind "isolate_gone i" for i
proof
  fix w I
  assume "isolate_gone i w" "\<forall>j. (I j)\<lparr>i_tid := 0\<rparr> = (isolates w j)\<lparr>i_tid := 0\<rparr>"
  then show "isolate_gone i (w\<lparr>isolates := I\<rparr>)" by (blast intro: iso_key_gone fields_tid)
qed (simp_all add: isolate_gone_def)

lemma isolate_gone_locker: "isolate_gone i w \<Longrightarrow> isolate_gone i (locker_exec E t a w)"
proof (cases a)
  case (OpSharedClose j)
  assume "isolate_gone i w"
  then show ?thesis using OpSharedClose
    by (auto simp: SharedIsolate_Close_def LockOSThread_def UnlockOSThread_def publishClosedLocked_def
      unregisterIsolate_def callErr_eq outcome_simps Let_def isolate_gone_def split: option.split)
qed (auto intro: gone_iso_locker.P_locker_exec simp del: locker_exec.simps)

lemma isolate_gone_lifecycle: "isolate_gone i w \<Longrightarrow> isolate_gone i (lifecycle_exec E t a w)"
proof (cases a)
  case (OpIsolateClose j)
  assume "isolate_gone i w"
  then show ?thesis using OpIsolateClose Isolate_Close_state [of E t j w]
    by (auto simp: isolate_gone_def Isolate_teardown_state)
qed (auto simp: op_defs call_eqs outcome_simps Let_def isolate_gone_def split: option.splits sum.splits)

interpretation gone_iso: api_stable "isolate_gone i" for i
  by unfold_locales (simp_all add: isolate_gone_lifecycle gone_iso_scope.P_scope_exec
      gone_iso_context.P_context_exec gone_iso_handle.P_handle_exec isolate_gone_locker)

section \<open>The platform state\<close>

text \<open>Only the lifecycle operations touch it.\<close>

interpretation rank_alloc: alloc_stable "\<lambda>w. n \<le> platform_rank (platform w)" for n
  by unfold_locales auto

interpretation rank_scope: scope_blind "\<lambda>w. n \<le> platform_rank (platform w)" for n
  by unfold_locales auto

interpretation rank_context: context_blind "\<lambda>w. n \<le> platform_rank (platform w)" for n
  by unfold_locales auto

interpretation rank_script: script_blind "\<lambda>w. n \<le> platform_rank (platform w)" for n
  by unfold_locales auto

interpretation rank_handle: handle_blind "\<lambda>w. n \<le> platform_rank (platform w)" for n
  by unfold_locales auto

interpretation rank_dispose: dispose_blind "\<lambda>w. n \<le> platform_rank (platform w)" for n
  by unfold_locales auto

lemma rank_lifecycle:
  "n \<le> platform_rank (platform w) \<Longrightarrow> n \<le> platform_rank (platform (lifecycle_exec E t a w))"
  using lifecycle_platform_rank [of w E t a] by simp

interpretation rank: api_stable "\<lambda>w. n \<le> platform_rank (platform w)" for n
  by unfold_locales (simp_all add: rank_lifecycle rank_scope.P_scope_exec rank_context.P_context_exec
      rank_handle.P_handle_exec rank_dispose.P_dispose_exec)

section \<open>Concrete runs\<close>

text \<open>An engine that grants every request, and short runs on it that serve as examples.\<close>

definition steady :: engine where
  "steady cs c = \<lparr>r1 = 7, outs = [9, 1], data = ''''\<rparr>"

definition start :: "(tid \<times> api) list" where
  "start = [(1, Life OpInitialize), (1, Life OpNewIsolate)]"

lemmas eval_simps = op_defs check_defs call_eqs boot_def steady_def start_def sneg_def newIsolateStruct_def
  newScopeStruct_def scope_stack_defs currentHandleScope_def currentHandleScopeToken_def runs_def Let_def out_def
  Isolate_teardown_def Isolate_Close_def

end
