(* ===== verification/Values.thy ===== *)
theory Values
  imports Api
begin

text \<open>
  Scope-local values: the constructors, predicates, readers, conversions, string readers and
  property accesses of value.go, with the typed-cast guards of runtime_values.go that they share.
  None of them changes the binding's own state; each validates the value first and then makes a
  fixed number of boundary calls. Numbers of type float64 are their 64-bit patterns: the code only
  moves the bits.
\<close>

section \<open>Constructors\<close>

definition Undefined :: "engine \<Rightarrow> tid \<Rightarrow> ref \<Rightarrow> world \<Rightarrow> Value result" where
  [op_defs]: "Undefined E t s w = constructPrimitive E t s ''Undefined'' primitiveUndefined 0 w"

definition Null :: "engine \<Rightarrow> tid \<Rightarrow> ref \<Rightarrow> world \<Rightarrow> Value result" where
  [op_defs]: "Null E t s w = constructPrimitive E t s ''Null'' primitiveNull 0 w"

definition Boolean :: "engine \<Rightarrow> tid \<Rightarrow> ref \<Rightarrow> bool \<Rightarrow> world \<Rightarrow> Value result" where
  [op_defs]: "Boolean E t s b w = constructPrimitive E t s ''Boolean'' primitiveBoolean (if b then 1 else 0) w"

text \<open>\<open>uintptr(v)\<close> of an int32 extends the sign, of a uint32 it fills with zeros.\<close>

definition Int32 :: "engine \<Rightarrow> tid \<Rightarrow> ref \<Rightarrow> 32 word \<Rightarrow> world \<Rightarrow> Value result" where
  [op_defs]: "Int32 E t s n w = constructPrimitive E t s ''Int32'' primitiveInt32 (scast n) w"

definition Uint32 :: "engine \<Rightarrow> tid \<Rightarrow> ref \<Rightarrow> 32 word \<Rightarrow> world \<Rightarrow> Value result" where
  [op_defs]: "Uint32 E t s n w = constructPrimitive E t s ''Uint32'' primitiveUint32 (ucast n) w"

definition Number :: "engine \<Rightarrow> tid \<Rightarrow> ref \<Rightarrow> 64 word \<Rightarrow> world \<Rightarrow> Value result" where
  [op_defs]: "Number E t s bits w = constructPrimitive E t s ''Number'' primitiveNumber bits w"

definition BigIntFromInt64 :: "engine \<Rightarrow> tid \<Rightarrow> ref \<Rightarrow> 64 word \<Rightarrow> world \<Rightarrow> Value result" where
  [op_defs]: "BigIntFromInt64 E t s n w = constructPrimitive E t s ''BigIntFromInt64'' primitiveBigIntInt64 n w"

definition BigIntFromUint64 :: "engine \<Rightarrow> tid \<Rightarrow> ref \<Rightarrow> 64 word \<Rightarrow> world \<Rightarrow> Value result" where
  [op_defs]: "BigIntFromUint64 E t s n w = constructPrimitive E t s ''BigIntFromUint64'' primitiveBigIntUint64 n w"

definition EmptyString :: "engine \<Rightarrow> tid \<Rightarrow> ref \<Rightarrow> world \<Rightarrow> Value result" where
  [op_defs]: "EmptyString E t s w = constructPrimitive E t s ''EmptyString'' primitiveEmptyString 0 w"

definition newStringAssumingCheck :: "engine \<Rightarrow> tid \<Rightarrow> ref \<Rightarrow> string \<Rightarrow> world \<Rightarrow> Value result" where
  [op_defs]: "newStringAssumingCheck E t s str w =
     localCall E t ''NewString'' ''gov8_string_new_utf8''
       [W (handleAssumingCheck (s_iso (scopes w s)) w), W (s_handle (scopes w s)), Buf str, Out]
       (s_iso (scopes w s)) s w"

definition NewString :: "engine \<Rightarrow> tid \<Rightarrow> ref \<Rightarrow> string \<Rightarrow> world \<Rightarrow> Value result" where
  [op_defs]: "NewString E t s str w =
     guarded [Scope_check t s w, requireInitialized w] (newStringAssumingCheck E t s str) w"

section \<open>Predicates and readers\<close>

definition predicate :: "engine \<Rightarrow> tid \<Rightarrow> string \<Rightarrow> Value \<Rightarrow> world \<Rightarrow> bool result" where
  [op_defs]: "predicate E t p v w =
     guarded [Value_check t v w, requireInitialized w]
       (\<lambda>w. boolCall E t p p [W (handleAssumingCheck (v_iso v) w), W (v_h v)] w) w"

definition IsUndefined :: "engine \<Rightarrow> tid \<Rightarrow> Value \<Rightarrow> world \<Rightarrow> bool result" where
  [op_defs]: "IsUndefined E t v w = predicate E t ''gov8_is_undefined'' v w"

definition IsNull :: "engine \<Rightarrow> tid \<Rightarrow> Value \<Rightarrow> world \<Rightarrow> bool result" where
  [op_defs]: "IsNull E t v w = predicate E t ''gov8_is_null'' v w"

definition IsNullOrUndefined :: "engine \<Rightarrow> tid \<Rightarrow> Value \<Rightarrow> world \<Rightarrow> bool result" where
  [op_defs]: "IsNullOrUndefined E t v w = predicate E t ''gov8_is_null_or_undefined'' v w"

definition IsBoolean :: "engine \<Rightarrow> tid \<Rightarrow> Value \<Rightarrow> world \<Rightarrow> bool result" where
  [op_defs]: "IsBoolean E t v w = predicate E t ''gov8_is_boolean'' v w"

definition IsString :: "engine \<Rightarrow> tid \<Rightarrow> Value \<Rightarrow> world \<Rightarrow> bool result" where
  [op_defs]: "IsString E t v w = predicate E t ''gov8_is_string'' v w"

definition IsInt32 :: "engine \<Rightarrow> tid \<Rightarrow> Value \<Rightarrow> world \<Rightarrow> bool result" where
  [op_defs]: "IsInt32 E t v w = predicate E t ''gov8_is_int32'' v w"

definition IsUint32 :: "engine \<Rightarrow> tid \<Rightarrow> Value \<Rightarrow> world \<Rightarrow> bool result" where
  [op_defs]: "IsUint32 E t v w = predicate E t ''gov8_is_uint32'' v w"

definition IsNumber :: "engine \<Rightarrow> tid \<Rightarrow> Value \<Rightarrow> world \<Rightarrow> bool result" where
  [op_defs]: "IsNumber E t v w = predicate E t ''gov8_is_number'' v w"

definition IsObject :: "engine \<Rightarrow> tid \<Rightarrow> Value \<Rightarrow> world \<Rightarrow> bool result" where
  [op_defs]: "IsObject E t v w = predicate E t ''gov8_is_object'' v w"

definition IsArray :: "engine \<Rightarrow> tid \<Rightarrow> Value \<Rightarrow> world \<Rightarrow> bool result" where
  [op_defs]: "IsArray E t v w = predicate E t ''gov8_is_array'' v w"

definition IsFunction :: "engine \<Rightarrow> tid \<Rightarrow> Value \<Rightarrow> world \<Rightarrow> bool result" where
  [op_defs]: "IsFunction E t v w = predicate E t ''gov8_is_function'' v w"

definition IsBigInt :: "engine \<Rightarrow> tid \<Rightarrow> Value \<Rightarrow> world \<Rightarrow> bool result" where
  [op_defs]: "IsBigInt E t v w = predicate E t ''gov8_rv_is_big_int'' v w"

definition BooleanValue :: "engine \<Rightarrow> tid \<Rightarrow> Value \<Rightarrow> world \<Rightarrow> bool result" where
  [op_defs]: "BooleanValue E t v w =
     guarded [Value_check t v w, requireInitialized w]
       (\<lambda>w. boolCall E t ''BooleanValue'' ''gov8_boolean_value''
              [W (handleAssumingCheck (v_iso v) w), W (v_h v)] w) w"

definition IntegerValueRaw :: "engine \<Rightarrow> tid \<Rightarrow> Value \<Rightarrow> world \<Rightarrow> int result" where
  [op_defs]: "IntegerValueRaw E t v w =
     guarded [Value_check t v w, requireInitialized w]
       (\<lambda>w. andThen (callErr E t ''IntegerValueRaw'' ''gov8_integer_raw_value''
              [W (handleAssumingCheck (v_iso v) w), W (v_h v), Out] w) (\<lambda>r w. (Inr (sint (out r 0)), w))) w"

definition NumberValueRaw :: "engine \<Rightarrow> tid \<Rightarrow> Value \<Rightarrow> world \<Rightarrow> 64 word result" where
  [op_defs]: "NumberValueRaw E t v w =
     guarded [Value_check t v w, requireInitialized w]
       (\<lambda>w. andThen (callErr E t ''NumberValueRaw'' ''gov8_number_raw_value''
              [W (handleAssumingCheck (v_iso v) w), W (v_h v), Out] w) (\<lambda>r w. (Inr (out r 0), w))) w"

section \<open>Conversions through a context\<close>

text \<open>The context may be nil.\<close>

definition ctxHandle :: "tid \<Rightarrow> Value \<Rightarrow> ref option \<Rightarrow> world \<Rightarrow> error option" where
  [check_defs]: "ctxHandle t v mc w =
     first_err
       [Value_check t v w,
        (case mc of
           None \<Rightarrow> Some (Foreign KContext)
         | Some c \<Rightarrow> first_err [fail_if (c_iso (contexts w c) \<noteq> v_iso v) (Foreign KContext), Context_check t c w])]"

definition ctxWord :: "ref option \<Rightarrow> world \<Rightarrow> uintptr" where
  "ctxWord mc w = (case mc of None \<Rightarrow> 0 | Some c \<Rightarrow> c_handle (contexts w c))"

definition ToString :: "engine \<Rightarrow> tid \<Rightarrow> Value \<Rightarrow> ref option \<Rightarrow> world \<Rightarrow> string result" where
  [op_defs]: "ToString E t v mc w =
     guarded [ctxHandle t v mc w]
       (\<lambda>w. andThen (checkedHandleAssumingIsolate (v_sc v) w) (\<lambda>sh w.
              callTextFn ''ToString'' (\<lambda>cap w. shim E t ''gov8_value_to_string_utf8''
                [W (handleAssumingCheck (v_iso v) w), W (ctxWord mc w), W sh, W (v_h v), OutBuf cap, Out] w) w)) w"

text \<open>A conversion's answer: the converted bits, and whether the conversion went through.\<close>

definition convert :: "engine \<Rightarrow> tid \<Rightarrow> string \<Rightarrow> string \<Rightarrow> Value \<Rightarrow> ref option \<Rightarrow> world \<Rightarrow> (64 word \<times> bool) result" where
  [op_defs]: "convert E t oper p v mc w =
     guarded [ctxHandle t v mc w]
       (\<lambda>w. andThen (callErr E t oper p [W (i_handle (isolates w (v_iso v))), W (ctxWord mc w), W (v_h v), Out, Out] w)
              (\<lambda>r w. (Inr (out r 0, (ucast (out r 1) :: 32 word) = 1), w))) w"

definition IntegerValue :: "engine \<Rightarrow> tid \<Rightarrow> Value \<Rightarrow> ref option \<Rightarrow> world \<Rightarrow> (64 word \<times> bool) result" where
  [op_defs]: "IntegerValue E t v mc w = convert E t ''IntegerValue'' ''gov8_value_integer_value'' v mc w"

definition Int32Value :: "engine \<Rightarrow> tid \<Rightarrow> Value \<Rightarrow> ref option \<Rightarrow> world \<Rightarrow> (32 word \<times> bool) result" where
  [op_defs]: "Int32Value E t v mc w =
     andThen (convert E t ''Int32Value'' ''gov8_value_int32_value'' v mc w) (\<lambda>(x, ok) w. (Inr (ucast x, ok), w))"

text \<open>NumberValue's answer is the address of a per-thread cell of the shim that holds the float64
  bits, 0 when the conversion failed; the content of the cell is the first output.\<close>

definition NumberValue :: "engine \<Rightarrow> tid \<Rightarrow> Value \<Rightarrow> ref option \<Rightarrow> world \<Rightarrow> (64 word \<times> bool) result" where
  [op_defs]: "NumberValue E t v mc w =
     guarded [ctxHandle t v mc w]
       (\<lambda>w. andThen (callErr E t ''NumberValue'' ''gov8_value_number_value_direct''
              [W (i_handle (isolates w (v_iso v))), W (ctxWord mc w), W (v_h v)] w)
              (\<lambda>r w. if r1 r = 0 then (Inr (0, False), w) else (Inr (out r 0, True), w))) w"

text \<open>Uint32Value's answer is the number itself; \<open>2 ^ 32\<close> says that the conversion failed.\<close>

definition Uint32Value :: "engine \<Rightarrow> tid \<Rightarrow> Value \<Rightarrow> ref option \<Rightarrow> world \<Rightarrow> (32 word \<times> bool) result" where
  [op_defs]: "Uint32Value E t v mc w =
     guarded [ctxHandle t v mc w]
       (\<lambda>w. andThen (callErr E t ''Uint32Value'' ''gov8_value_uint32_value_direct''
              [W (i_handle (isolates w (v_iso v))), W (ctxWord mc w), W (v_h v)] w)
              (\<lambda>r w. if r1 r = push_bit 32 1 then (Inr (0, False), w) else (Inr (ucast (r1 r), True), w))) w"

section \<open>Typed casts\<close>

definition typedCast :: "(world \<Rightarrow> bool result) \<Rightarrow> string \<Rightarrow> tid \<Rightarrow> Value \<Rightarrow> world \<Rightarrow> Value result" where
  [op_defs]: "typedCast is k t v w =
     guarded [Value_check t v w]
       (\<lambda>w. andThen (is w) (\<lambda>ok w.
              if \<not> ok then (Inl (Misuse (''value is not a '' @ k)), w) else (Inr v, w))) w"

definition requireString :: "engine \<Rightarrow> tid \<Rightarrow> Value \<Rightarrow> world \<Rightarrow> unit result" where
  [op_defs]: "requireString E t v w =
     andThen (typedCast (IsString E t v) ''String'' t v w) (\<lambda>_ w. (Inr (), w))"

definition requireBigInt :: "engine \<Rightarrow> tid \<Rightarrow> Value \<Rightarrow> world \<Rightarrow> unit result" where
  [op_defs]: "requireBigInt E t v w =
     andThen (typedCast (IsBigInt E t v) ''BigInt'' t v w) (\<lambda>_ w. (Inr (), w))"

text \<open>What every string or BigInt reader does: the cast, the platform test, then the body.\<close>

definition onString :: "engine \<Rightarrow> tid \<Rightarrow> Value \<Rightarrow> (world \<Rightarrow> 'a result) \<Rightarrow> world \<Rightarrow> 'a result" where
  [op_defs]: "onString E t v body w = andThen (requireString E t v w) (\<lambda>_ w. guarded [requireInitialized w] body w)"

definition onBigInt :: "engine \<Rightarrow> tid \<Rightarrow> Value \<Rightarrow> (world \<Rightarrow> 'a result) \<Rightarrow> world \<Rightarrow> 'a result" where
  [op_defs]: "onBigInt E t v body w = andThen (requireBigInt E t v w) (\<lambda>_ w. guarded [requireInitialized w] body w)"

definition BigIntInt64 :: "engine \<Rightarrow> tid \<Rightarrow> Value \<Rightarrow> world \<Rightarrow> (64 word \<times> bool) result" where
  [op_defs]: "BigIntInt64 E t v w =
     onBigInt E t v (\<lambda>w. andThen (callErr E t ''BigIntInt64'' ''gov8_bigint_i64_value''
         [W (handleAssumingCheck (v_iso v) w), W (v_h v), Out, Out] w)
       (\<lambda>r w. (Inr (out r 0, (ucast (out r 1) :: 32 word) = 1), w))) w"

section \<open>Strings\<close>

text \<open>\<open>int(r1)\<close> of a status word that is not negative.\<close>

definition lengthCall :: "engine \<Rightarrow> tid \<Rightarrow> string \<Rightarrow> string \<Rightarrow> Value \<Rightarrow> world \<Rightarrow> int result" where
  [op_defs]: "lengthCall E t oper p v w =
     andThen (callErr E t oper p [W (handleAssumingCheck (v_iso v) w), W (v_h v)] w) (\<lambda>r w. (Inr (sint (r1 r)), w))"

definition Utf8Length :: "engine \<Rightarrow> tid \<Rightarrow> Value \<Rightarrow> world \<Rightarrow> int result" where
  [op_defs]: "Utf8Length E t v w = onString E t v (lengthCall E t ''Utf8Length'' ''gov8_string_utf8_length'' v) w"

definition Length :: "engine \<Rightarrow> tid \<Rightarrow> Value \<Rightarrow> world \<Rightarrow> int result" where
  [op_defs]: "Length E t v w = onString E t v (lengthCall E t ''Length'' ''gov8_string_length'' v) w"

definition utf8Bytes :: "engine \<Rightarrow> tid \<Rightarrow> Value \<Rightarrow> world \<Rightarrow> string result" where
  [op_defs]: "utf8Bytes E t v w =
     onString E t v (\<lambda>w.
       andThen (lengthCall E t ''Utf8Length'' ''gov8_string_utf8_length'' v w) (\<lambda>n w.
         if n = 0 then (Inr [], w)
         else andThen (callErr E t ''WriteUtf8'' ''gov8_string_write_utf8''
                 [W (handleAssumingCheck (v_iso v) w), W (v_h v), OutBuf n] w)
               (\<lambda>r w. let written = (if sint (r1 r) > n then n else sint (r1 r))
                      in (Inr (take (nat written) (bufAfter n (data r))), w)))) w"

definition StringValue :: "engine \<Rightarrow> tid \<Rightarrow> Value \<Rightarrow> world \<Rightarrow> string result" where
  [op_defs]: "StringValue E t v w = andThen (utf8Bytes E t v w) (\<lambda>b w. (Inr b, w))"

section \<open>Property access\<close>

definition GetByName :: "engine \<Rightarrow> tid \<Rightarrow> Value \<Rightarrow> ref \<Rightarrow> ref option \<Rightarrow> string \<Rightarrow> world \<Rightarrow> (Value \<times> bool) result" where
  [op_defs]: "GetByName E t ob s mc name w =
     guarded [ctxHandle t ob mc w, fail_if (s_iso (scopes w s) \<noteq> v_iso ob) (Foreign KScope)]
       (\<lambda>w. andThen (checkedHandleAssumingIsolate s w) (\<lambda>_ w.
            andThen (newStringAssumingCheck E t s name w) (\<lambda>key w.
            andThen (callErr E t ''Get'' ''gov8_object_get''
                [W (handleAssumingCheck (v_iso ob) w), W (ctxWord mc w), W (s_handle (scopes w s)), W (v_h ob),
                 W (v_h key), Out, Out] w)
              (\<lambda>r w. (Inr (\<lparr>v_iso = v_iso ob, v_sc = s, v_h = out r 0\<rparr>, (ucast (out r 1) :: 32 word) = 1), w))))) w"

definition SetByName :: "engine \<Rightarrow> tid \<Rightarrow> Value \<Rightarrow> ref \<Rightarrow> ref option \<Rightarrow> string \<Rightarrow> Value \<Rightarrow> world \<Rightarrow> bool result" where
  [op_defs]: "SetByName E t ob s mc name v w =
     guarded [ctxHandle t ob mc w, fail_if (s_iso (scopes w s) \<noteq> v_iso ob) (Foreign KScope)]
       (\<lambda>w. andThen (checkedHandleAssumingIsolate s w) (\<lambda>_ w.
            guarded [Value_check t v w, fail_if (v_iso v \<noteq> v_iso ob) (Foreign KValue)]
              (\<lambda>w. andThen (newStringAssumingCheck E t s name w) (\<lambda>key w.
                   andThen (callErr E t ''Set'' ''gov8_object_set''
                       [W (handleAssumingCheck (v_iso ob) w), W (ctxWord mc w), W (s_handle (scopes w s)),
                        W (v_h ob), W (v_h key), W (v_h v), Out] w)
                     (\<lambda>r w. (Inr ((ucast (out r 0) :: 32 word) = 1), w)))) w)) w"

section \<open>The operations as steps\<close>

datatype value_op =
    VPredicate string | VBooleanValue | VIntegerValueRaw | VNumberValueRaw
  | VToString "ref option" | VIntegerValue "ref option" | VInt32Value "ref option" | VNumberValue "ref option"
  | VUint32Value "ref option" | VBigIntInt64 | VUtf8Length | VLength | VStringValue
  | VGetByName ref "ref option" string | VSetByName ref "ref option" string Value

fun value_exec :: "engine \<Rightarrow> tid \<Rightarrow> Value \<Rightarrow> value_op \<Rightarrow> world \<Rightarrow> world" where
  "value_exec E t v (VPredicate p) w = snd (predicate E t p v w)"
| "value_exec E t v VBooleanValue w = snd (BooleanValue E t v w)"
| "value_exec E t v VIntegerValueRaw w = snd (IntegerValueRaw E t v w)"
| "value_exec E t v VNumberValueRaw w = snd (NumberValueRaw E t v w)"
| "value_exec E t v (VToString mc) w = snd (ToString E t v mc w)"
| "value_exec E t v (VIntegerValue mc) w = snd (IntegerValue E t v mc w)"
| "value_exec E t v (VInt32Value mc) w = snd (Int32Value E t v mc w)"
| "value_exec E t v (VNumberValue mc) w = snd (NumberValue E t v mc w)"
| "value_exec E t v (VUint32Value mc) w = snd (Uint32Value E t v mc w)"
| "value_exec E t v VBigIntInt64 w = snd (BigIntInt64 E t v w)"
| "value_exec E t v VUtf8Length w = snd (Utf8Length E t v w)"
| "value_exec E t v VLength w = snd (Length E t v w)"
| "value_exec E t v VStringValue w = snd (StringValue E t v w)"
| "value_exec E t v (VGetByName s mc name) w = snd (GetByName E t v s mc name w)"
| "value_exec E t v (VSetByName s mc name x) w = snd (SetByName E t v s mc name x w)"

text \<open>A dead value is refused by its first test, in every operation.\<close>

lemma value_exec_refused: "Value_check t v w \<noteq> None \<Longrightarrow> value_exec E t v a w = w"
  by (cases a)
    (auto simp: op_defs ctxHandle_def outcome_simps)

text \<open>What the operations do to the state: some boundary calls, nothing else.\<close>

definition logged :: "world \<Rightarrow> world \<Rightarrow> bool" where
  "logged w w' \<longleftrightarrow> (\<exists>cs. w' = w\<lparr>calls := calls w @ cs\<rparr>)"

lemma logged_refl: "logged w w"
  unfolding logged_def by (intro exI [of _ "[]"]) simp

interpretation log: stable "logged w" for w
  by unfold_locales (auto simp: logged_def called_def)

context stable
begin

lemma P_callTextFn: "P w \<Longrightarrow> (\<And>n w'. P w' \<Longrightarrow> P (snd (fn n w'))) \<Longrightarrow> P (snd (callTextFn oper fn w))"
  by (auto simp: callTextFn_def split_def Let_def)

lemma P_requireString: "P w \<Longrightarrow> P (snd (requireString E t v w))"
  by (auto simp: requireString_def typedCast_def IsString_def predicate_def boolCall_def intro!: P_rules)

lemma P_requireBigInt: "P w \<Longrightarrow> P (snd (requireBigInt E t v w))"
  by (auto simp: requireBigInt_def typedCast_def IsBigInt_def predicate_def boolCall_def intro!: P_rules)

lemma P_value_exec: "P w \<Longrightarrow> P (value_exec E t v a w)"
  by (cases a)
    (auto simp: predicate_def BooleanValue_def IntegerValueRaw_def NumberValueRaw_def ToString_def IntegerValue_def
      Int32Value_def NumberValue_def Uint32Value_def BigIntInt64_def Utf8Length_def Length_def StringValue_def
      utf8Bytes_def GetByName_def SetByName_def newStringAssumingCheck_def convert_def onString_def onBigInt_def lengthCall_def boolCall_def localCall_def
      checkedHandleAssumingIsolate_def call_eqs Let_def
      intro!: P_rules P_callTextFn P_requireString P_requireBigInt)

end

lemma value_exec_logged: "logged w (value_exec E t v a w)"
  by (rule log.P_value_exec) (rule logged_refl)

end
