(* ===== verification/Strings.thy ===== *)
theory Strings
  imports Values
begin

text \<open>
  strings_bigint.go. The first part is pure: the conversion of Latin-1 bytes to UTF-8 in a memory
  where the two slices may overlap, against a reference encoding and a UTF-8 decoder. The second
  part is the operations on strings and BigInts that only read the engine. The third part has
  state: views of strings, and external strings whose release is observed by a deleter, kept in a
  registry beside the state of the other components.
\<close>

unbundle bit_operations_syntax

section \<open>UTF-8\<close>

fun inRange :: "nat \<Rightarrow> nat \<Rightarrow> nat \<Rightarrow> bool" where
  "inRange lo hi b \<longleftrightarrow> lo \<le> b \<and> b \<le> hi"

fun utf8Decode :: "nat list \<Rightarrow> nat list option" where
  "utf8Decode [] = Some []"
| "utf8Decode (a # xs) =
     (if a < 0x80 then map_option (Cons a) (utf8Decode xs)
      else case xs of
        [] \<Rightarrow> None
      | b # ys \<Rightarrow>
          if inRange 0xC2 0xDF a \<and> inRange 0x80 0xBF b
          then map_option (Cons ((a - 0xC0) * 64 + (b - 0x80))) (utf8Decode ys)
          else case ys of
            [] \<Rightarrow> None
          | c # zs \<Rightarrow>
              if inRange 0xE0 0xEF a \<and> inRange (if a = 0xE0 then 0xA0 else 0x80) (if a = 0xED then 0x9F else 0xBF) b
                 \<and> inRange 0x80 0xBF c
              then map_option (Cons ((a - 0xE0) * 4096 + (b - 0x80) * 64 + (c - 0x80))) (utf8Decode zs)
              else case zs of
                [] \<Rightarrow> None
              | d # us \<Rightarrow>
                  if inRange 0xF0 0xF4 a \<and> inRange (if a = 0xF0 then 0x90 else 0x80) (if a = 0xF4 then 0x8F else 0xBF) b
                     \<and> inRange 0x80 0xBF c \<and> inRange 0x80 0xBF d
                  then map_option (Cons ((a - 0xF0) * 262144 + (b - 0x80) * 4096 + (c - 0x80) * 64 + (d - 0x80)))
                         (utf8Decode us)
                  else None)"

section \<open>Latin1ToUTF8\<close>

type_synonym memory = "uintptr \<Rightarrow> 8 word"

record slice =
  sl_ptr :: uintptr
  sl_len :: nat

definition bytesOf :: "memory \<Rightarrow> slice \<Rightarrow> 8 word list" where
  "bytesOf m sl = map (\<lambda>k. m (sl_ptr sl + of_nat k)) [0..<sl_len sl]"

definition slicesOverlap :: "slice \<Rightarrow> slice \<Rightarrow> bool" where
  "slicesOverlap a b \<longleftrightarrow>
     \<not> (sl_len a = 0 \<or> sl_len b = 0)
     \<and> sl_ptr a < sl_ptr b + of_nat (sl_len b) \<and> sl_ptr b < sl_ptr a + of_nat (sl_len a)"

datatype input = Live slice | Copied "8 word list"

fun inputLen :: "input \<Rightarrow> nat" where
  "inputLen (Live sl) = sl_len sl"
| "inputLen (Copied bs) = length bs"

fun inputByte :: "input \<Rightarrow> memory \<Rightarrow> nat \<Rightarrow> 8 word" where
  "inputByte (Live sl) m k = m (sl_ptr sl + of_nat k)"
| "inputByte (Copied bs) m k = bs ! k"

fun latin1Loop :: "input \<Rightarrow> uintptr \<Rightarrow> nat \<Rightarrow> nat \<Rightarrow> nat \<Rightarrow> memory \<Rightarrow> nat \<times> memory" where
  "latin1Loop inp p 0 k written m = (written, m)"
| "latin1Loop inp p (Suc r) k written m =
     (let c = inputByte inp m k in
      if c < 0x80 then latin1Loop inp p r (Suc k) (written + 1) (m(p + of_nat written := c))
      else latin1Loop inp p r (Suc k) (written + 2)
             (m(p + of_nat written := 0xc0 OR drop_bit 6 c,
                p + of_nat (written + 1) := 0x80 OR (c AND 0x3f))))"

definition maxInt :: nat where
  "maxInt = 2 ^ 63 - 1"

definition Latin1ToUTF8 :: "slice \<Rightarrow> slice \<Rightarrow> memory \<Rightarrow> (error, nat, memory) outcome" where
  "Latin1ToUTF8 input output m =
     (if sl_len input > maxInt div 2 then (Inl (Misuse ''Latin1ToUTF8: input too large''), m)
      else let required = sl_len input * 2 in
        if sl_len output < required
        then (Inl (MisuseCount ''Latin1ToUTF8: output capacity is less than required'' required), m)
        else let inp = (if slicesOverlap input (output\<lparr>sl_len := required\<rparr>) then Copied (bytesOf m input) else Live input);
                 (n, m') = latin1Loop inp (sl_ptr output) (inputLen inp) 0 0 m
             in (Inr n, m'))"

text \<open>The reference: the encoding of the code points of Latin-1, and bytes stored one after another.\<close>

fun latin1Enc :: "8 word \<Rightarrow> 8 word list" where
  "latin1Enc c = (if c < 0x80 then [c] else [0xc0 OR drop_bit 6 c, 0x80 OR (c AND 0x3f)])"

definition latin1Utf8 :: "8 word list \<Rightarrow> 8 word list" where
  "latin1Utf8 bs = concat (map latin1Enc bs)"

primrec store :: "uintptr \<Rightarrow> nat \<Rightarrow> 8 word list \<Rightarrow> memory \<Rightarrow> memory" where
  "store p k [] m = m"
| "store p k (b # bs) m = store p (Suc k) bs (m(p + of_nat k := b))"

text \<open>A slice lies within the address space.\<close>

definition valid_slice :: "slice \<Rightarrow> bool" where
  "valid_slice sl \<longleftrightarrow> unat (sl_ptr sl) + sl_len sl < 2 ^ 64"

lemma unat_offset:
  assumes "unat p + n < 2 ^ 64"
  shows "unat (p + of_nat n :: uintptr) = unat p + n"
proof -
  from assms have n: "n < 2 ^ 64" by simp
  have "unat (of_nat n :: uintptr) = take_bit 64 n" using unsigned_of_nat [where 'a = nat and 'b = 64, of n] by simp
  also have "take_bit 64 n = n" using n by (rule take_bit_nat_eq_self)
  finally have "unat (of_nat n :: uintptr) = n" .
  then show ?thesis using unat_add_lem [of p "of_nat n"] assms by simp
qed

lemma offset_inj:
  assumes "unat p + i < 2 ^ 64" "unat p + j < 2 ^ 64" "(p :: uintptr) + of_nat i = p + of_nat j"
  shows "i = j"
  using arg_cong [OF assms(3), of unat] unat_offset [OF assms(1)] unat_offset [OF assms(2)] by linarith

lemma disjoint_slices:
  assumes "valid_slice a" "valid_slice b" "\<not> slicesOverlap a b" "i < sl_len a" "j < sl_len b"
  shows "sl_ptr a + of_nat i \<noteq> sl_ptr b + of_nat j"
proof
  assume "sl_ptr a + of_nat i = sl_ptr b + of_nat j"
  then have "unat (sl_ptr a) + i = unat (sl_ptr b) + j"
    using assms unat_offset [of "sl_ptr a" i] unat_offset [of "sl_ptr b" j] by (simp add: valid_slice_def)
  moreover have "\<not> (sl_ptr a < sl_ptr b + of_nat (sl_len b) \<and> sl_ptr b < sl_ptr a + of_nat (sl_len a))"
    using assms by (auto simp: slicesOverlap_def)
  ultimately show False
    using assms by (auto simp: word_less_nat_alt unat_offset valid_slice_def)
qed

lemma latin1Loop_store:
  assumes "\<And>m' k. \<forall>a. a \<notin> R \<longrightarrow> m' a = m0 a \<Longrightarrow> k < length bs \<Longrightarrow> inputByte inp m' k = bs ! k"
    and "\<And>j. j < 2 * length bs \<Longrightarrow> p + of_nat j \<in> R"
    and "k + r = length bs" "written \<le> 2 * k" "\<forall>a. a \<notin> R \<longrightarrow> m a = m0 a"
  shows "latin1Loop inp p r k written m
    = (written + length (latin1Utf8 (drop k bs)), store p written (latin1Utf8 (drop k bs)) m)"
  using assms(3-)
proof (induction r arbitrary: k written m)
  case (Suc r)
  then have k: "k < length bs" by simp
  then have d: "drop k bs = bs ! k # drop (Suc k) bs" by (simp add: Cons_nth_drop_Suc)
  have c: "inputByte inp m k = bs ! k" using assms(1) [OF Suc.prems(3) k] .
  have R: "p + of_nat written \<in> R" "p + of_nat (Suc written) \<in> R"
    using Suc.prems k by (intro assms(2); simp)+
  then have m: "\<forall>a. a \<notin> R \<longrightarrow> (m(p + of_nat written := x)) a = m0 a"
      "\<forall>a. a \<notin> R \<longrightarrow> (m(p + of_nat written := x, p + of_nat (Suc written) := y)) a = m0 a" for x y
    using Suc.prems(3) by (auto simp del: of_nat_Suc)
  show ?case
    using Suc.IH [of "Suc k" "Suc written" "m(p + of_nat written := bs ! k)"] m
      Suc.IH [of "Suc k" "Suc (Suc written)" "m(p + of_nat written := 0xc0 OR drop_bit 6 (bs ! k),
         p + of_nat (Suc written) := 0x80 OR (bs ! k AND 0x3f))"] Suc.prems
    by (simp add: c d latin1Utf8_def Let_def fun_upd_def del: of_nat_Suc)
qed (simp add: latin1Utf8_def)

lemma store_frame: "a \<notin> (\<lambda>j. p + of_nat j) ` {k..<k + length bs} \<Longrightarrow> store p k bs m a = m a"
proof (induction bs arbitrary: k m)
  case (Cons b bs)
  then have "a \<notin> (\<lambda>j. p + of_nat j) ` {Suc k..<Suc k + length bs}" "a \<noteq> p + of_nat k" by force+
  with Cons.IH show ?case by simp
qed simp

lemma store_read:
  assumes "unat p + (k + length bs) < 2 ^ 64" "i < length bs"
  shows "store p k bs m (p + of_nat (k + i)) = bs ! i"
  using assms
proof (induction bs arbitrary: k i m)
  case (Cons b bs)
  show ?case
  proof (cases i)
    case 0
    have "p + of_nat k \<notin> (\<lambda>j. p + of_nat j) ` {Suc k..<Suc k + length bs}"
    proof
      assume "p + of_nat k \<in> (\<lambda>j. p + of_nat j) ` {Suc k..<Suc k + length bs}"
      then obtain j where "Suc k \<le> j" "j < Suc k + length bs" "p + of_nat k = p + of_nat j" by auto
      with offset_inj [of p k j] Cons.prems show False by simp
    qed
    with 0 show ?thesis by (simp add: store_frame)
  next
    case (Suc i')
    with Cons.IH [of "Suc k" i' "m(p + of_nat k := b)"] Cons.prems show ?thesis by (simp add: fun_upd_def)
  qed
qed simp

lemma length_latin1Utf8: "length (latin1Utf8 bs) \<le> 2 * length bs"
  by (induction bs) (auto simp: latin1Utf8_def)

lemma Latin1ToUTF8_eq:
  assumes "valid_slice input" "valid_slice output" "sl_len input \<le> maxInt div 2" "2 * sl_len input \<le> sl_len output"
  shows "Latin1ToUTF8 input output m
    = (Inr (length (latin1Utf8 (bytesOf m input))), store (sl_ptr output) 0 (latin1Utf8 (bytesOf m input)) m)"
proof -
  let ?out = "output\<lparr>sl_len := sl_len input * 2\<rparr>" and ?bs = "bytesOf m input"
  let ?inp = "if slicesOverlap input ?out then Copied ?bs else Live input"
  let ?R = "(\<lambda>j. sl_ptr output + of_nat j) ` {0..<2 * length ?bs}"
  have len: "inputLen ?inp = length ?bs" "length ?bs = sl_len input" by (simp_all add: bytesOf_def)
  have out: "valid_slice ?out" using assms by (simp add: valid_slice_def)
  have rd: "inputByte ?inp m' k = ?bs ! k" if "\<forall>a. a \<notin> ?R \<longrightarrow> m' a = m a" "k < length ?bs" for m' k
  proof (cases "slicesOverlap input ?out")
    case False
    have "sl_ptr input + of_nat k \<notin> ?R"
      using disjoint_slices [OF assms(1) out False] that(2) len(2) by auto
    then have "m' (sl_ptr input + of_nat k) = m (sl_ptr input + of_nat k)" using that(1) by blast
    with False that(2) len(2) show ?thesis by (simp add: bytesOf_def)
  qed simp
  have "latin1Loop ?inp (sl_ptr output) (length ?bs) 0 0 m
      = (0 + length (latin1Utf8 (drop 0 ?bs)), store (sl_ptr output) 0 (latin1Utf8 (drop 0 ?bs)) m)"
    by (rule latin1Loop_store [OF rd]) auto
  then show ?thesis using assms(3,4) len(1) by (simp add: Latin1ToUTF8_def Let_def)
qed

lemma lead_byte: "unat (0xc0 OR drop_bit 6 c :: 8 word) = 0xC0 + unat c div 64"
proof -
  have n: "unat (drop_bit 6 c) = unat c div 64" by (simp add: drop_bit_eq_div unat_div)
  have "unat c < 256" using unsigned_less [of c] by simp
  moreover have "0xc0 + drop_bit 6 c = 0xc0 OR drop_bit 6 c"
  proof (rule disjunctive_add)
    fix k
    have "\<not> bit (drop_bit 6 c) k" if "2 \<le> k" using that by (auto simp: bit_drop_bit_eq dest: bit_imp_le_length)
    moreover have "\<not> bit (0xc0 :: 8 word) 0" "\<not> bit (0xc0 :: 8 word) 1" by (simp_all add: bit_numeral_rec)
    moreover have "2 \<le> k \<or> k = 0 \<or> k = 1" by linarith
    ultimately show "\<not> bit (0xc0 :: 8 word) k \<or> \<not> bit (drop_bit 6 c) k" by blast
  qed
  ultimately show ?thesis by (simp add: unat_word_ariths n flip: \<open>0xc0 + drop_bit 6 c = 0xc0 OR drop_bit 6 c\<close>)
qed

lemma next_byte: "unat (0x80 OR (c AND 0x3f) :: 8 word) = 0x80 + unat c mod 64"
proof -
  have m: "c AND 0x3f = take_bit 6 c" by (simp add: take_bit_eq_mask mask_eq_exp_minus_1)
  have n: "unat (take_bit 6 c) = unat c mod 64" by (simp add: take_bit_eq_mod unat_mod)
  have "0x80 + take_bit 6 c = 0x80 OR take_bit 6 c"
    by (rule disjunctive_add) (auto simp: bit_take_bit_iff bit_numeral_rec less_Suc_eq eval_nat_numeral)
  moreover have "unat c mod 64 < 64" by simp
  ultimately show ?thesis unfolding m
    by (simp add: unat_word_ariths n flip: \<open>0x80 + take_bit 6 c = 0x80 OR take_bit 6 c\<close>)
qed

lemma latin1Enc_decodes: "utf8Decode (map unat (latin1Enc c) @ ns) = map_option (Cons (unat c)) (utf8Decode ns)"
proof (cases "c < 0x80")
  case True
  then show ?thesis by (simp add: word_less_nat_alt)
next
  case False
  then have "128 \<le> unat c" by (simp add: word_less_nat_alt)
  moreover have "unat c < 256" using unsigned_less [of c] by simp
  ultimately have "inRange 0xC2 0xDF (0xC0 + unat c div 64)" "inRange 0x80 0xBF (0x80 + unat c mod 64)" by auto
  with False show ?thesis by (simp add: lead_byte next_byte)
qed

lemma latin1Utf8_decodes: "utf8Decode (map unat (latin1Utf8 bs)) = Some (map unat bs)"
  by (induction bs) (simp_all add: latin1Utf8_def latin1Enc_decodes del: latin1Enc.simps)

section \<open>Creation\<close>

definition maxInt32 :: int where
  "maxInt32 = 2 ^ 31 - 1"

type_synonym NewStringType = "8 word"

text \<open>The body shared by the creation operations: a length test, then one call whose output is the
  handle.\<close>

definition newStringFromBuf :: "engine \<Rightarrow> tid \<Rightarrow> ref \<Rightarrow> string \<Rightarrow> string \<Rightarrow> string \<Rightarrow> NewStringType \<Rightarrow> world \<Rightarrow> Value result" where
  [op_defs]: "newStringFromBuf E t s oper p b ty w =
     guarded [Scope_check t s w, requireInitialized w,
              fail_if (int (length b) > maxInt32) (Misuse (oper @ '': input longer than int32 range''))]
       (\<lambda>w. localCall E t oper p
              [W (handleAssumingCheck (s_iso (scopes w s)) w), W (s_handle (scopes w s)), Buf b, W (ucast ty), Out]
              (s_iso (scopes w s)) s w) w"

definition NewStringFromUTF8 :: "engine \<Rightarrow> tid \<Rightarrow> ref \<Rightarrow> string \<Rightarrow> NewStringType \<Rightarrow> world \<Rightarrow> Value result" where
  [op_defs]: "NewStringFromUTF8 E t s b ty w =
     newStringFromBuf E t s ''NewStringFromUTF8'' ''gov8_sb_string_new_from_utf8'' b ty w"

definition NewStringFromOneByte :: "engine \<Rightarrow> tid \<Rightarrow> ref \<Rightarrow> string \<Rightarrow> NewStringType \<Rightarrow> world \<Rightarrow> Value result" where
  [op_defs]: "NewStringFromOneByte E t s b ty w =
     newStringFromBuf E t s ''NewStringFromOneByte'' ''gov8_sb_string_new_from_one_byte'' b ty w"

text \<open>The bytes of a slice of UTF-16 code units on a little-endian machine.\<close>

definition unitsToBytes :: "16 word list \<Rightarrow> string" where
  "unitsToBytes us = concat (map (\<lambda>u. [char_of (unat u mod 256), char_of (unat u div 256)]) us)"

text \<open>A slice of units crosses the boundary as its bytes and the number of units.\<close>

definition NewStringFromTwoByte :: "engine \<Rightarrow> tid \<Rightarrow> ref \<Rightarrow> 16 word list \<Rightarrow> NewStringType \<Rightarrow> world \<Rightarrow> Value result" where
  [op_defs]: "NewStringFromTwoByte E t s us ty w =
     guarded [Scope_check t s w, requireInitialized w,
              fail_if (int (length us) > maxInt32) (Misuse ''NewStringFromTwoByte: input longer than int32 range'')]
       (\<lambda>w. localCall E t ''NewStringFromTwoByte'' ''gov8_sb_string_new_from_two_byte''
              [W (handleAssumingCheck (s_iso (scopes w s)) w), W (s_handle (scopes w s)), Buf (unitsToBytes us),
               W (of_nat (length us)), W (ucast ty), Out]
              (s_iso (scopes w s)) s w) w"

definition ConcatString :: "engine \<Rightarrow> tid \<Rightarrow> ref \<Rightarrow> Value \<Rightarrow> Value \<Rightarrow> world \<Rightarrow> Value result" where
  [op_defs]: "ConcatString E t s left right w =
     guarded [Scope_check t s w, requireInitialized w]
       (\<lambda>w. andThen (requireString E t left w) (\<lambda>_ w.
            andThen (requireString E t right w) (\<lambda>_ w.
            guarded [fail_if (v_iso left \<noteq> s_iso (scopes w s)) (Foreign KValue),
                     fail_if (v_iso right \<noteq> s_iso (scopes w s)) (Foreign KValue)]
              (\<lambda>w. andThen (callErr E t ''ConcatString'' ''gov8_sb_string_concat''
                      [W (handleAssumingCheck (s_iso (scopes w s)) w), W (s_handle (scopes w s)), W (v_h left),
                       W (v_h right), Out] w)
                    (\<lambda>r w. if out r 0 = 0
                       then (Inl (Misuse ''ConcatString failed (result longer than StringMaxLength?)''), w)
                       else (Inr \<lparr>v_iso = s_iso (scopes w s), v_sc = s, v_h = out r 0\<rparr>, w))) w))) w"

definition StringMaxLength :: "engine \<Rightarrow> tid \<Rightarrow> world \<Rightarrow> int result" where
  [op_defs]: "StringMaxLength E t w =
     guarded [requireInitialized w]
       (\<lambda>w. andThen (callErr E t ''StringMaxLength'' ''gov8_sb_string_max_length'' [] w)
              (\<lambda>r w. (Inr (sint (r1 r)), w))) w"

section \<open>Representation predicates\<close>

definition sbPredicate :: "engine \<Rightarrow> tid \<Rightarrow> string \<Rightarrow> Value \<Rightarrow> world \<Rightarrow> bool result" where
  [op_defs]: "sbPredicate E t p v w =
     guarded [requireInitialized w] (\<lambda>w. boolCall E t p p [W (handleAssumingCheck (v_iso v) w), W (v_h v)] w) w"

definition IsOneByte :: "engine \<Rightarrow> tid \<Rightarrow> Value \<Rightarrow> world \<Rightarrow> bool result" where
  [op_defs]: "IsOneByte E t v w =
     andThen (requireString E t v w) (\<lambda>_. sbPredicate E t ''gov8_sb_string_is_one_byte'' v)"

definition ContainsOnlyOneByte :: "engine \<Rightarrow> tid \<Rightarrow> Value \<Rightarrow> world \<Rightarrow> bool result" where
  [op_defs]: "ContainsOnlyOneByte E t v w =
     andThen (requireString E t v w) (\<lambda>_. sbPredicate E t ''gov8_sb_string_contains_only_one_byte'' v)"

definition IsExternalString :: "engine \<Rightarrow> tid \<Rightarrow> Value \<Rightarrow> world \<Rightarrow> bool result" where
  [op_defs]: "IsExternalString E t v w =
     andThen (requireString E t v w) (\<lambda>_. sbPredicate E t ''gov8_sb_string_is_external'' v)"

definition IsExternalOneByte :: "engine \<Rightarrow> tid \<Rightarrow> Value \<Rightarrow> world \<Rightarrow> bool result" where
  [op_defs]: "IsExternalOneByte E t v w =
     andThen (requireString E t v w) (\<lambda>_. sbPredicate E t ''gov8_sb_string_is_external_onebyte'' v)"

definition IsExternalTwoByte :: "engine \<Rightarrow> tid \<Rightarrow> Value \<Rightarrow> world \<Rightarrow> bool result" where
  [op_defs]: "IsExternalTwoByte E t v w =
     andThen (requireString E t v w) (\<lambda>_. sbPredicate E t ''gov8_sb_string_is_external_twobyte'' v)"

section \<open>Writes\<close>

type_synonym WriteFlags = "32 word"

definition WriteNullTerminate :: WriteFlags where
  "WriteNullTerminate = 1"

definition WriteReplaceInvalidUTF8 :: WriteFlags where
  "WriteReplaceInvalidUTF8 = 2"

text \<open>A Go buffer after the shim wrote \<open>d\<close> to its start.\<close>

definition overlay :: "'a list \<Rightarrow> 'a list \<Rightarrow> 'a list" where
  "overlay b d = take (length b) d @ drop (length d) b"

definition writeRange :: "engine \<Rightarrow> tid \<Rightarrow> Value \<Rightarrow> string \<Rightarrow> int \<Rightarrow> int \<Rightarrow> bool \<Rightarrow> world \<Rightarrow> int result" where
  [op_defs]: "writeRange E t v oper offset capacity nullTerminate w =
     guarded [fail_if (offset < 0) (Misuse (oper @ '': negative offset'')),
              fail_if (capacity < 0) (Misuse (oper @ '': negative buffer capacity''))]
       (\<lambda>w. andThen (Length E t v w) (\<lambda>strLen w.
            guarded [fail_if (offset > strLen) (Misuse (oper @ '': offset beyond string length''))]
              (\<lambda>w. let n = (if strLen - offset > capacity then capacity else strLen - offset)
                   in if nullTerminate \<and> n + 1 > capacity
                      then (Inl (Misuse (oper @ '': buffer capacity does not hold the units plus the NUL terminator'')), w)
                      else (Inr n, w)) w)) w"

text \<open>\<open>uintptr(uint32(n))\<close> and \<open>uintptr(int32(f))\<close>.\<close>

definition uint32Word :: "int \<Rightarrow> uintptr" where
  "uint32Word n = ucast (word_of_int n :: 32 word)"

definition WriteTwoByte :: "engine \<Rightarrow> tid \<Rightarrow> Value \<Rightarrow> int \<Rightarrow> 16 word list \<Rightarrow> WriteFlags \<Rightarrow> world \<Rightarrow> (int \<times> string) result" where
  [op_defs]: "WriteTwoByte E t v offset b flags w =
     andThen (writeRange E t v ''WriteTwoByte'' offset (int (length b)) (and flags WriteNullTerminate \<noteq> 0) w) (\<lambda>n w.
     andThen (callErr E t ''WriteTwoByte'' ''gov8_sb_string_write''
         [W (handleAssumingCheck (v_iso v) w), W (v_h v), W (uint32Word offset), W (uint32Word n),
          OutBuf (2 * int (length b)), W (scast flags)] w)
       (\<lambda>r w. (Inr (n, overlay (unitsToBytes b) (data r)), w)))"

definition WriteOneByte :: "engine \<Rightarrow> tid \<Rightarrow> Value \<Rightarrow> int \<Rightarrow> string \<Rightarrow> WriteFlags \<Rightarrow> world \<Rightarrow> (int \<times> string) result" where
  [op_defs]: "WriteOneByte E t v offset b flags w =
     andThen (writeRange E t v ''WriteOneByte'' offset (int (length b)) (and flags WriteNullTerminate \<noteq> 0) w) (\<lambda>n w.
     andThen (callErr E t ''WriteOneByte'' ''gov8_sb_string_write_one_byte''
         [W (handleAssumingCheck (v_iso v) w), W (v_h v), W (uint32Word offset), W (uint32Word n),
          OutBuf (int (length b)), W (scast flags)] w)
       (\<lambda>r w. (Inr (n, overlay b (data r)), w)))"

definition WriteUTF8 :: "engine \<Rightarrow> tid \<Rightarrow> Value \<Rightarrow> string \<Rightarrow> WriteFlags \<Rightarrow> world \<Rightarrow> (int \<times> int \<times> string) result" where
  [op_defs]: "WriteUTF8 E t v b flags w =
     onString E t v (\<lambda>w.
       guarded [fail_if (and flags (not (or WriteNullTerminate WriteReplaceInvalidUTF8)) \<noteq> 0)
                  (Misuse ''WriteUTF8: invalid WriteFlags''),
                fail_if (and flags WriteNullTerminate \<noteq> 0 \<and> length b < 1)
                  (Misuse ''WriteUTF8: WriteNullTerminate requires buffer capacity >= 1'')]
         (\<lambda>w. andThen (callErr E t ''WriteUTF8'' ''gov8_sb_string_write_utf8''
                 [W (handleAssumingCheck (v_iso v) w), W (v_h v), OutBuf (int (length b)), W (scast flags), Out] w)
               (\<lambda>r w. (Inr (sint (r1 r), sint (out r 0), overlay b (data r)), w))) w) w"

section \<open>External strings without a deleter\<close>

definition externalCall :: "engine \<Rightarrow> tid \<Rightarrow> ref \<Rightarrow> string \<Rightarrow> string \<Rightarrow> arg list \<Rightarrow> world \<Rightarrow> Value result" where
  [op_defs]: "externalCall E t s oper p args w =
     andThen (callHandle E t oper p (W (handleAssumingCheck (s_iso (scopes w s)) w) # W (s_handle (scopes w s)) # args) w)
       (\<lambda>h w. (Inr \<lparr>v_iso = s_iso (scopes w s), v_sc = s, v_h = h\<rparr>, w))"

definition newExternalString :: "engine \<Rightarrow> tid \<Rightarrow> ref \<Rightarrow> string \<Rightarrow> string \<Rightarrow> string \<Rightarrow> world \<Rightarrow> Value result" where
  [op_defs]: "newExternalString E t s oper p b w =
     guarded [Scope_check t s w, requireInitialized w] (externalCall E t s oper p [Buf b]) w"

definition newExternalStringUnits :: "engine \<Rightarrow> tid \<Rightarrow> ref \<Rightarrow> string \<Rightarrow> string \<Rightarrow> 16 word list \<Rightarrow> world \<Rightarrow> Value result" where
  [op_defs]: "newExternalStringUnits E t s oper p us w =
     guarded [Scope_check t s w, requireInitialized w]
       (externalCall E t s oper p [Buf (unitsToBytes us), W (of_nat (length us))]) w"

definition NewExternalOneByteStringStatic :: "engine \<Rightarrow> tid \<Rightarrow> ref \<Rightarrow> string \<Rightarrow> world \<Rightarrow> Value result" where
  [op_defs]: "NewExternalOneByteStringStatic E t s b w =
     newExternalString E t s ''NewExternalOneByteStringStatic'' ''gov8_sb_external_onebyte_static_new'' b w"

definition NewExternalTwoByteStringStatic :: "engine \<Rightarrow> tid \<Rightarrow> ref \<Rightarrow> 16 word list \<Rightarrow> world \<Rightarrow> Value result" where
  [op_defs]: "NewExternalTwoByteStringStatic E t s us w =
     newExternalStringUnits E t s ''NewExternalTwoByteStringStatic'' ''gov8_sb_external_twobyte_static_new'' us w"

definition NewExternalOneByteString :: "engine \<Rightarrow> tid \<Rightarrow> ref \<Rightarrow> string \<Rightarrow> world \<Rightarrow> Value result" where
  [op_defs]: "NewExternalOneByteString E t s b w =
     newExternalString E t s ''NewExternalOneByteString'' ''gov8_sb_external_onebyte_owned_new'' b w"

definition NewExternalTwoByteString :: "engine \<Rightarrow> tid \<Rightarrow> ref \<Rightarrow> 16 word list \<Rightarrow> world \<Rightarrow> Value result" where
  [op_defs]: "NewExternalTwoByteString E t s us w =
     newExternalStringUnits E t s ''NewExternalTwoByteString'' ''gov8_sb_external_twobyte_owned_new'' us w"

record ExternalOneByteConst =
  eo_data :: string
  eo_handle :: uintptr

text \<open>After the call the code takes the address of the first byte of its copy, to keep it alive; with
  no byte there this is an index panic.\<close>

definition CreateExternalOneByteConst :: "engine \<Rightarrow> tid \<Rightarrow> string \<Rightarrow> world \<Rightarrow> ExternalOneByteConst result" where
  [op_defs]: "CreateExternalOneByteConst E t d w =
     guarded [requireInitialized w,
              fail_if (\<exists>c \<in> set d. (of_char c :: nat) > 0x7F) (Misuse ''CreateExternalOneByteConst: byte is not ASCII'')]
       (\<lambda>w. andThen (callHandle E t ''CreateExternalOneByteConst'' ''gov8_sb_external_onebyte_const_create'' [Buf d] w)
              (\<lambda>h w. if d = [] then (Inl (Misuse ''panic: index out of range''), w)
                     else (Inr \<lparr>eo_data = d, eo_handle = h\<rparr>, w))) w"

definition NewStringFromOneByteConst :: "engine \<Rightarrow> tid \<Rightarrow> ref \<Rightarrow> ExternalOneByteConst option \<Rightarrow> world \<Rightarrow> Value result" where
  [op_defs]: "NewStringFromOneByteConst E t s mr w =
     guarded [Scope_check t s w, requireInitialized w]
       (\<lambda>w. case mr of
              None \<Rightarrow> (Inl (Misuse ''nil or invalid const resource''), w)
            | Some r \<Rightarrow>
                if eo_handle r = 0 then (Inl (Misuse ''nil or invalid const resource''), w)
                else externalCall E t s ''NewStringFromOneByteConst'' ''gov8_sb_external_onebyte_const_string_new''
                       [W (eo_handle r)] w) w"

section \<open>Resources of external strings\<close>

definition int64Cell :: "int \<Rightarrow> nat \<Rightarrow> resp \<Rightarrow> int" where
  "int64Cell old k r = (if k < length (outs r) then sint (outs r ! k) else old)"

definition wordCell :: "uintptr \<Rightarrow> nat \<Rightarrow> resp \<Rightarrow> uintptr" where
  "wordCell old k r = (if k < length (outs r) then outs r ! k else old)"

text \<open>The first call asks for the size with an empty buffer; the outputs are the resource and the
  length.\<close>

definition externalResourceText :: "engine \<Rightarrow> tid \<Rightarrow> string \<Rightarrow> string \<Rightarrow> Value \<Rightarrow> world \<Rightarrow> (uintptr \<times> string \<times> bool) result" where
  [op_defs]: "externalResourceText E t oper p v w =
     onString E t v (\<lambda>w.
       let (r, w1) = shim E t p [W (handleAssumingCheck (v_iso v) w), W (v_h v), Out, OutBuf 0, Out] w;
           res = wordCell 0 0 r; n = int64Cell 0 1 r
       in if sint (r1 r) \<noteq> errNoMemory \<and> sneg (r1 r) then (Inl (ShimError oper (r1 r)), w1)
          else if res = 0 then (Inr (0, [], False), w1)
          else if n \<le> 0 then (Inr (res, [], True), w1)
          else let (q, w2) = shim E t p [W (handleAssumingCheck (v_iso v) w1), W (v_h v), Out, OutBuf n, Out] w1;
                   res' = wordCell res 0 q; m = int64Cell n 1 q
               in if sneg (r1 q) then (Inl (ShimError oper (r1 q)), w2)
                  else let k = (if m < 0 \<or> m > n then n else m)
                       in (Inr (res', take (nat k) (bufAfter n (data q)), True), w2)) w"

definition GetExternalOneByteStringResource :: "engine \<Rightarrow> tid \<Rightarrow> Value \<Rightarrow> world \<Rightarrow> (uintptr \<times> string \<times> bool) result" where
  [op_defs]: "GetExternalOneByteStringResource E t v w =
     externalResourceText E t ''GetExternalOneByteStringResource'' ''gov8_sb_external_onebyte_resource'' v w"

definition GetExternalStringResource :: "engine \<Rightarrow> tid \<Rightarrow> Value \<Rightarrow> world \<Rightarrow> (uintptr \<times> bool) result" where
  [op_defs]: "GetExternalStringResource E t v w =
     onString E t v (\<lambda>w. andThen (callErr E t ''GetExternalStringResource'' ''gov8_sb_external_string_resource_generic''
         [W (handleAssumingCheck (v_iso v) w), W (v_h v), Out] w) (\<lambda>r w. (Inr (out r 0, out r 0 \<noteq> 0), w))) w"

definition GetExternalStringResourceBase :: "engine \<Rightarrow> tid \<Rightarrow> Value \<Rightarrow> world \<Rightarrow> (uintptr \<times> 32 word \<times> bool) result" where
  [op_defs]: "GetExternalStringResourceBase E t v w =
     onString E t v (\<lambda>w. andThen (callErr E t ''GetExternalStringResourceBase'' ''gov8_sb_external_string_resource_base''
         [W (handleAssumingCheck (v_iso v) w), W (v_h v), Out, Out] w)
       (\<lambda>r w. (Inr (out r 0, ucast (out r 1), out r 0 \<noteq> 0), w))) w"

section \<open>BigInt words\<close>

definition tcArg :: "tid \<Rightarrow> ref \<Rightarrow> ref option \<Rightarrow> world \<Rightarrow> uintptr result" where
  [op_defs]: "tcArg t i mx w =
     (case mx of
        None \<Rightarrow> (Inr 0, w)
      | Some x \<Rightarrow> guarded [fail_if (tc_iso (tryCatches w x) \<noteq> i) (Foreign KTryCatch), TryCatch_check t x w]
          (\<lambda>w. (Inr (tc_handle (tryCatches w x)), w)) w)"

text \<open>The words of a slice, as arguments.\<close>

definition BigIntFromWords :: "engine \<Rightarrow> tid \<Rightarrow> ref \<Rightarrow> ref option \<Rightarrow> bool \<Rightarrow> 64 word list \<Rightarrow> ref option \<Rightarrow> world \<Rightarrow> Value result" where
  [op_defs]: "BigIntFromWords E t s mc neg ws mx w =
     guarded
       [Scope_check t s w, requireInitialized w,
        (case mc of
           None \<Rightarrow> Some (Foreign KContext)
         | Some c \<Rightarrow> first_err [fail_if (c_iso (contexts w c) \<noteq> s_iso (scopes w s)) (Foreign KContext),
                                Context_checkAssumingIsolate c w])]
       (\<lambda>w. andThen (tcArg t (s_iso (scopes w s)) mx w) (\<lambda>tcv w.
            guarded [fail_if (int (length ws) > maxInt32) (Misuse ''BigIntFromWords: word count exceeds int32 range'')]
              (\<lambda>w. localCall E t ''BigIntFromWords'' ''gov8_sb_bigint_new_from_words''
                     ([W (handleAssumingCheck (s_iso (scopes w s)) w), W (ctxWord mc w), W (s_handle (scopes w s)), W tcv,
                       W (if neg then 1 else 0)] @ map W ws @ [W (of_nat (length ws)), Out])
                     (s_iso (scopes w s)) s w) w)) w"

definition BigIntUint64 :: "engine \<Rightarrow> tid \<Rightarrow> Value \<Rightarrow> world \<Rightarrow> (64 word \<times> bool) result" where
  [op_defs]: "BigIntUint64 E t v w =
     onBigInt E t v (\<lambda>w. andThen (callErr E t ''BigIntUint64'' ''gov8_sb_bigint_u64_value''
         [W (handleAssumingCheck (v_iso v) w), W (v_h v), Out, Out] w)
       (\<lambda>r w. (Inr (out r 0, (ucast (out r 1) :: 32 word) = 1), w))) w"

definition BigIntWordCount :: "engine \<Rightarrow> tid \<Rightarrow> Value \<Rightarrow> world \<Rightarrow> int result" where
  [op_defs]: "BigIntWordCount E t v w =
     onBigInt E t v (lengthCall E t ''BigIntWordCount'' ''gov8_sb_bigint_word_count'' v) w"

text \<open>The outputs are the sign, the number of words, and the words written to the buffer.\<close>

definition BigIntToWords :: "engine \<Rightarrow> tid \<Rightarrow> Value \<Rightarrow> 64 word list \<Rightarrow> world \<Rightarrow> (bool \<times> 64 word list) result" where
  [op_defs]: "BigIntToWords E t v b w =
     onBigInt E t v (\<lambda>w.
       guarded [fail_if (int (length b) > maxInt32) (Misuse ''BigIntToWords: capacity exceeds int32 range'')]
         (\<lambda>w. andThen (callErr E t ''BigIntToWords'' ''gov8_sb_bigint_to_words_array''
                 [W (handleAssumingCheck (v_iso v) w), W (v_h v), OutBuf (8 * int (length b)), Out, Out] w)
               (\<lambda>r w. let written = int64Cell 0 1 r;
                          k = (if written < 0 \<or> written > int (length b) then int (length b) else written)
                      in (Inr (out r 0 = 1, take (nat k) (overlay b (drop 2 (outs r)))), w))) w) w"

section \<open>Views and observed external strings\<close>

text \<open>A view keeps its source value; the registry of deleters maps numbers to Go closures, themselves
  numbers. \<open>deleted\<close> is a log: the registry number of each deleter that ran, with the address and
  the length it was given.\<close>

record StringView =
  sv_iso :: ref
  sv_src :: Value
  sv_handle :: uintptr
  sv_closed :: bool

record strsys =
  sbase :: world
  views :: "ref \<Rightarrow> StringView"
  nextView :: nat
  sbNext :: nat
  sbEntries :: "nat \<rightharpoonup> nat option"
  sbDeleterErr :: "error option option"
  deleted :: "(nat \<times> uintptr \<times> uintptr) list"

type_synonym 'a sresult = "(error, 'a, strsys) outcome"

definition onBase :: "(world \<Rightarrow> 'a result) \<Rightarrow> strsys \<Rightarrow> 'a sresult" where
  [op_defs]: "onBase = lift sbase (\<lambda>w s. s\<lparr>sbase := w\<rparr>)"

definition NewStringView :: "engine \<Rightarrow> tid \<Rightarrow> ref \<Rightarrow> Value \<Rightarrow> strsys \<Rightarrow> ref sresult" where
  [op_defs]: "NewStringView E t s v x =
     guarded [Scope_check t s (sbase x), requireInitialized (sbase x)]
       (\<lambda>x. andThen (onBase (requireString E t v) x) (\<lambda>_ x.
            guarded [fail_if (v_iso v \<noteq> s_iso (scopes (sbase x) s)) (Foreign KValue)]
              (\<lambda>x. andThen (onBase (\<lambda>w. callHandle E t ''NewStringView'' ''gov8_sb_value_view_construct''
                              [W (handleAssumingCheck (s_iso (scopes w s)) w), W (v_h v)] w) x)
                    (\<lambda>h x. let k = nextView x
                           in (Inr k, x\<lparr>views := (views x)(k := \<lparr>sv_iso = s_iso (scopes (sbase x) s), sv_src = v,
                                 sv_handle = h, sv_closed = False\<rparr>), nextView := Suc k\<rparr>))) x)) x"

definition StringView_check :: "tid \<Rightarrow> ref \<Rightarrow> strsys \<Rightarrow> error option" where
  [check_defs]: "StringView_check t k x =
     first_err
       [fail_if (sv_closed (views x k)) (Misuse ''string view used after Close''),
        Scope_check t (v_sc (sv_src (views x k))) (sbase x),
        fail_if (sv_handle (views x k) = 0) (Misuse ''zero string view handle'')]"

definition StringView_Info :: "engine \<Rightarrow> tid \<Rightarrow> ref \<Rightarrow> strsys \<Rightarrow> (bool \<times> int) sresult" where
  [op_defs]: "StringView_Info E t k x =
     guarded [StringView_check t k x]
       (onBase (\<lambda>w. andThen (callErr E t ''StringView.Info'' ''gov8_sb_value_view_info''
            [W (sv_handle (views x k)), Out, Out] w) (\<lambda>r w. (Inr (out r 0 = 1, sint (out r 1)), w)))) x"

definition StringView_Copy :: "engine \<Rightarrow> tid \<Rightarrow> ref \<Rightarrow> string \<Rightarrow> strsys \<Rightarrow> (int \<times> string) sresult" where
  [op_defs]: "StringView_Copy E t k b x =
     guarded [StringView_check t k x]
       (onBase (\<lambda>w. andThen (callErr E t ''StringView.Copy'' ''gov8_sb_value_view_copy''
            [W (sv_handle (views x k)), OutBuf (int (length b))] w) (\<lambda>r w. (Inr (sint (r1 r), overlay b (data r)), w)))) x"

text \<open>A negative size and a slice bound past the buffer are panics.\<close>

definition StringView_Bytes :: "engine \<Rightarrow> tid \<Rightarrow> ref \<Rightarrow> strsys \<Rightarrow> (string \<times> bool) sresult" where
  [op_defs]: "StringView_Bytes E t k x =
     andThen (StringView_Info E t k x) (\<lambda>(oneByte, len) x.
       let size = len * (if oneByte then 1 else 2) in
       if size < 0 then (Inl (Misuse ''panic: makeslice: len out of range''), x)
       else andThen (StringView_Copy E t k (replicate (nat size) (CHR 0x00)) x) (\<lambda>(n, b) x.
              if n > size then (Inl (Misuse ''panic: slice bounds out of range''), x)
              else (Inr (take (nat n) b, oneByte), x)))"

definition StringView_Close :: "engine \<Rightarrow> tid \<Rightarrow> ref \<Rightarrow> strsys \<Rightarrow> unit sresult" where
  [op_defs]: "StringView_Close E t k x =
     guarded
       [fail_if (sv_closed (views x k)) (Misuse ''string view already closed''),
        Scope_check t (v_sc (sv_src (views x k))) (sbase x),
        requireInitialized (sbase x)]
       (\<lambda>x. let (r, w) = shim E t ''gov8_sb_value_view_destruct'' [W (sv_handle (views x k))] (sbase x);
                x1 = x\<lparr>sbase := w, views := (views x)(k := (views x k)\<lparr>sv_closed := True\<rparr>)\<rparr>
            in if sneg (r1 r) then (Inl (ShimError ''StringView.Close'' (r1 r)), x1) else (Inr (), x1)) x"

text \<open>The trampoline is installed once; its outcome is kept.\<close>

definition installSbDeleterEntry :: "engine \<Rightarrow> tid \<Rightarrow> uintptr \<Rightarrow> strsys \<Rightarrow> unit sresult" where
  [op_defs]: "installSbDeleterEntry E t entry x =
     (case sbDeleterErr x of
        Some None \<Rightarrow> (Inr (), x)
      | Some (Some e) \<Rightarrow> (Inl e, x)
      | None \<Rightarrow>
          (case onBase (callErr E t ''SbDeleterEntry'' ''gov8_sb_external_deleter_set_entry'' [W entry]) x of
             (Inl e, x) \<Rightarrow> (Inl e, x\<lparr>sbDeleterErr := Some (Some e)\<rparr>)
           | (Inr _, x) \<Rightarrow> (Inr (), x\<lparr>sbDeleterErr := Some None\<rparr>)))"

text \<open>The two raw creations differ in how the data and its length cross the boundary.\<close>

definition newExternalRaw :: "engine \<Rightarrow> tid \<Rightarrow> uintptr \<Rightarrow> ref \<Rightarrow> string \<Rightarrow> string \<Rightarrow> arg list \<Rightarrow> nat option \<Rightarrow> strsys \<Rightarrow> (Value \<times> uintptr) sresult" where
  [op_defs]: "newExternalRaw E t entry s oper p dataArgs deleter x =
     guarded [Scope_check t s (sbase x), requireInitialized (sbase x),
              fail_if (deleter = None) (Misuse (oper @ '': nil deleter''))]
       (\<lambda>x. andThen (installSbDeleterEntry E t entry x) (\<lambda>_ x.
              let ident = Suc (sbNext x);
                  x1 = x\<lparr>sbNext := ident, sbEntries := (sbEntries x)(ident \<mapsto> deleter)\<rparr>;
                  w = sbase x1;
                  (r, w1) = shim E t p ([W (handleAssumingCheck (s_iso (scopes w s)) w), W (s_handle (scopes w s))]
                              @ dataArgs @ [W (of_nat ident), Out]) w;
                  x2 = x1\<lparr>sbase := w1\<rparr>
              in if r1 r = 0
                 then (Inl (ShimError oper 0), x2\<lparr>sbEntries := (sbEntries x2)(ident := None)\<rparr>)
                 else (Inr (\<lparr>v_iso = s_iso (scopes w s), v_sc = s, v_h = r1 r\<rparr>, out r 0), x2))) x"

definition newExternalStringRaw :: "engine \<Rightarrow> tid \<Rightarrow> uintptr \<Rightarrow> ref \<Rightarrow> string \<Rightarrow> string \<Rightarrow> string \<Rightarrow> nat option \<Rightarrow> strsys \<Rightarrow> (Value \<times> uintptr) sresult" where
  [op_defs]: "newExternalStringRaw E t entry s oper p b deleter x = newExternalRaw E t entry s oper p [Buf b] deleter x"

definition newExternalStringRawUnits :: "engine \<Rightarrow> tid \<Rightarrow> uintptr \<Rightarrow> ref \<Rightarrow> string \<Rightarrow> string \<Rightarrow> 16 word list \<Rightarrow> nat option \<Rightarrow> strsys \<Rightarrow> (Value \<times> uintptr) sresult" where
  [op_defs]: "newExternalStringRawUnits E t entry s oper p us deleter x =
     newExternalRaw E t entry s oper p [Buf (unitsToBytes us), W (of_nat (length us))] deleter x"

definition NewExternalOneByteStringRaw :: "engine \<Rightarrow> tid \<Rightarrow> uintptr \<Rightarrow> ref \<Rightarrow> string \<Rightarrow> nat option \<Rightarrow> strsys \<Rightarrow> (Value \<times> uintptr) sresult" where
  [op_defs]: "NewExternalOneByteStringRaw E t entry s b deleter x =
     newExternalStringRaw E t entry s ''NewExternalOneByteStringRaw'' ''gov8_sb_external_onebyte_raw_new'' b deleter x"

definition NewExternalTwoByteStringRaw :: "engine \<Rightarrow> tid \<Rightarrow> uintptr \<Rightarrow> ref \<Rightarrow> 16 word list \<Rightarrow> nat option \<Rightarrow> strsys \<Rightarrow> (Value \<times> uintptr) sresult" where
  [op_defs]: "NewExternalTwoByteStringRaw E t entry s us deleter x =
     newExternalStringRawUnits E t entry s ''NewExternalTwoByteStringRaw'' ''gov8_sb_external_twobyte_raw_new'' us deleter x"

text \<open>The engine finalizes a raw string. Numbers stay below \<open>2 ^ 63\<close>, where the conversion of the word
  to int64 is the identity.\<close>

definition goSbDeleterDispatch :: "uintptr \<Rightarrow> uintptr \<Rightarrow> uintptr \<Rightarrow> strsys \<Rightarrow> strsys" where
  [op_defs]: "goSbDeleterDispatch idw d len x =
     (case sbEntries x (unat idw) of
        None \<Rightarrow> x
      | Some fn \<Rightarrow>
          let x1 = x\<lparr>sbEntries := (sbEntries x)(unat idw := None)\<rparr>
          in (case fn of
                None \<Rightarrow> x1
              | Some _ \<Rightarrow> x1\<lparr>deleted := deleted x1 @ [(unat idw, d, len)]\<rparr>))"

datatype string_op =
    SCore api | SValue Value value_op | SNewView ref Value | SViewInfo ref | SViewCopy ref string | SViewBytes ref
  | SViewClose ref | SRawOneByte ref string "nat option" | SRawTwoByte ref "16 word list" "nat option"
  | SDelete uintptr uintptr uintptr

fun string_exec :: "engine \<Rightarrow> tid \<Rightarrow> uintptr \<Rightarrow> string_op \<Rightarrow> strsys \<Rightarrow> strsys" where
  "string_exec E t en (SCore a) x = x\<lparr>sbase := exec E t a (sbase x)\<rparr>"
| "string_exec E t en (SValue v a) x = x\<lparr>sbase := value_exec E t v a (sbase x)\<rparr>"
| "string_exec E t en (SNewView s v) x = snd (NewStringView E t s v x)"
| "string_exec E t en (SViewInfo k) x = snd (StringView_Info E t k x)"
| "string_exec E t en (SViewCopy k b) x = snd (StringView_Copy E t k b x)"
| "string_exec E t en (SViewBytes k) x = snd (StringView_Bytes E t k x)"
| "string_exec E t en (SViewClose k) x = snd (StringView_Close E t k x)"
| "string_exec E t en (SRawOneByte s b d) x = snd (NewExternalOneByteStringRaw E t en s b d x)"
| "string_exec E t en (SRawTwoByte s us d) x = snd (NewExternalTwoByteStringRaw E t en s us d x)"
| "string_exec E t en (SDelete i d len) x = goSbDeleterDispatch i d len x"

definition string_runs :: "engine \<Rightarrow> uintptr \<Rightarrow> (tid \<times> string_op) list \<Rightarrow> strsys \<Rightarrow> strsys" where
  "string_runs E en tr x = foldl (\<lambda>x (t, a). string_exec E t en a x) x tr"

definition string_boot :: "world \<Rightarrow> strsys" where
  "string_boot w = \<lparr>sbase = w, views = (\<lambda>_. \<lparr>sv_iso = 0, sv_src = \<lparr>v_iso = 0, v_sc = 0, v_h = 0\<rparr>, sv_handle = 0,
     sv_closed = True\<rparr>), nextView = 0, sbNext = 0, sbEntries = Map.empty, sbDeleterErr = None, deleted = []\<rparr>"

text \<open>Numbers are handed out in order; one that was used is not registered again.\<close>

definition deleters_core :: "nat \<Rightarrow> (nat \<rightharpoonup> 'a) \<Rightarrow> nat list \<Rightarrow> bool" where
  "deleters_core n M D \<longleftrightarrow>
     distinct D \<and> (\<forall>i \<in> dom M \<union> set D. 0 < i \<and> i \<le> n) \<and> dom M \<inter> set D = {}"

definition deleters_ok :: "strsys \<Rightarrow> bool" where
  "deleters_ok x \<longleftrightarrow> deleters_core (sbNext x) (sbEntries x) (map fst (deleted x))"

lemma deleters_core_insert:
  assumes "deleters_core n M D"
  shows "deleters_core (Suc n) (M(Suc n \<mapsto> z)) D"
proof -
  have "Suc n \<notin> set D" using assms by (fastforce simp: deleters_core_def ball_Un)
  with assms show ?thesis by (simp add: deleters_core_def ball_Un le_SucI)
qed

lemma deleters_core_Suc: "deleters_core n M D \<Longrightarrow> deleters_core (Suc n) M D"
  by (simp add: deleters_core_def ball_Un le_SucI)

lemma deleters_core_run:
  "deleters_core n M D \<Longrightarrow> M i = Some z \<Longrightarrow> deleters_core n (M(i := None)) (D @ [i])"
  "deleters_core n M D \<Longrightarrow> deleters_core n (M(i := None)) D"
  by (force simp: deleters_core_def)+

lemma deleters_ok_base: "deleters_ok (x\<lparr>sbase := w\<rparr>) = deleters_ok x"
  by (simp add: deleters_ok_def)

lemma deleters_ok_same:
  "deleters_ok x \<Longrightarrow> sbEntries y = sbEntries x \<Longrightarrow> sbNext y = sbNext x \<Longrightarrow> deleted y = deleted x \<Longrightarrow> deleters_ok y"
  by (simp add: deleters_ok_def)

lemma onBase_fields:
  "sbEntries (snd (onBase f x)) = sbEntries x" "sbNext (snd (onBase f x)) = sbNext x" "deleted (snd (onBase f x)) = deleted x"
  "views (snd (onBase f x)) = views x" "nextView (snd (onBase f x)) = nextView x" "sbDeleterErr (snd (onBase f x)) = sbDeleterErr x"
  "sbase (snd (onBase f x)) = snd (f (sbase x))" "fst (onBase f x) = fst (f (sbase x))"
  by (simp_all add: onBase_def lift_def)

lemma installSbDeleterEntry_fields:
  "sbEntries (snd (installSbDeleterEntry E t en x)) = sbEntries x"
  "sbNext (snd (installSbDeleterEntry E t en x)) = sbNext x"
  "deleted (snd (installSbDeleterEntry E t en x)) = deleted x"
  by (auto simp: installSbDeleterEntry_def onBase_def lift_def split: option.split sum.split)

definition view_frame :: "strsys \<Rightarrow> strsys \<Rightarrow> bool" where
  "view_frame x y \<longleftrightarrow> sbEntries y = sbEntries x \<and> sbNext y = sbNext x \<and> deleted y = deleted x"

lemma view_ops_frame:
  "view_frame x (snd (NewStringView E t s v x))" "view_frame x (snd (StringView_Info E t k x))"
  "view_frame x (snd (StringView_Copy E t k b x))" "view_frame x (snd (StringView_Bytes E t k x))"
  "view_frame x (snd (StringView_Close E t k x))"
  by (auto simp: view_frame_def NewStringView_def StringView_Info_def StringView_Copy_def StringView_Bytes_def
      StringView_Close_def outcome_simps onBase_fields shim_eq Let_def split_def split: sum.split)

lemma deleters_ok_frame: "deleters_ok x \<Longrightarrow> view_frame x y \<Longrightarrow> deleters_ok y"
  by (simp add: view_frame_def deleters_ok_def)

lemma deleters_ok_newExternalRaw:
  assumes "deleters_ok x"
  shows "deleters_ok (snd (newExternalRaw E t en s oper p args d x))"
proof -
  have "deleters_ok (snd (installSbDeleterEntry E t en x))"
    using deleters_ok_same [OF assms] by (simp add: installSbDeleterEntry_fields)
  then show ?thesis
    using assms by (auto simp: newExternalRaw_def outcome_simps shim_eq Let_def deleters_ok_def
        intro: deleters_core_insert deleters_core_run(2) [OF deleters_core_Suc] split: sum.split)
qed

lemma deleters_ok_dispatch: "deleters_ok x \<Longrightarrow> deleters_ok (goSbDeleterDispatch i d len x)"
  by (auto simp: goSbDeleterDispatch_def deleters_ok_def Let_def intro: deleters_core_run split: option.split)

lemma deleters_ok_exec: "deleters_ok x \<Longrightarrow> deleters_ok (string_exec E t en a x)"
  by (cases a)
    (auto intro: deleters_ok_newExternalRaw deleters_ok_dispatch deleters_ok_frame view_ops_frame
      simp: NewExternalOneByteStringRaw_def NewExternalTwoByteStringRaw_def newExternalStringRaw_def
        newExternalStringRawUnits_def deleters_ok_base)

interpretation strings: invariant_system "\<lambda>x. \<exists>w. x = string_boot w" "\<lambda>x y. \<exists>t a. y = string_exec E t en a x" deleters_ok for E en
proof
  show "\<exists>w. x = string_boot w \<Longrightarrow> deleters_ok x" for x
    by (auto simp: deleters_ok_def deleters_core_def string_boot_def)
  show "\<exists>t a. y = string_exec E t en a x \<Longrightarrow> deleters_ok x \<Longrightarrow> deleters_ok y" for x y
    by (auto intro: deleters_ok_exec)
qed

lemma string_runs_reach: "strings.reach E en (string_runs E en tr (string_boot w))"
proof (induction tr rule: rev_induct)
  case Nil
  show ?case by (rule strings.reach_init) (auto simp: string_runs_def)
next
  case (snoc p tr)
  then show ?case
    by (cases p) (auto simp: string_runs_def intro: strings.reach_step)
qed

end
