(* ===== verification/Wasm.thy ===== *)
theory Wasm
  imports Strings
begin

text \<open>
  WebAssembly streaming (\<open>src/wasm_streaming.go\<close>): the process-wide registry of streaming, caching,
  resolution and serialization callbacks, the stream objects the engine hands to a streaming callback,
  the caching interface that is only valid inside its callback, the asynchronous module compilation
  object, the message pump, and the five dispatchers through which the engine calls back.

  \<^item> \<open>wsys\<close> is the registry with the heaps of the three kinds of objects, above the \<open>world\<close> of the
    other components; every exported method is a definition on it.
  \<^item> What the engine calls while it runs an operation is the argument \<open>nested\<close> of that operation.
    The datatype \<open>wop\<close> nests the calls made inside a callback in the operation that runs it, and
    \<open>wexec\<close> executes it, so a run (\<open>wruns\<close>) is any finite tree of calls.
  \<^item> The locale \<open>wasm_inv\<close> turns the preservation of a property by each single update of the state
    into its preservation by every run, callbacks included; it is interpreted for the counts of
    streams and callbacks, the registered numbers, the streaming callback of an isolate, and for
    what a stream never takes back.
\<close>

section \<open>State\<close>

datatype wasmStreamingState = wasmStreamingOpen | wasmStreamingFinished | wasmStreamingAborted | wasmStreamingClosed

record WasmStreaming =
  ws_iso :: "ref option"
  ws_handle :: uintptr
  ws_state :: wasmStreamingState
  ws_received :: bool
  ws_cacheMarked :: bool

record ModuleCachingInterface =
  mc_handle :: uintptr
  mc_active :: bool
  mc_setCalled :: bool

record WasmModuleCompilation =
  wc_handle :: uintptr
  wc_state :: wasmStreamingState
  wc_received :: bool
  wc_cacheMarked :: bool
  wc_serializationID :: nat

text \<open>
  The registry, the heaps of the three kinds of objects, and the state of the other components.
  Go closures are numbers. A number that the registry does not hold is \<open>None\<close> or, in the maps from
  isolates, 0. \<open>resolved\<close> is a log: the registry numbers of the compilation callbacks that ran.
\<close>

record wsys =
  wbase :: world
  wnext :: nat
  wstreams :: "nat \<rightharpoonup> ref \<times> nat"
  wstreamByISO :: "ref \<Rightarrow> nat"
  wcaching :: "nat \<rightharpoonup> nat"
  wresolutions :: "nat \<rightharpoonup> ref \<times> nat"
  wserializations :: "nat \<rightharpoonup> nat"
  wactiveStreams :: "ref \<Rightarrow> nat"
  wactiveCallbacks :: "ref \<Rightarrow> nat"
  streamings :: "ref \<Rightarrow> WasmStreaming"
  compilations :: "ref \<Rightarrow> WasmModuleCompilation"
  ifaces :: "ref \<Rightarrow> ModuleCachingInterface"
  nextObj :: nat
  wdispatchersErr :: "error option option"
  resolved :: "nat list"

type_synonym 'a wresult = "(error, 'a, wsys) outcome"

definition wOnBase :: "(world \<Rightarrow> 'a result) \<Rightarrow> wsys \<Rightarrow> 'a wresult" where
  [op_defs]: "wOnBase = lift wbase (\<lambda>w x. x\<lparr>wbase := w\<rparr>)"

abbreviation upd_stream :: "ref \<Rightarrow> (WasmStreaming \<Rightarrow> WasmStreaming) \<Rightarrow> wsys \<Rightarrow> wsys" where
  "upd_stream k f x \<equiv> x\<lparr>streamings := (streamings x)(k := f (streamings x k))\<rparr>"

abbreviation upd_comp :: "ref \<Rightarrow> (WasmModuleCompilation \<Rightarrow> WasmModuleCompilation) \<Rightarrow> wsys \<Rightarrow> wsys" where
  "upd_comp k f x \<equiv> x\<lparr>compilations := (compilations x)(k := f (compilations x k))\<rparr>"

abbreviation upd_iface :: "ref \<Rightarrow> (ModuleCachingInterface \<Rightarrow> ModuleCachingInterface) \<Rightarrow> wsys \<Rightarrow> wsys" where
  "upd_iface k f x \<equiv> x\<lparr>ifaces := (ifaces x)(k := f (ifaces x k))\<rparr>"

section \<open>The registry\<close>

definition maxUint64 :: nat where
  "maxUint64 = 2 ^ 64 - 1"

definition beginWasmCallback :: "ref \<Rightarrow> wsys \<Rightarrow> wsys" where
  [op_defs]: "beginWasmCallback i x = x\<lparr>wactiveCallbacks := (wactiveCallbacks x)(i := Suc (wactiveCallbacks x i))\<rparr>"

definition endWasmCallback :: "ref \<Rightarrow> wsys \<Rightarrow> wsys" where
  [op_defs]: "endWasmCallback i x =
     x\<lparr>wactiveCallbacks := (wactiveCallbacks x)(i := if wactiveCallbacks x i \<le> 1 then 0 else wactiveCallbacks x i - 1)\<rparr>"

definition nextWasmCallbackID :: "wsys \<Rightarrow> nat wresult" where
  [op_defs]: "nextWasmCallbackID x =
     (if wnext x = maxUint64 then (Inl (Misuse ''wasm callback registry exhausted''), x)
      else (Inr (Suc (wnext x)), x\<lparr>wnext := Suc (wnext x)\<rparr>))"

definition releaseActiveWasmStream :: "ref \<Rightarrow> wsys \<Rightarrow> wsys" where
  [op_defs]: "releaseActiveWasmStream i x =
     x\<lparr>wactiveStreams := (wactiveStreams x)(i := if wactiveStreams x i \<le> 1 then 0 else wactiveStreams x i - 1)\<rparr>"

text \<open>The five trampolines are the words \<open>ds\<close>; they are installed once.\<close>

definition ensureWasmDispatchers :: "engine \<Rightarrow> tid \<Rightarrow> uintptr list \<Rightarrow> wsys \<Rightarrow> unit wresult" where
  [op_defs]: "ensureWasmDispatchers E t ds x =
     (case wdispatchersErr x of
        Some None \<Rightarrow> (Inr (), x)
      | Some (Some e) \<Rightarrow> (Inl e, x)
      | None \<Rightarrow>
          (case wOnBase (callErr E t ''WasmStreaming.SetDispatchers'' ''gov8_ws_set_dispatchers'' (map W ds)) x of
             (Inl e, x) \<Rightarrow> (Inl e, x\<lparr>wdispatchersErr := Some (Some e)\<rparr>)
           | (Inr _, x) \<Rightarrow> (Inr (), x\<lparr>wdispatchersErr := Some None\<rparr>)))"

text \<open>The two maps that hold the streaming callback of an isolate change together.\<close>

definition forgetCallback :: "nat \<Rightarrow> ref \<Rightarrow> wsys \<Rightarrow> wsys" where
  [op_defs]: "forgetCallback ident i x =
     x\<lparr>wstreams := (wstreams x)(ident := None), wstreamByISO := (wstreamByISO x)(i := 0)\<rparr>"

definition SetWasmStreamingCallback :: "engine \<Rightarrow> tid \<Rightarrow> uintptr list \<Rightarrow> ref \<Rightarrow> nat option \<Rightarrow> wsys \<Rightarrow> unit wresult" where
  [op_defs]: "SetWasmStreamingCallback E t ds i cb x =
     guarded
       [fail_if (cb = None) (Misuse ''wasm streaming callback is required''),
        Isolate_check t i (wbase x),
        fail_if (i_contextsCreated (isolates (wbase x) i))
          (Misuse ''wasm streaming callback must be installed before creating a context'')]
       (\<lambda>x. andThen (ensureWasmDispatchers E t ds x) (\<lambda>_ x.
            andThen (nextWasmCallbackID x) (\<lambda>ident x.
              if wstreamByISO x i \<noteq> 0 then (Inl (Misuse ''wasm streaming callback already installed''), x)
              else
                let x1 = x\<lparr>wstreams := (wstreams x)(ident \<mapsto> (i, the cb)), wstreamByISO := (wstreamByISO x)(i := ident)\<rparr>;
                    (res, x2) = wOnBase (\<lambda>w. callErr E t ''Isolate.SetWasmStreamingCallback'' ''gov8_ws_set_callback''
                                   [W (handleAssumingCheck i w), W (of_nat ident)] w) x1
                in case res of
                     Inl e \<Rightarrow> (Inl e, forgetCallback ident i x2)
                   | Inr _ \<Rightarrow> (Inr (), x2)))) x"

definition releaseWasmStreamingHostState :: "engine \<Rightarrow> tid \<Rightarrow> ref \<Rightarrow> wsys \<Rightarrow> unit wresult" where
  [op_defs]: "releaseWasmStreamingHostState E t i x =
     guarded
       [fail_if (wactiveCallbacks x i \<noteq> 0) (Misuse ''cannot release isolate host state from an active wasm callback''),
        fail_if (wactiveStreams x i \<noteq> 0) (Misuse ''cannot release isolate host state with active wasm streams''),
        fail_if (i \<in> fst ` ran (wresolutions x)) (Misuse ''cannot release isolate host state with pending wasm compilation'')]
       (\<lambda>x. let ident = wstreamByISO x i in
            if ident = 0 then (Inr (), x)
            else andThen (wOnBase (\<lambda>w. callErr E t ''Isolate.ClearWasmStreamingCallback'' ''gov8_ws_clear_callback''
                             [W (i_handle (isolates w i))] w) x)
                   (\<lambda>_ x. (Inr (), if wstreamByISO x i = ident then forgetCallback ident i x else x))) x"

definition ClearWasmStreamingCallback :: "engine \<Rightarrow> tid \<Rightarrow> ref \<Rightarrow> wsys \<Rightarrow> unit wresult" where
  [op_defs]: "ClearWasmStreamingCallback E t i x =
     guarded [Isolate_check t i (wbase x)] (releaseWasmStreamingHostState E t i) x"

section \<open>Streams\<close>

definition lockOpen :: "tid \<Rightarrow> ref \<Rightarrow> string \<Rightarrow> wsys \<Rightarrow> error option" where
  [check_defs]: "lockOpen t k oper x =
     first_err
       [fail_if (ws_iso (streamings x k) = None) (Misuse ''nil wasm streaming handle''),
        fail_if (ws_state (streamings x k) \<noteq> wasmStreamingOpen \<or> ws_handle (streamings x k) = 0)
          (Misuse (oper @ '' on completed wasm stream'')),
        Isolate_check t (the (ws_iso (streamings x k))) (wbase x)]"

text \<open>A nil receiver is an error of every method.\<close>

definition onStream :: "ref option \<Rightarrow> (ref \<Rightarrow> wsys \<Rightarrow> 'a wresult) \<Rightarrow> wsys \<Rightarrow> 'a wresult" where
  [op_defs]: "onStream mk f x = (case mk of None \<Rightarrow> (Inl (Misuse ''nil wasm streaming handle''), x) | Some k \<Rightarrow> f k x)"

definition Stream_OnBytesReceived :: "engine \<Rightarrow> tid \<Rightarrow> ref option \<Rightarrow> string \<Rightarrow> wsys \<Rightarrow> unit wresult" where
  [op_defs]: "Stream_OnBytesReceived E t mk b = onStream mk (\<lambda>k x.
     guarded [lockOpen t k ''OnBytesReceived'' x]
       (\<lambda>x. andThen (wOnBase (callErr E t ''WasmStreaming.OnBytesReceived'' ''gov8_ws_on_bytes''
               [W (ws_handle (streamings x k)), Buf b]) x)
             (\<lambda>_ x. (Inr (), upd_stream k (\<lambda>s. s\<lparr>ws_received := True\<rparr>) x))) x)"

definition validUTF8 :: "string \<Rightarrow> bool" where
  "validUTF8 u \<longleftrightarrow> utf8Decode (map of_char u) \<noteq> None"

definition Stream_SetURL :: "engine \<Rightarrow> tid \<Rightarrow> ref option \<Rightarrow> string \<Rightarrow> wsys \<Rightarrow> unit wresult" where
  [op_defs]: "Stream_SetURL E t mk url = onStream mk (\<lambda>k x.
     guarded [fail_if (\<not> validUTF8 url) (Misuse ''wasm source URL is not valid UTF-8''), lockOpen t k ''SetURL'' x]
       (\<lambda>x. andThen (wOnBase (callErr E t ''WasmStreaming.SetURL'' ''gov8_ws_set_url''
               [W (ws_handle (streamings x k)), Buf url]) x) (\<lambda>_ x. (Inr (), x))) x)"

definition Stream_SetHasCompiledModuleBytes :: "engine \<Rightarrow> tid \<Rightarrow> ref option \<Rightarrow> wsys \<Rightarrow> unit wresult" where
  [op_defs]: "Stream_SetHasCompiledModuleBytes E t mk = onStream mk (\<lambda>k x.
     guarded
       [lockOpen t k ''SetHasCompiledModuleBytes'' x,
        fail_if (ws_received (streamings x k)) (Misuse ''SetHasCompiledModuleBytes must be called before OnBytesReceived''),
        fail_if (ws_cacheMarked (streamings x k)) (Misuse ''compiled module bytes already announced'')]
       (\<lambda>x. andThen (wOnBase (callErr E t ''WasmStreaming.SetHasCompiledModuleBytes'' ''gov8_ws_set_has_cache''
               [W (ws_handle (streamings x k))]) x)
             (\<lambda>_ x. (Inr (), upd_stream k (\<lambda>s. s\<lparr>ws_cacheMarked := True\<rparr>) x))) x)"

text \<open>No callback registers as number 0.\<close>

definition registerWasmCachingCallback :: "nat option \<Rightarrow> wsys \<Rightarrow> nat wresult" where
  [op_defs]: "registerWasmCachingCallback cb x =
     (case cb of
        None \<Rightarrow> (Inr 0, x)
      | Some c \<Rightarrow> andThen (nextWasmCallbackID x) (\<lambda>ident x. (Inr ident, x\<lparr>wcaching := (wcaching x)(ident \<mapsto> c)\<rparr>)))"

definition dropWasmCachingCallback :: "nat \<Rightarrow> wsys \<Rightarrow> wsys" where
  [op_defs]: "dropWasmCachingCallback ident x =
     (if ident = 0 then x else x\<lparr>wcaching := (wcaching x)(ident := None)\<rparr>)"

text \<open>Finish, Abort and Close take the handle out of the stream before they enter the engine; what
  the engine calls back meanwhile is \<open>nested\<close>. Afterwards the stream is no longer counted.\<close>

definition consumeStream :: "ref \<Rightarrow> wasmStreamingState \<Rightarrow> wsys \<Rightarrow> wsys" where
  [op_defs]: "consumeStream k st x = upd_stream k (\<lambda>s. s\<lparr>ws_state := st, ws_handle := 0\<rparr>) x"

definition engineStep :: "engine \<Rightarrow> tid \<Rightarrow> (wsys \<Rightarrow> wsys) \<Rightarrow> string \<Rightarrow> string \<Rightarrow> arg list \<Rightarrow> wsys \<Rightarrow> unit wresult" where
  [op_defs]: "engineStep E t nested oper p args x =
     (let (r, w) = shim E t p args (wbase x)
      in (if sneg (r1 r) then Inl (ShimError oper (r1 r)) else Inr (), nested (x\<lparr>wbase := w\<rparr>)))"

definition finishStream :: "engine \<Rightarrow> tid \<Rightarrow> (wsys \<Rightarrow> wsys) \<Rightarrow> ref \<Rightarrow> wasmStreamingState \<Rightarrow> string \<Rightarrow> string \<Rightarrow> arg list \<Rightarrow> wsys \<Rightarrow> unit wresult" where
  [op_defs]: "finishStream E t nested k st oper p args x =
     (let i = the (ws_iso (streamings x k));
          (res, x1) = engineStep E t nested oper p (W (ws_handle (streamings x k)) # args) (consumeStream k st x)
      in (res, releaseActiveWasmStream i x1))"

definition Stream_Finish :: "engine \<Rightarrow> tid \<Rightarrow> (wsys \<Rightarrow> wsys) \<Rightarrow> ref option \<Rightarrow> nat option \<Rightarrow> wsys \<Rightarrow> unit wresult" where
  [op_defs]: "Stream_Finish E t nested mk cb = onStream mk (\<lambda>k x.
     guarded
       [lockOpen t k ''Finish'' x,
        fail_if (ws_cacheMarked (streamings x k) \<noteq> (cb \<noteq> None))
          (Misuse ''wasm caching callback must be supplied exactly in cache mode'')]
       (\<lambda>x. andThen (registerWasmCachingCallback cb x) (\<lambda>ident x.
              let (res, x1) = finishStream E t nested k wasmStreamingFinished ''WasmStreaming.Finish'' ''gov8_ws_finish''
                                [W (of_nat ident)] x
              in (res, dropWasmCachingCallback ident x1))) x)"

definition Stream_Abort :: "engine \<Rightarrow> tid \<Rightarrow> (wsys \<Rightarrow> wsys) \<Rightarrow> ref option \<Rightarrow> Value option \<Rightarrow> wsys \<Rightarrow> unit wresult" where
  [op_defs]: "Stream_Abort E t nested mk mv = onStream mk (\<lambda>k x.
     guarded
       [lockOpen t k ''Abort'' x,
        (case mv of
           None \<Rightarrow> None
         | Some v \<Rightarrow> first_err [fail_if (Some (v_iso v) \<noteq> ws_iso (streamings x k)) (Foreign KValue), Value_check t v (wbase x)])]
       (finishStream E t nested k wasmStreamingAborted ''WasmStreaming.Abort'' ''gov8_ws_abort''
          [W (case mv of None \<Rightarrow> 0 | Some v \<Rightarrow> v_h v)]) x)"

definition Stream_Close :: "engine \<Rightarrow> tid \<Rightarrow> (wsys \<Rightarrow> wsys) \<Rightarrow> ref option \<Rightarrow> wsys \<Rightarrow> unit wresult" where
  [op_defs]: "Stream_Close E t nested mk = onStream mk (\<lambda>k x.
     guarded [lockOpen t k ''Close'' x]
       (finishStream E t nested k wasmStreamingClosed ''WasmStreaming.Close'' ''gov8_ws_dispose'' []) x)"

section \<open>The caching interface\<close>

definition iface_check :: "ref option \<Rightarrow> wsys \<Rightarrow> error option" where
  [check_defs]: "iface_check mf x =
     (case mf of
        None \<Rightarrow> Some (Misuse ''nil module caching interface'')
      | Some f \<Rightarrow> fail_if (\<not> mc_active (ifaces x f) \<or> mc_handle (ifaces x f) = 0)
                    (Misuse ''module caching interface is no longer active''))"

definition wireBytesLocked :: "engine \<Rightarrow> tid \<Rightarrow> ref \<Rightarrow> wsys \<Rightarrow> string wresult" where
  [op_defs]: "wireBytesLocked E t f x =
     andThen (wOnBase (callErr E t ''ModuleCachingInterface.WireBytes'' ''gov8_ws_cache_wire''
         [W (mc_handle (ifaces x f)), W 0, W 0, Out]) x) (\<lambda>r x.
       if unat (out r 0) > maxInt then (Inl (Misuse ''wasm cache wire bytes exceed Go slice capacity''), x)
       else if out r 0 = 0 then (Inr [], x)
       else andThen (wOnBase (callErr E t ''ModuleCachingInterface.WireBytes'' ''gov8_ws_cache_wire''
                [W (mc_handle (ifaces x f)), OutBuf (uint (out r 0)), Out]) x)
              (\<lambda>q x. (Inr (bufAfter (uint (out r 0)) (data q)), x)))"

definition WireBytes :: "engine \<Rightarrow> tid \<Rightarrow> ref option \<Rightarrow> wsys \<Rightarrow> string wresult" where
  [op_defs]: "WireBytes E t mf x = guarded [iface_check mf x] (wireBytesLocked E t (the mf)) x"

definition setCachedCompiledModuleBytesLocked :: "engine \<Rightarrow> tid \<Rightarrow> ref \<Rightarrow> string \<Rightarrow> wsys \<Rightarrow> bool wresult" where
  [op_defs]: "setCachedCompiledModuleBytesLocked E t f b x =
     andThen (wOnBase (callErr E t ''ModuleCachingInterface.SetCachedCompiledModuleBytes'' ''gov8_ws_cache_set''
         [W (mc_handle (ifaces x f)), Buf b, Out]) (upd_iface f (\<lambda>s. s\<lparr>mc_setCalled := True\<rparr>) x))
       (\<lambda>r x. (Inr ((ucast (out r 0) :: 32 word) \<noteq> 0), x))"

definition SetCachedCompiledModuleBytes :: "engine \<Rightarrow> tid \<Rightarrow> ref option \<Rightarrow> string \<Rightarrow> wsys \<Rightarrow> bool wresult" where
  [op_defs]: "SetCachedCompiledModuleBytes E t mf b x =
     guarded [iface_check mf x,
              fail_if (mc_setCalled (ifaces x (the mf))) (Misuse ''cached compiled module bytes already set'')]
       (setCachedCompiledModuleBytesLocked E t (the mf) b) x"

section \<open>Asynchronous compilation\<close>

definition NewWasmModuleCompilation :: "engine \<Rightarrow> tid \<Rightarrow> uintptr list \<Rightarrow> wsys \<Rightarrow> ref wresult" where
  [op_defs]: "NewWasmModuleCompilation E t ds x =
     guarded [requireInitialized (wbase x)]
       (\<lambda>x. andThen (ensureWasmDispatchers E t ds x) (\<lambda>_ x.
            andThen (wOnBase (callHandle E t ''WasmModuleCompilation.New'' ''gov8_wmc_new'' []) x) (\<lambda>h x.
              let k = nextObj x
              in (Inr k, x\<lparr>compilations := (compilations x)(k := \<lparr>wc_handle = h, wc_state = wasmStreamingOpen,
                    wc_received = False, wc_cacheMarked = False, wc_serializationID = 0\<rparr>), nextObj := Suc k\<rparr>)))) x"

definition Comp_lockOpen :: "ref \<Rightarrow> string \<Rightarrow> wsys \<Rightarrow> error option" where
  [check_defs]: "Comp_lockOpen k oper x =
     fail_if (wc_handle (compilations x k) = 0 \<or> wc_state (compilations x k) \<noteq> wasmStreamingOpen)
       (Misuse (oper @ '' on completed wasm module compilation''))"

definition onComp :: "ref option \<Rightarrow> (ref \<Rightarrow> wsys \<Rightarrow> 'a wresult) \<Rightarrow> wsys \<Rightarrow> 'a wresult" where
  [op_defs]: "onComp mk f x = (case mk of None \<Rightarrow> (Inl (Misuse ''nil wasm module compilation''), x) | Some k \<Rightarrow> f k x)"

definition Comp_OnBytesReceived :: "engine \<Rightarrow> tid \<Rightarrow> ref option \<Rightarrow> string \<Rightarrow> wsys \<Rightarrow> unit wresult" where
  [op_defs]: "Comp_OnBytesReceived E t mk b = onComp mk (\<lambda>k x.
     guarded [Comp_lockOpen k ''OnBytesReceived'' x]
       (\<lambda>x. andThen (wOnBase (callErr E t ''WasmModuleCompilation.OnBytesReceived'' ''gov8_wmc_on_bytes''
               [W (wc_handle (compilations x k)), Buf b]) x)
             (\<lambda>_ x. (Inr (), upd_comp k (\<lambda>s. s\<lparr>wc_received := True\<rparr>) x))) x)"

definition Comp_SetURL :: "engine \<Rightarrow> tid \<Rightarrow> ref option \<Rightarrow> string \<Rightarrow> wsys \<Rightarrow> unit wresult" where
  [op_defs]: "Comp_SetURL E t mk url = onComp mk (\<lambda>k x.
     guarded [fail_if (\<not> validUTF8 url) (Misuse ''wasm source URL is not valid UTF-8''), Comp_lockOpen k ''SetURL'' x]
       (\<lambda>x. andThen (wOnBase (callErr E t ''WasmModuleCompilation.SetURL'' ''gov8_wmc_set_url''
               [W (wc_handle (compilations x k)), Buf url]) x) (\<lambda>_ x. (Inr (), x))) x)"

definition Comp_SetHasCompiledModuleBytes :: "engine \<Rightarrow> tid \<Rightarrow> ref option \<Rightarrow> wsys \<Rightarrow> unit wresult" where
  [op_defs]: "Comp_SetHasCompiledModuleBytes E t mk = onComp mk (\<lambda>k x.
     guarded
       [Comp_lockOpen k ''SetHasCompiledModuleBytes'' x,
        fail_if (wc_received (compilations x k)) (Misuse ''SetHasCompiledModuleBytes must be called before OnBytesReceived''),
        fail_if (wc_cacheMarked (compilations x k)) (Misuse ''compiled module bytes already announced'')]
       (\<lambda>x. andThen (wOnBase (callErr E t ''WasmModuleCompilation.SetHasCompiledModuleBytes'' ''gov8_wmc_set_has_cache''
               [W (wc_handle (compilations x k))]) x)
             (\<lambda>_ x. (Inr (), upd_comp k (\<lambda>s. s\<lparr>wc_cacheMarked := True\<rparr>) x))) x)"

definition SetMoreFunctionsCanBeSerializedCallback :: "engine \<Rightarrow> tid \<Rightarrow> ref option \<Rightarrow> nat option \<Rightarrow> wsys \<Rightarrow> unit wresult" where
  [op_defs]: "SetMoreFunctionsCanBeSerializedCallback E t mk cb = onComp mk (\<lambda>k x.
     guarded
       [fail_if (cb = None) (Misuse ''wasm serialization callback is required''),
        Comp_lockOpen k ''SetMoreFunctionsCanBeSerializedCallback'' x,
        fail_if (wc_serializationID (compilations x k) \<noteq> 0) (Misuse ''wasm serialization callback already installed'')]
       (\<lambda>x. andThen (nextWasmCallbackID x) (\<lambda>ident x.
              let x1 = x\<lparr>wserializations := (wserializations x)(ident \<mapsto> the cb)\<rparr>;
                  (res, x2) = wOnBase (callErr E t ''WasmModuleCompilation.SetMoreFunctionsCanBeSerializedCallback''
                                 ''gov8_wmc_set_serialization_callback'' [W (wc_handle (compilations x1 k)), W (of_nat ident)]) x1
              in case res of
                   Inl e \<Rightarrow> (Inl e, x2\<lparr>wserializations := (wserializations x2)(ident := None)\<rparr>)
                 | Inr _ \<Rightarrow> (Inr (), upd_comp k (\<lambda>s. s\<lparr>wc_serializationID := ident\<rparr>) x2))) x)"

text \<open>Scope and context may be nil.\<close>

definition finish_check :: "tid \<Rightarrow> ref option \<Rightarrow> ref option \<Rightarrow> wsys \<Rightarrow> error option" where
  [check_defs]: "finish_check t ms mc x =
     (case ms of
        None \<Rightarrow> Some (Misuse ''nil scope'')
      | Some s \<Rightarrow>
          first_err
            [Scope_check t s (wbase x),
             (case mc of
                None \<Rightarrow> Some (Foreign KContext)
              | Some c \<Rightarrow> first_err [fail_if (c_iso (contexts (wbase x) c) \<noteq> s_iso (scopes (wbase x) s)) (Foreign KContext),
                                     Context_check t c (wbase x)])])"

definition Comp_Finish :: "engine \<Rightarrow> tid \<Rightarrow> (wsys \<Rightarrow> wsys) \<Rightarrow> ref option \<Rightarrow> ref option \<Rightarrow> ref option \<Rightarrow> nat option \<Rightarrow> nat option \<Rightarrow> wsys \<Rightarrow> unit wresult" where
  [op_defs]: "Comp_Finish E t nested mk ms mc cacheCb cb = onComp mk (\<lambda>k x.
     guarded
       [fail_if (cb = None) (Misuse ''wasm module compilation callback is required''),
        finish_check t ms mc x,
        Comp_lockOpen k ''Finish'' x,
        fail_if (wc_cacheMarked (compilations x k) \<noteq> (cacheCb \<noteq> None))
          (Misuse ''wasm caching callback must be supplied exactly in cache mode'')]
       (\<lambda>x. andThen (registerWasmCachingCallback cacheCb x) (\<lambda>cacheID x.
            case nextWasmCallbackID x of
              (Inl e, x) \<Rightarrow> (Inl e, dropWasmCachingCallback cacheID x)
            | (Inr resolutionID, x) \<Rightarrow>
                let s = the ms; i = s_iso (scopes (wbase x) s);
                    x1 = x\<lparr>wresolutions := (wresolutions x)(resolutionID \<mapsto> (i, the cb))\<rparr>;
                    h = wc_handle (compilations x1 k);
                    x2 = upd_comp k (\<lambda>q. q\<lparr>wc_handle := 0, wc_state := wasmStreamingFinished\<rparr>) x1;
                    (res, x3) = engineStep E t nested ''WasmModuleCompilation.Finish'' ''gov8_wmc_finish''
                       [W h, W (handleAssumingCheck i (wbase x2)), W (c_handle (contexts (wbase x2) (the mc))),
                        W (s_handle (scopes (wbase x2) s)), W (of_nat cacheID), W (of_nat resolutionID)] x2;
                    x4 = (case res of
                            Inl _ \<Rightarrow> x3\<lparr>wresolutions := (wresolutions x3)(resolutionID := None)\<rparr>
                          | Inr _ \<Rightarrow> x3)
                in (res, dropWasmCachingCallback cacheID x4))) x)"

definition Comp_consume :: "engine \<Rightarrow> tid \<Rightarrow> (wsys \<Rightarrow> wsys) \<Rightarrow> ref \<Rightarrow> wasmStreamingState \<Rightarrow> string \<Rightarrow> string \<Rightarrow> wsys \<Rightarrow> unit wresult" where
  [op_defs]: "Comp_consume E t nested k st oper p x =
     engineStep E t nested oper p [W (wc_handle (compilations x k))]
       (upd_comp k (\<lambda>q. q\<lparr>wc_handle := 0, wc_state := st\<rparr>) x)"

definition Comp_Abort :: "engine \<Rightarrow> tid \<Rightarrow> (wsys \<Rightarrow> wsys) \<Rightarrow> ref option \<Rightarrow> wsys \<Rightarrow> unit wresult" where
  [op_defs]: "Comp_Abort E t nested mk = onComp mk (\<lambda>k x.
     guarded [Comp_lockOpen k ''Abort'' x]
       (Comp_consume E t nested k wasmStreamingAborted ''WasmModuleCompilation.Abort'' ''gov8_wmc_abort'') x)"

definition Comp_Close :: "engine \<Rightarrow> tid \<Rightarrow> (wsys \<Rightarrow> wsys) \<Rightarrow> ref option \<Rightarrow> wsys \<Rightarrow> unit wresult" where
  [op_defs]: "Comp_Close E t nested mk = onComp mk (\<lambda>k x.
     guarded [Comp_lockOpen k ''Close'' x]
       (Comp_consume E t nested k wasmStreamingClosed ''WasmModuleCompilation.Close'' ''gov8_wmc_dispose'') x)"

definition PumpMessageLoop :: "engine \<Rightarrow> tid \<Rightarrow> (wsys \<Rightarrow> wsys) \<Rightarrow> ref \<Rightarrow> bool \<Rightarrow> wsys \<Rightarrow> bool wresult" where
  [op_defs]: "PumpMessageLoop E t nested i wait x =
     guarded [Isolate_check t i (wbase x)]
       (\<lambda>x. let (r, w) = shim E t ''gov8_ws_pump_message_loop''
                    [W (handleAssumingCheck i (wbase x)), W (if wait then 1 else 0)] (wbase x);
                x1 = nested (x\<lparr>wbase := w\<rparr>)
            in if sneg (r1 r) then (Inl (ShimError ''Isolate.PumpMessageLoop'' (r1 r)), x1) else (Inr (r1 r \<noteq> 0), x1)) x"

section \<open>Callbacks from the engine\<close>

text \<open>
  What the engine passes to a trampoline. The callback's own calls are \<open>nested\<close>. A call that the code
  answers with \<open>fatalHostMisuse\<close>, which ends the process, is an error here and changes nothing.
\<close>

record wasmStreamingFrame =
  sf_id :: nat
  sf_isolate :: uintptr
  sf_contextWire :: uintptr
  sf_scopeWire :: uintptr
  sf_sourceWire :: uintptr
  sf_streamHandle :: uintptr

record wasmResolutionFrame =
  rf_id :: nat
  rf_isolate :: uintptr
  rf_contextWire :: uintptr
  rf_scopeWire :: uintptr
  rf_moduleWire :: uintptr
  rf_errorWire :: uintptr

text \<open>The callback-local scope: borrowed, so on no stack, and marked closed when the callback is
  over.\<close>

definition openBorrowed :: "ref \<Rightarrow> uintptr \<Rightarrow> wsys \<Rightarrow> wsys" where
  [op_defs]: "openBorrowed i h x =
     (let w = wbase x; s = nextRef w
      in x\<lparr>wbase := w\<lparr>scopes := (scopes w)(s := \<lparr>s_iso = i, s_handle = h, s_closed = False, s_borrowed = True,
             s_activeBorrowedContextScopes = 0, s_javascriptExecutionGuards = []\<rparr>), nextRef := Suc s\<rparr>\<rparr>)"

definition closeBorrowed :: "ref \<Rightarrow> wsys \<Rightarrow> wsys" where
  [op_defs]: "closeBorrowed s x = x\<lparr>wbase := upd_scope s (\<lambda>q. q\<lparr>s_closed := True\<rparr>) (wbase x)\<rparr>"

definition openStream :: "ref \<Rightarrow> uintptr \<Rightarrow> wsys \<Rightarrow> wsys" where
  [op_defs]: "openStream i h x =
     x\<lparr>streamings := (streamings x)(nextObj x := \<lparr>ws_iso = Some i, ws_handle = h, ws_state = wasmStreamingOpen,
           ws_received = False, ws_cacheMarked = False\<rparr>),
       nextObj := Suc (nextObj x), wactiveStreams := (wactiveStreams x)(i := Suc (wactiveStreams x i))\<rparr>"

definition wasmStreamingDispatcher :: "tid \<Rightarrow> (wsys \<Rightarrow> wsys) \<Rightarrow> wasmStreamingFrame \<Rightarrow> wsys \<Rightarrow> unit wresult" where
  [op_defs]: "wasmStreamingDispatcher t nested fr x =
     (case wstreams x (sf_id fr) of
        None \<Rightarrow> (Inl (Misuse ''fatal: wasm streaming callback for unknown handle''), x)
      | Some (i, cb) \<Rightarrow>
          guarded
            [fail_if (i_handle (isolates (wbase x) i) \<noteq> sf_isolate fr)
               (Misuse ''fatal: wasm streaming callback for unknown handle''),
             fail_if (Isolate_check t i (wbase x) \<noteq> None) (Misuse ''fatal: wasm streaming callback lifecycle'')]
            (\<lambda>x. let s = nextRef (wbase x);
                     x1 = openStream i (sf_streamHandle fr) (openBorrowed i (sf_scopeWire fr) (beginWasmCallback i x))
                 in (Inr (), endWasmCallback i (closeBorrowed s (nested x1)))) x)"

definition wasmCachingDispatcher :: "(wsys \<Rightarrow> wsys) \<Rightarrow> nat \<Rightarrow> uintptr \<Rightarrow> wsys \<Rightarrow> unit wresult" where
  [op_defs]: "wasmCachingDispatcher nested ident h x =
     (case wcaching x ident of
        None \<Rightarrow> (Inl (Misuse ''fatal: wasm caching callback for unknown handle''), x)
      | Some cb \<Rightarrow>
          let f = nextObj x;
              x1 = x\<lparr>ifaces := (ifaces x)(f := \<lparr>mc_handle = h, mc_active = True, mc_setCalled = False\<rparr>), nextObj := Suc f\<rparr>
          in (Inr (), upd_iface f (\<lambda>s. s\<lparr>mc_active := False, mc_handle := 0\<rparr>) (nested x1)))"

definition wasmResolutionDispatcher :: "tid \<Rightarrow> (wsys \<Rightarrow> wsys) \<Rightarrow> wasmResolutionFrame \<Rightarrow> wsys \<Rightarrow> unit wresult" where
  [op_defs]: "wasmResolutionDispatcher t nested fr x =
     (case wresolutions x (rf_id fr) of
        None \<Rightarrow> (Inl (Misuse ''fatal: wasm resolution callback for unknown handle''), x)
      | Some (i, cb) \<Rightarrow>
          guarded
            [fail_if (i_handle (isolates (wbase x) i) \<noteq> rf_isolate fr)
               (Misuse ''fatal: wasm resolution callback for unknown handle''),
             fail_if (Isolate_check t i (wbase x) \<noteq> None) (Misuse ''fatal: wasm resolution callback lifecycle'')]
            (\<lambda>x. let s = nextRef (wbase x);
                     x1 = beginWasmCallback i (x\<lparr>wresolutions := (wresolutions x)(rf_id fr := None), resolved := resolved x @ [rf_id fr]\<rparr>);
                     x2 = openBorrowed i (rf_scopeWire fr) x1
                 in (Inr (), endWasmCallback i (closeBorrowed s (nested x2)))) x)"

definition wasmDropDispatcher :: "nat \<Rightarrow> nat \<Rightarrow> wsys \<Rightarrow> wsys" where
  [op_defs]: "wasmDropDispatcher ident k x =
     (if k = 0 then x\<lparr>wresolutions := (wresolutions x)(ident := None)\<rparr>
      else if k = 1 then x\<lparr>wserializations := (wserializations x)(ident := None)\<rparr>
      else x)"

definition wasmSerializationDispatcher :: "(wsys \<Rightarrow> wsys) \<Rightarrow> nat \<Rightarrow> uintptr \<Rightarrow> wsys \<Rightarrow> unit wresult" where
  [op_defs]: "wasmSerializationDispatcher nested ident compiled x =
     (if wserializations x ident = None \<or> compiled = 0
      then (Inl (Misuse ''fatal: wasm serialization callback for unknown handle''), x)
      else (Inr (), nested x))"

section \<open>The operations as steps\<close>

text \<open>An operation during which the engine calls back carries the list of those calls.\<close>

datatype wop =
    WCore api | WSetCallback ref "nat option" | WClearCallback ref
  | WOnBytes "ref option" string | WSetURL "ref option" string | WSetHasCache "ref option"
  | WFinish "ref option" "nat option" "wop list" | WAbort "ref option" "Value option" "wop list"
  | WClose "ref option" "wop list"
  | WWireBytes "ref option" | WSetCached "ref option" string
  | WNewComp | WCOnBytes "ref option" string | WCSetURL "ref option" string | WCSetHasCache "ref option"
  | WCSerialization "ref option" "nat option"
  | WCFinish "ref option" "ref option" "ref option" "nat option" "nat option" "wop list"
  | WCAbort "ref option" "wop list" | WCClose "ref option" "wop list" | WPump ref bool "wop list"
  | WStreamCall wasmStreamingFrame "wop list" | WCachingCall nat uintptr "wop list"
  | WResolutionCall wasmResolutionFrame "wop list" | WDropCall nat nat | WSerializationCall nat uintptr "wop list"

primrec wexec :: "engine \<Rightarrow> tid \<Rightarrow> uintptr list \<Rightarrow> wop \<Rightarrow> wsys \<Rightarrow> wsys" where
  "wexec E t ds (WCore a) = (\<lambda>x. x\<lparr>wbase := exec E t a (wbase x)\<rparr>)"
| "wexec E t ds (WSetCallback i cb) = (\<lambda>x. snd (SetWasmStreamingCallback E t ds i cb x))"
| "wexec E t ds (WClearCallback i) = (\<lambda>x. snd (ClearWasmStreamingCallback E t i x))"
| "wexec E t ds (WOnBytes mk b) = (\<lambda>x. snd (Stream_OnBytesReceived E t mk b x))"
| "wexec E t ds (WSetURL mk u) = (\<lambda>x. snd (Stream_SetURL E t mk u x))"
| "wexec E t ds (WSetHasCache mk) = (\<lambda>x. snd (Stream_SetHasCompiledModuleBytes E t mk x))"
| "wexec E t ds (WFinish mk cb as) = (\<lambda>x. snd (Stream_Finish E t (fold id (map (wexec E t ds) as)) mk cb x))"
| "wexec E t ds (WAbort mk mv as) = (\<lambda>x. snd (Stream_Abort E t (fold id (map (wexec E t ds) as)) mk mv x))"
| "wexec E t ds (WClose mk as) = (\<lambda>x. snd (Stream_Close E t (fold id (map (wexec E t ds) as)) mk x))"
| "wexec E t ds (WWireBytes mf) = (\<lambda>x. snd (WireBytes E t mf x))"
| "wexec E t ds (WSetCached mf b) = (\<lambda>x. snd (SetCachedCompiledModuleBytes E t mf b x))"
| "wexec E t ds WNewComp = (\<lambda>x. snd (NewWasmModuleCompilation E t ds x))"
| "wexec E t ds (WCOnBytes mk b) = (\<lambda>x. snd (Comp_OnBytesReceived E t mk b x))"
| "wexec E t ds (WCSetURL mk u) = (\<lambda>x. snd (Comp_SetURL E t mk u x))"
| "wexec E t ds (WCSetHasCache mk) = (\<lambda>x. snd (Comp_SetHasCompiledModuleBytes E t mk x))"
| "wexec E t ds (WCSerialization mk cb) = (\<lambda>x. snd (SetMoreFunctionsCanBeSerializedCallback E t mk cb x))"
| "wexec E t ds (WCFinish mk ms mc cc cb as) =
     (\<lambda>x. snd (Comp_Finish E t (fold id (map (wexec E t ds) as)) mk ms mc cc cb x))"
| "wexec E t ds (WCAbort mk as) = (\<lambda>x. snd (Comp_Abort E t (fold id (map (wexec E t ds) as)) mk x))"
| "wexec E t ds (WCClose mk as) = (\<lambda>x. snd (Comp_Close E t (fold id (map (wexec E t ds) as)) mk x))"
| "wexec E t ds (WPump i b as) = (\<lambda>x. snd (PumpMessageLoop E t (fold id (map (wexec E t ds) as)) i b x))"
| "wexec E t ds (WStreamCall fr as) = (\<lambda>x. snd (wasmStreamingDispatcher t (fold id (map (wexec E t ds) as)) fr x))"
| "wexec E t ds (WCachingCall ident h as) = (\<lambda>x. snd (wasmCachingDispatcher (fold id (map (wexec E t ds) as)) ident h x))"
| "wexec E t ds (WResolutionCall fr as) = (\<lambda>x. snd (wasmResolutionDispatcher t (fold id (map (wexec E t ds) as)) fr x))"
| "wexec E t ds (WDropCall ident k) = wasmDropDispatcher ident k"
| "wexec E t ds (WSerializationCall ident c as) =
     (\<lambda>x. snd (wasmSerializationDispatcher (fold id (map (wexec E t ds) as)) ident c x))"

definition wruns :: "engine \<Rightarrow> uintptr list \<Rightarrow> (tid \<times> wop) list \<Rightarrow> wsys \<Rightarrow> wsys" where
  "wruns E ds tr x = fold (\<lambda>(t, a). wexec E t ds a) tr x"

lemma wruns_simps [simp]: "wruns E ds [] x = x" "wruns E ds ((t, a) # tr) x = wruns E ds tr (wexec E t ds a x)"
  by (simp_all add: wruns_def)

definition wboot :: "world \<Rightarrow> wsys" where
  "wboot w = \<lparr>wbase = w, wnext = 0, wstreams = Map.empty, wstreamByISO = (\<lambda>_. 0), wcaching = Map.empty,
     wresolutions = Map.empty, wserializations = Map.empty, wactiveStreams = (\<lambda>_. 0), wactiveCallbacks = (\<lambda>_. 0),
     streamings = (\<lambda>_. \<lparr>ws_iso = None, ws_handle = 0, ws_state = wasmStreamingOpen, ws_received = False, ws_cacheMarked = False\<rparr>),
     compilations = (\<lambda>_. \<lparr>wc_handle = 0, wc_state = wasmStreamingOpen, wc_received = False, wc_cacheMarked = False,
       wc_serializationID = 0\<rparr>),
     ifaces = (\<lambda>_. \<lparr>mc_handle = 0, mc_active = False, mc_setCalled = False\<rparr>), nextObj = 0, wdispatchersErr = None, resolved = []\<rparr>"

lemma lockOpen_None:
  "lockOpen t k oper x = None \<longleftrightarrow> (\<exists>i. ws_iso (streamings x k) = Some i \<and> Isolate_check t i (wbase x) = None)
     \<and> ws_state (streamings x k) = wasmStreamingOpen \<and> ws_handle (streamings x k) \<noteq> 0"
  unfolding lockOpen_def first_err_None by auto

lemma register_streamings: "registerWasmCachingCallback cb x = (Inr n, y) \<Longrightarrow> streamings y = streamings x \<and> compilations y = compilations x"
  by (auto simp: registerWasmCachingCallback_def nextWasmCallbackID_def split: option.splits if_splits)

text \<open>
  What every operation keeps, given that each single update keeps it. The property may depend on
  the callbacks in progress: in \<open>P a b\<close>, \<open>a\<close> counts per isolate the streams that are being consumed
  and \<open>b\<close> the callbacks that run. A property that looks at neither ignores both.
\<close>

locale wasm_inv =
  fixes P :: "(ref \<Rightarrow> nat) \<Rightarrow> (ref \<Rightarrow> nat) \<Rightarrow> wsys \<Rightarrow> bool"
  assumes upd_wbase: "P a b x \<Longrightarrow> P a b (x\<lparr>wbase := w\<rparr>)"
    and upd_comps: "P a b x \<Longrightarrow> P a b (x\<lparr>compilations := C\<rparr>)"
    and upd_ifaces: "P a b x \<Longrightarrow> P a b (x\<lparr>ifaces := F\<rparr>)"
    and upd_dispatchers: "P a b x \<Longrightarrow> P a b (x\<lparr>wdispatchersErr := d\<rparr>)"
    and new_obj: "P a b x \<Longrightarrow> n = Suc (nextObj x) \<Longrightarrow> P a b (x\<lparr>nextObj := n\<rparr>)"
    and alloc: "P a b x \<Longrightarrow> P a b (x\<lparr>wnext := Suc (wnext x)\<rparr>)"
    and new_caching: "P a b x \<Longrightarrow> P a b (x\<lparr>wnext := Suc (wnext x), wcaching := (wcaching x)(Suc (wnext x) \<mapsto> c)\<rparr>)"
    and new_serialization:
      "P a b x \<Longrightarrow> P a b (x\<lparr>wnext := Suc (wnext x), wserializations := (wserializations x)(Suc (wnext x) \<mapsto> c)\<rparr>)"
    and new_resolution:
      "P a b x \<Longrightarrow> P a b (x\<lparr>wnext := Suc (wnext x), wresolutions := (wresolutions x)(Suc (wnext x) \<mapsto> p)\<rparr>)"
    and new_callback: "P a b x \<Longrightarrow> wstreamByISO x i = 0 \<Longrightarrow>
      P a b (x\<lparr>wnext := Suc (wnext x), wstreams := (wstreams x)(Suc (wnext x) \<mapsto> (i, c)),
              wstreamByISO := (wstreamByISO x)(i := Suc (wnext x))\<rparr>)"
    and drop_caching: "P a b x \<Longrightarrow> P a b (x\<lparr>wcaching := (wcaching x)(n := None)\<rparr>)"
    and drop_serialization: "P a b x \<Longrightarrow> wserializations x = M \<Longrightarrow> P a b (x\<lparr>wserializations := M(n := None)\<rparr>)"
    and drop_resolution: "P a b x \<Longrightarrow> P a b (x\<lparr>wresolutions := (wresolutions x)(n := None)\<rparr>)"
    and drop_callback: "P a b x \<Longrightarrow> wstreamByISO x i = n \<Longrightarrow> n \<noteq> 0 \<Longrightarrow>
      P a b (forgetCallback n i x)"
    and resolve: "P a b x \<Longrightarrow> wresolutions x n = Some p \<Longrightarrow>
      P a b (x\<lparr>wresolutions := (wresolutions x)(n := None), resolved := resolved x @ [n]\<rparr>)"
    and set_received: "P a b x \<Longrightarrow> P a b (upd_stream k (\<lambda>s. s\<lparr>ws_received := True\<rparr>) x)"
    and set_cacheMarked: "P a b x \<Longrightarrow> P a b (upd_stream k (\<lambda>s. s\<lparr>ws_cacheMarked := True\<rparr>) x)"
    and open_stream: "P a b x \<Longrightarrow> P a b (openStream i h x)"
    and consume: "P a b x \<Longrightarrow> ws_iso (streamings x k) = Some i \<Longrightarrow> ws_state (streamings x k) = wasmStreamingOpen \<Longrightarrow>
      st \<noteq> wasmStreamingOpen \<Longrightarrow> P (a(i := Suc (a i))) b (consumeStream k st x)"
    and release: "P (a(i := Suc (a i))) b x \<Longrightarrow> P a b (releaseActiveWasmStream i x)"
    and begin_callback: "P a b x \<Longrightarrow> P a (b(i := Suc (b i))) (beginWasmCallback i x)"
    and end_callback: "P a (b(i := Suc (b i))) x \<Longrightarrow> P a b (endWasmCallback i x)"
begin

definition keeps :: "(wsys \<Rightarrow> wsys) \<Rightarrow> bool" where
  "keeps f \<longleftrightarrow> (\<forall>a b x. P a b x \<longrightarrow> P a b (f x))"

lemma keepsI: "(\<And>a b x. P a b x \<Longrightarrow> P a b (f x)) \<Longrightarrow> keeps f"
  by (simp add: keeps_def)

lemma keepsD: "keeps f \<Longrightarrow> P a b x \<Longrightarrow> P a b (f x)"
  by (simp add: keeps_def)

lemma P_onBase: "P a b x \<Longrightarrow> P a b (snd (wOnBase f x))"
  by (simp add: wOnBase_def lift_def upd_wbase)

lemma P_guarded: "P a b x \<Longrightarrow> (P a b x \<Longrightarrow> (\<forall>g \<in> set gs. g = None) \<Longrightarrow> P a b (snd (k x))) \<Longrightarrow> P a b (snd (guarded gs k x))"
  by (auto simp: snd_guarded)

lemma P_andThen: "P a b (snd m) \<Longrightarrow> (\<And>v y. m = (Inr v, y) \<Longrightarrow> P a b y \<Longrightarrow> P a b (snd (k v y))) \<Longrightarrow> P a b (snd (andThen m k))"
  by (cases m; cases "fst m") (auto simp: snd_andThen)

lemma P_dispatchers: "P a b x \<Longrightarrow> P a b (snd (ensureWasmDispatchers E t ds x))"
  by (auto simp: ensureWasmDispatchers_def wOnBase_def lift_def intro: upd_dispatchers upd_wbase split: option.split sum.split)

lemma P_register: "P a b x \<Longrightarrow> P a b (snd (registerWasmCachingCallback cb x))"
  by (auto simp: registerWasmCachingCallback_def nextWasmCallbackID_def intro: new_caching split: option.split)

lemma P_drop: "P a b x \<Longrightarrow> P a b (dropWasmCachingCallback n x)"
  by (simp add: dropWasmCachingCallback_def drop_caching)

lemma P_engineStep: "keeps f \<Longrightarrow> P a b x \<Longrightarrow> P a b (snd (engineStep E t f oper p args x))"
  by (auto simp: engineStep_def shim_eq Let_def intro: keepsD upd_wbase)

lemma P_finishStream:
  assumes "keeps f" "P a b x" "streamings x = S" "ws_iso (S k) = Some i" "ws_state (S k) = wasmStreamingOpen"
    "st \<noteq> wasmStreamingOpen"
  shows "P a b (snd (finishStream E t f k st oper p args x))"
  using P_engineStep [OF assms(1) consume [OF assms(2), of k i st]] assms(3-)
  by (auto simp: finishStream_def split_def Let_def intro: release)

lemma P_Stream_Finish: "keeps f \<Longrightarrow> P a b x \<Longrightarrow> P a b (snd (Stream_Finish E t f mk cb x))"
  by (auto simp: Stream_Finish_def onStream_def split_def Let_def lockOpen_None intro!: P_guarded P_andThen P_register P_drop
      dest!: register_streamings intro: P_finishStream split: option.split)

lemma P_Stream_Abort: "keeps f \<Longrightarrow> P a b x \<Longrightarrow> P a b (snd (Stream_Abort E t f mk mv x))"
  by (auto simp: Stream_Abort_def onStream_def lockOpen_None intro!: P_guarded intro: P_finishStream split: option.split)

lemma P_Stream_Close: "keeps f \<Longrightarrow> P a b x \<Longrightarrow> P a b (snd (Stream_Close E t f mk x))"
  by (auto simp: Stream_Close_def onStream_def lockOpen_None intro!: P_guarded intro: P_finishStream split: option.split)

lemma P_new_resolution_fail:
  "P a b x \<Longrightarrow> P a b (snd (nextWasmCallbackID x))"
  by (simp add: nextWasmCallbackID_def alloc)

lemma P_Comp_Finish: "keeps f \<Longrightarrow> P a b x \<Longrightarrow> P a b (snd (Comp_Finish E t f mk ms mc cc cb x))"
  by (auto simp: Comp_Finish_def onComp_def split_def Let_def nextWasmCallbackID_def
      intro!: P_guarded P_andThen P_register P_drop drop_resolution P_engineStep upd_comps new_resolution
      split: option.split sum.split)

lemma P_Comp_consume: "keeps f \<Longrightarrow> P a b x \<Longrightarrow> P a b (snd (Comp_consume E t f k st oper p x))"
  by (auto simp: Comp_consume_def intro!: P_engineStep upd_comps)

lemma P_Comp_Abort: "keeps f \<Longrightarrow> P a b x \<Longrightarrow> P a b (snd (Comp_Abort E t f mk x))"
  by (auto simp: Comp_Abort_def onComp_def intro!: P_guarded P_Comp_consume split: option.split)

lemma P_Comp_Close: "keeps f \<Longrightarrow> P a b x \<Longrightarrow> P a b (snd (Comp_Close E t f mk x))"
  by (auto simp: Comp_Close_def onComp_def intro!: P_guarded P_Comp_consume split: option.split)

lemma P_Pump: "keeps f \<Longrightarrow> P a b x \<Longrightarrow> P a b (snd (PumpMessageLoop E t f i wt x))"
  by (auto simp: PumpMessageLoop_def shim_eq Let_def intro!: P_guarded keepsD [of f] upd_wbase)

lemma P_StreamCall: "keeps f \<Longrightarrow> P a b x \<Longrightarrow> P a b (snd (wasmStreamingDispatcher t f fr x))"
  by (auto simp: wasmStreamingDispatcher_def openBorrowed_def closeBorrowed_def Let_def
      intro!: P_guarded end_callback upd_wbase keepsD [of f] open_stream begin_callback split: option.split)

lemma P_ResolutionCall: "keeps f \<Longrightarrow> P a b x \<Longrightarrow> P a b (snd (wasmResolutionDispatcher t f fr x))"
  by (auto simp: wasmResolutionDispatcher_def openBorrowed_def closeBorrowed_def Let_def
      intro!: P_guarded end_callback upd_wbase keepsD [of f] resolve begin_callback split: option.split)

lemma P_CachingCall: "keeps f \<Longrightarrow> P a b x \<Longrightarrow> P a b (snd (wasmCachingDispatcher f n h x))"
  by (auto simp: wasmCachingDispatcher_def Let_def intro!: upd_ifaces keepsD [of f] new_obj split: option.split)

lemma P_SetCallback: "P a b x \<Longrightarrow> P a b (snd (SetWasmStreamingCallback E t ds i cb x))"
  by (auto simp: SetWasmStreamingCallback_def split_def Let_def nextWasmCallbackID_def wOnBase_def lift_def
      intro!: P_guarded P_andThen P_dispatchers alloc drop_callback upd_wbase new_callback split: sum.split if_splits)

lemma P_release: "P a b x \<Longrightarrow> P a b (snd (releaseWasmStreamingHostState E t i x))"
  by (auto simp: releaseWasmStreamingHostState_def Let_def wOnBase_def lift_def intro!: P_guarded P_andThen drop_callback upd_wbase)

lemma P_plain:
  "P a b x \<Longrightarrow> P a b (snd (Stream_OnBytesReceived E t mk c x))"
  "P a b x \<Longrightarrow> P a b (snd (Stream_SetURL E t mk c x))"
  "P a b x \<Longrightarrow> P a b (snd (Stream_SetHasCompiledModuleBytes E t mk x))"
  "P a b x \<Longrightarrow> P a b (snd (WireBytes E t mk x))"
  "P a b x \<Longrightarrow> P a b (snd (SetCachedCompiledModuleBytes E t mk c x))"
  "P a b x \<Longrightarrow> P a b (snd (NewWasmModuleCompilation E t ds x))"
  "P a b x \<Longrightarrow> P a b (snd (Comp_OnBytesReceived E t mk c x))"
  "P a b x \<Longrightarrow> P a b (snd (Comp_SetURL E t mk c x))"
  "P a b x \<Longrightarrow> P a b (snd (Comp_SetHasCompiledModuleBytes E t mk x))"
  by (auto simp: Stream_OnBytesReceived_def Stream_SetURL_def Stream_SetHasCompiledModuleBytes_def WireBytes_def
      wireBytesLocked_def SetCachedCompiledModuleBytes_def setCachedCompiledModuleBytesLocked_def
      NewWasmModuleCompilation_def Comp_OnBytesReceived_def Comp_SetURL_def Comp_SetHasCompiledModuleBytes_def
      onStream_def onComp_def Let_def
      intro!: P_guarded P_andThen P_onBase P_dispatchers set_received set_cacheMarked upd_ifaces upd_comps new_obj
      split: option.split)

lemma P_serialization: "P a b x \<Longrightarrow> P a b (snd (SetMoreFunctionsCanBeSerializedCallback E t mk cb x))"
  by (auto simp: SetMoreFunctionsCanBeSerializedCallback_def onComp_def split_def Let_def nextWasmCallbackID_def
      wOnBase_def lift_def
      intro!: P_guarded P_andThen alloc upd_comps drop_serialization upd_wbase new_serialization
      split: option.split sum.split if_splits)

lemma keeps_fold: "(\<And>f. f \<in> set fs \<Longrightarrow> keeps f) \<Longrightarrow> keeps (fold id fs)"
  by (induction fs) (auto simp: keeps_def)

lemma keeps_wexec: "keeps (wexec E t ds c)"
proof (induction c)
  case (WSerializationCall n h as)
  have "keeps (fold id (map (wexec E t ds) as))" by (rule keeps_fold) (use WSerializationCall in auto)
  then show ?case by (auto simp: keeps_def wasmSerializationDispatcher_def)
next
  case (WDropCall n k)
  show ?case by (auto simp: keeps_def wasmDropDispatcher_def intro: drop_resolution drop_serialization)
next
  case (WClearCallback i)
  show ?case by (auto simp: keeps_def ClearWasmStreamingCallback_def intro!: P_guarded P_release)
qed (((rule keepsI,
    auto intro!: P_Stream_Finish P_Stream_Abort P_Stream_Close P_Comp_Finish P_Comp_Abort P_Comp_Close P_Pump P_StreamCall P_ResolutionCall
      P_CachingCall P_SetCallback P_plain P_serialization upd_wbase keeps_fold)[1])+)

lemma P_wruns: "P a b x \<Longrightarrow> P a b (wruns E ds tr x)"
proof (induction tr arbitrary: x)
  case (Cons p tr)
  then show ?case by (cases p) (simp add: keepsD [OF keeps_wexec])
qed simp

end

section \<open>Counting streams and callbacks\<close>

definition openStreams :: "(ref \<Rightarrow> WasmStreaming) \<Rightarrow> ref \<Rightarrow> ref set" where
  "openStreams S i = {k. ws_iso (S k) = Some i \<and> ws_state (S k) = wasmStreamingOpen}"

definition counted :: "(ref \<Rightarrow> nat) \<Rightarrow> (ref \<Rightarrow> nat) \<Rightarrow> wsys \<Rightarrow> bool" where
  "counted a b x \<longleftrightarrow>
     (\<forall>i. wactiveStreams x i = card (openStreams (streamings x) i) + a i)
     \<and> wactiveCallbacks x = b
     \<and> (\<forall>k. nextObj x \<le> k \<longrightarrow> ws_iso (streamings x k) = None)"

lemma openStreams_flags:
  "openStreams (S(k := (S k)\<lparr>ws_received := r\<rparr>)) i = openStreams S i"
  "openStreams (S(k := (S k)\<lparr>ws_cacheMarked := c\<rparr>)) i = openStreams S i"
  by (auto simp: openStreams_def)

lemma openStreams_new:
  "ws_iso (S k) = None \<Longrightarrow>
   openStreams (S(k := \<lparr>ws_iso = Some i, ws_handle = h, ws_state = wasmStreamingOpen, ws_received = r, ws_cacheMarked = c\<rparr>)) j
     = (if j = i then insert k (openStreams S i) else openStreams S j)"
  by (auto simp: openStreams_def)

lemma openStreams_consume:
  "ws_iso (S k) = Some i \<Longrightarrow> st \<noteq> wasmStreamingOpen \<Longrightarrow>
   openStreams (S(k := (S k)\<lparr>ws_state := st, ws_handle := h\<rparr>)) j
     = (if j = i then openStreams S i - {k} else openStreams S j)"
  by (auto simp: openStreams_def)

lemma finite_openStreams: "counted a b x \<Longrightarrow> finite (openStreams (streamings x) i)"
proof -
  assume x: "counted a b x"
  have "openStreams (streamings x) i \<subseteq> {..<nextObj x}"
  proof
    fix k assume "k \<in> openStreams (streamings x) i"
    then have "ws_iso (streamings x k) \<noteq> None" by (simp add: openStreams_def)
    with x show "k \<in> {..<nextObj x}" by (force simp: counted_def not_less [symmetric])
  qed
  then show ?thesis using finite_subset by blast
qed

lemma counted_open: "counted a b x \<Longrightarrow> counted a b (openStream i h x)"
  using finite_openStreams [of a b x]
  by (auto simp: counted_def openStream_def openStreams_new) (simp add: openStreams_def)

lemma counted_consume:
  assumes "counted a b x" "ws_iso (streamings x k) = Some i" "ws_state (streamings x k) = wasmStreamingOpen" "st \<noteq> wasmStreamingOpen"
  shows "counted (a(i := Suc (a i))) b (consumeStream k st x)"
proof -
  have k: "k \<in> openStreams (streamings x) i" using assms by (simp add: openStreams_def)
  then have "card (openStreams (streamings x) i) = Suc (card (openStreams (streamings x) i - {k}))"
    using finite_openStreams [OF assms(1)] by (metis card.remove)
  with assms show ?thesis by (auto simp: counted_def consumeStream_def openStreams_consume)
qed

interpretation count: wasm_inv counted
  by unfold_locales
    ((erule counted_open | erule (3) counted_consume | (auto simp: counted_def releaseActiveWasmStream_def
      beginWasmCallback_def endWasmCallback_def forgetCallback_def openStreams_flags)[1])+)

lemma counted_boot: "counted (\<lambda>_. 0) (\<lambda>_. 0) (wboot w)"
  by (auto simp: counted_def wboot_def openStreams_def)

section \<open>Registered numbers\<close>

definition ids_ok :: "wsys \<Rightarrow> bool" where
  "ids_ok x \<longleftrightarrow>
     (\<forall>n. n \<in> dom (wstreams x) \<union> dom (wcaching x) \<union> dom (wresolutions x) \<union> dom (wserializations x) \<union> set (resolved x)
        \<longrightarrow> 0 < n \<and> n \<le> wnext x)
     \<and> distinct (resolved x) \<and> dom (wresolutions x) \<inter> set (resolved x) = {}"

definition callbacks_ok :: "wsys \<Rightarrow> bool" where
  "callbacks_ok x \<longleftrightarrow>
     (\<forall>n i c. wstreams x n = Some (i, c) \<longrightarrow> n \<noteq> 0 \<and> n \<le> wnext x \<and> wstreamByISO x i = n)
     \<and> (\<forall>i. wstreamByISO x i \<le> wnext x)"

interpretation ids: wasm_inv "\<lambda>a b. ids_ok"
  by unfold_locales
    (auto simp: ids_ok_def consumeStream_def openStream_def releaseActiveWasmStream_def beginWasmCallback_def endWasmCallback_def
      forgetCallback_def le_Suc_eq split: if_splits)

interpretation cbs: wasm_inv "\<lambda>a b. callbacks_ok"
  by (unfold_locales,
    auto simp: callbacks_ok_def consumeStream_def openStream_def releaseActiveWasmStream_def beginWasmCallback_def
      endWasmCallback_def forgetCallback_def le_Suc_eq split: if_splits, fastforce)

section \<open>What a stream never takes back\<close>

definition stream_done :: "ref \<Rightarrow> wsys \<Rightarrow> bool" where
  "stream_done k x \<longleftrightarrow> k < nextObj x \<and> ws_state (streamings x k) \<noteq> wasmStreamingOpen"

definition stream_received :: "ref \<Rightarrow> wsys \<Rightarrow> bool" where
  "stream_received k x \<longleftrightarrow> k < nextObj x \<and> ws_received (streamings x k)"

interpretation gone: wasm_inv "\<lambda>a b. stream_done k" for k
  by unfold_locales
    (auto simp: stream_done_def consumeStream_def openStream_def releaseActiveWasmStream_def beginWasmCallback_def
      endWasmCallback_def forgetCallback_def)

interpretation received: wasm_inv "\<lambda>a b. stream_received k" for k
  by unfold_locales
    (auto simp: stream_received_def consumeStream_def openStream_def releaseActiveWasmStream_def beginWasmCallback_def
      endWasmCallback_def forgetCallback_def)

lemma ids_ok_boot: "ids_ok (wboot w)"
  by (simp add: ids_ok_def wboot_def)

lemma callbacks_ok_boot: "callbacks_ok (wboot w)"
  by (simp add: callbacks_ok_def wboot_def)

lemma done_refuses: "stream_done k x \<Longrightarrow> lockOpen t k oper x \<noteq> None"
  by (auto simp: stream_done_def lockOpen_None)

lemma done_ignores:
  assumes "stream_done k x"
    and "c \<in> {WOnBytes (Some k) b, WSetURL (Some k) b, WSetHasCache (Some k), WFinish (Some k) cb as, WAbort (Some k) mv as, WClose (Some k) as}"
  shows "wexec E t ds c x = x"
proof -
  have lo: "(lockOpen t k oper x = None) = False" for oper using done_refuses [OF assms(1)] by simp
  show ?thesis using assms(2)
    by (auto simp: lo Stream_OnBytesReceived_def Stream_SetURL_def Stream_SetHasCompiledModuleBytes_def Stream_Finish_def
      Stream_Abort_def Stream_Close_def onStream_def snd_guarded)
qed

section \<open>A concrete run\<close>

definition with_isolate :: world where
  "with_isolate = runs steady start (boot None)"

definition streaming :: wsys where
  "streaming = wruns steady [] [(1, WSetCallback 0 (Some 4)),
     (1, WStreamCall \<lparr>sf_id = 1, sf_isolate = 7, sf_contextWire = 0, sf_scopeWire = 0, sf_sourceWire = 0, sf_streamHandle = 9\<rparr> [])]
     (wboot with_isolate)"

lemmas streaming_simps = eval_simps op_defs check_defs streaming_def with_isolate_def wboot_def lift_def maxUint64_def

lemma streaming_state:
  "streamings streaming 0 = \<lparr>ws_iso = Some 0, ws_handle = 9, ws_state = wasmStreamingOpen, ws_received = False, ws_cacheMarked = False\<rparr>"
  "Isolate_check 1 0 (wbase streaming) = None" "nextObj streaming = 1"
  by (simp_all add: streaming_simps)

end
