(* ===== verification/Hostdata.thy ===== *)
theory Hostdata
  imports Values
begin

text \<open>
  external.go: externals, the host-reference and slot registries of an isolate, the internal fields of an
  object and strict equality. The registries are plain Go maps behind a mutex; they are their own
  state \<open>hdata\<close> here, so that the callback registry can carry it. The lemmas on tokens say that a
  host reference can be told from every other one for \<open>2 ^ 61\<close> calls.
\<close>

section \<open>Externals\<close>

definition NewExternal :: "engine \<Rightarrow> tid \<Rightarrow> ref \<Rightarrow> uintptr \<Rightarrow> world \<Rightarrow> Value result" where
  [op_defs]: "NewExternal E t s payload w =
     guarded [Scope_check t s w]
       (\<lambda>w. andThen (callHandle E t ''NewExternal'' ''gov8_external_new''
               [W (i_handle (isolates w (s_iso (scopes w s)))), W (s_handle (scopes w s)), W payload] w)
             (\<lambda>h w. (Inr \<lparr>v_iso = s_iso (scopes w s), v_sc = s, v_h = h\<rparr>, w))) w"

definition IsExternal :: "engine \<Rightarrow> tid \<Rightarrow> Value \<Rightarrow> world \<Rightarrow> bool result" where
  [op_defs]: "IsExternal E t v w =
     guarded [Value_check t v w]
       (\<lambda>w. andThen (handleChecked t (v_iso v) w) (\<lambda>ih w.
            boolCall E t ''IsExternal'' ''gov8_value_is_external'' [W ih, W (v_h v)] w)) w"

definition ExternalValue :: "engine \<Rightarrow> tid \<Rightarrow> Value \<Rightarrow> world \<Rightarrow> uintptr result" where
  [op_defs]: "ExternalValue E t v w =
     guarded [Value_check t v w]
       (\<lambda>w. andThen (checkedHandle t (v_sc v) w) (\<lambda>sh w.
            callHandle E t ''ExternalValue'' ''gov8_external_value''
              [W (i_handle (isolates w (v_iso v))), W sh, W (v_h v)] w)) w"

section \<open>Host references and slots\<close>

text \<open>Go values of type any are numbers. The log \<open>slotsReleased\<close> records the values whose
  ReleaseSlotValue ran.\<close>

record hostRefs =
  hr_next :: "64 word"
  hr_values :: "64 word \<rightharpoonup> nat"

record hdata =
  hostRefRegistries :: "ref \<rightharpoonup> hostRefs"
  slotRegistries :: "ref \<rightharpoonup> (nat \<rightharpoonup> nat)"
  slotsReleased :: "nat list"

definition refsFor :: "ref \<Rightarrow> hdata \<Rightarrow> hostRefs" where
  "refsFor i d = (case hostRefRegistries d i of Some r \<Rightarrow> r | None \<Rightarrow> \<lparr>hr_next = 0, hr_values = Map.empty\<rparr>)"

definition putRefs :: "ref \<Rightarrow> hostRefs \<Rightarrow> hdata \<Rightarrow> hdata" where
  "putRefs i r d = d\<lparr>hostRefRegistries := (hostRefRegistries d)(i \<mapsto> r)\<rparr>"

definition HostRefAdd :: "tid \<Rightarrow> ref \<Rightarrow> nat \<Rightarrow> world \<Rightarrow> hdata \<Rightarrow> (error, uintptr, hdata) outcome" where
  "HostRefAdd t i v w d =
     guarded [Isolate_check t i w]
       (\<lambda>d. let r = refsFor i d; n = hr_next r + 1
            in (Inr (push_bit 3 n), putRefs i (r\<lparr>hr_next := n, hr_values := (hr_values r)(n \<mapsto> v)\<rparr>) d)) d"

definition hostRefSplit :: "uintptr \<Rightarrow> (64 word) option" where
  "hostRefSplit token = (if token = 0 \<or> token mod 8 \<noteq> 0 then None else Some (drop_bit 3 token))"

definition HostRefGet :: "ref \<Rightarrow> uintptr \<Rightarrow> hdata \<Rightarrow> nat option \<times> hdata" where
  "HostRefGet i token d =
     (case hostRefSplit token of
        None \<Rightarrow> (None, d)
      | Some n \<Rightarrow> (hr_values (refsFor i d) n, putRefs i (refsFor i d) d))"

definition HostRefRemove :: "ref \<Rightarrow> uintptr \<Rightarrow> hdata \<Rightarrow> nat option \<times> hdata" where
  "HostRefRemove i token d =
     (case hostRefSplit token of
        None \<Rightarrow> (None, d)
      | Some n \<Rightarrow>
          let r = refsFor i d
          in (hr_values r n, putRefs i (r\<lparr>hr_values := (hr_values r)(n := None)\<rparr>) d))"

definition slotsFor :: "ref \<Rightarrow> hdata \<Rightarrow> nat \<rightharpoonup> nat" where
  "slotsFor i d = (case slotRegistries d i of Some m \<Rightarrow> m | None \<Rightarrow> Map.empty)"

definition putSlots :: "ref \<Rightarrow> (nat \<rightharpoonup> nat) \<Rightarrow> hdata \<Rightarrow> hdata" where
  "putSlots i m d = d\<lparr>slotRegistries := (slotRegistries d)(i \<mapsto> m)\<rparr>"

text \<open>\<open>rel v\<close>: the dynamic type of \<open>v\<close> implements slotReleaser.\<close>

definition releaseSlotValue :: "(nat \<Rightarrow> bool) \<Rightarrow> nat \<Rightarrow> hdata \<Rightarrow> hdata" where
  "releaseSlotValue rel v d = (if rel v then d\<lparr>slotsReleased := slotsReleased d @ [v]\<rparr> else d)"

definition SetSlot :: "(nat \<Rightarrow> bool) \<Rightarrow> ref \<Rightarrow> nat \<Rightarrow> nat \<Rightarrow> hdata \<Rightarrow> bool \<times> hdata" where
  "SetSlot rel i key v d =
     (let m = slotsFor i d; d1 = putSlots i (m(key \<mapsto> v)) d
      in case m key of None \<Rightarrow> (True, d1) | Some old \<Rightarrow> (False, releaseSlotValue rel old d1))"

definition GetSlot :: "ref \<Rightarrow> nat \<Rightarrow> hdata \<Rightarrow> nat option \<times> hdata" where
  "GetSlot i key d = (slotsFor i d key, putSlots i (slotsFor i d) d)"

definition RemoveSlot :: "ref \<Rightarrow> nat \<Rightarrow> hdata \<Rightarrow> nat option \<times> hdata" where
  "RemoveSlot i key d = (slotsFor i d key, putSlots i ((slotsFor i d)(key := None)) d)"

text \<open>\<open>ks\<close> is the order in which the Go map is iterated.\<close>

definition releaseSlots :: "(nat \<Rightarrow> bool) \<Rightarrow> nat list \<Rightarrow> ref \<Rightarrow> hdata \<Rightarrow> hdata" where
  "releaseSlots rel ks i d =
     (let d1 = d\<lparr>slotRegistries := (slotRegistries d)(i := None), hostRefRegistries := (hostRefRegistries d)(i := None)\<rparr>
      in case slotRegistries d i of
           None \<Rightarrow> d1
         | Some m \<Rightarrow> fold (releaseSlotValue rel) (map (\<lambda>k. the (m k)) ks) d1)"

section \<open>Internal fields\<close>

definition InternalFieldCount :: "engine \<Rightarrow> tid \<Rightarrow> Value \<Rightarrow> world \<Rightarrow> int result" where
  [op_defs]: "InternalFieldCount E t v w =
     guarded [Value_check t v w]
       (\<lambda>w. andThen (checkedHandle t (v_sc v) w) (\<lambda>sh w.
            andThen (callErr E t ''InternalFieldCount'' ''gov8_object_internal_field_count''
               [W (i_handle (isolates w (v_iso v))), W sh, W (v_h v)] w)
             (\<lambda>r w. (Inr (sint (r1 r)), w)))) w"

text \<open>\<open>uintptr(int32(index))\<close> of a Go int.\<close>

definition indexWord :: "int \<Rightarrow> uintptr" where
  "indexWord n = scast (word_of_int n :: 32 word)"

text \<open>The common beginning of the accessors: the scope handle, then the number of fields.\<close>

definition fieldAccess :: "engine \<Rightarrow> tid \<Rightarrow> Value \<Rightarrow> (uintptr \<Rightarrow> int \<Rightarrow> world \<Rightarrow> 'a result) \<Rightarrow> world \<Rightarrow> 'a result" where
  [op_defs]: "fieldAccess E t v k w =
     andThen (checkedHandle t (v_sc v) w) (\<lambda>sh w. andThen (InternalFieldCount E t v w) (\<lambda>count w. k sh count w))"

definition SetInternalField :: "engine \<Rightarrow> tid \<Rightarrow> Value \<Rightarrow> int \<Rightarrow> Value \<Rightarrow> world \<Rightarrow> bool result" where
  [op_defs]: "SetInternalField E t v index dat w =
     guarded [Value_check t v w, Value_check t dat w, fail_if (v_iso dat \<noteq> v_iso v) (Foreign KValue)]
       (fieldAccess E t v (\<lambda>sh count w.
          if index < 0 \<or> index \<ge> count then (Inr False, w)
          else andThen (unitCall E t ''SetInternalField'' ''gov8_object_set_internal_field''
                 [W (i_handle (isolates w (v_iso v))), W sh, W (v_h v), W (indexWord index), W (v_h dat)] w)
               (\<lambda>_ w. (Inr True, w)))) w"

definition GetInternalField :: "engine \<Rightarrow> tid \<Rightarrow> Value \<Rightarrow> int \<Rightarrow> world \<Rightarrow> Value option result" where
  [op_defs]: "GetInternalField E t v index w =
     guarded [Value_check t v w]
       (fieldAccess E t v (\<lambda>sh count w.
          if index < 0 \<or> index \<ge> count then (Inr None, w)
          else andThen (callHandle E t ''GetInternalField'' ''gov8_object_get_internal_field''
                 [W (i_handle (isolates w (v_iso v))), W sh, W (v_h v), W (indexWord index)] w)
               (\<lambda>h w. if h = 0 then (Inr None, w) else (Inr (Some \<lparr>v_iso = v_iso v, v_sc = v_sc v, v_h = h\<rparr>), w)))) w"

definition SetAlignedPointerInInternalField :: "engine \<Rightarrow> tid \<Rightarrow> Value \<Rightarrow> int \<Rightarrow> uintptr \<Rightarrow> int \<Rightarrow> world \<Rightarrow> unit result" where
  [op_defs]: "SetAlignedPointerInInternalField E t v index ptr tag w =
     guarded [Value_check t v w,
              fail_if (tag < 0 \<or> tag > 15) (Misuse ''embedder data tag out of range 0..15''),
              fail_if (ptr mod 8 \<noteq> 0) (Misuse ''aligned internal-field pointer is not 8-aligned'')]
       (fieldAccess E t v (\<lambda>sh count w.
          if index < 0 \<or> index \<ge> count then (Inl (Misuse ''internal field index out of bounds''), w)
          else unitCall E t ''SetAlignedPointerInInternalField'' ''gov8_object_set_aligned_pointer_in_internal_field''
                 [W (i_handle (isolates w (v_iso v))), W sh, W (v_h v), W (indexWord index), W ptr, W (word_of_int tag)] w)) w"

text \<open>\<open>detail\<close> is the error text the shim holds after the call; empty after a call that did not fail.\<close>

definition GetAlignedPointerFromInternalField ::
    "engine \<Rightarrow> tid \<Rightarrow> string \<Rightarrow> Value \<Rightarrow> int \<Rightarrow> int \<Rightarrow> world \<Rightarrow> uintptr option result" where
  [op_defs]: "GetAlignedPointerFromInternalField E t detail v index tag w =
     guarded [Value_check t v w, fail_if (tag < 0 \<or> tag > 15) (Misuse ''embedder data tag out of range 0..15'')]
       (fieldAccess E t v (\<lambda>sh count w.
          if index < 0 \<or> index \<ge> count then (Inr None, w)
          else (case callHandle E t ''GetAlignedPointerFromInternalField''
                       ''gov8_object_get_aligned_pointer_from_internal_field''
                       [W (i_handle (isolates w (v_iso v))), W sh, W (v_h v), W (indexWord index), W (word_of_int tag)] w of
                  (Inl e, w) \<Rightarrow> (if detail = '''' \<and> (case e of ShimError oper c \<Rightarrow> c = 0 | _ \<Rightarrow> False) then (Inr (Some 0), w) else (Inl e, w))
                | (Inr h, w) \<Rightarrow> (Inr (Some h), w)))) w"

definition StrictEquals :: "engine \<Rightarrow> tid \<Rightarrow> Value \<Rightarrow> Value \<Rightarrow> world \<Rightarrow> bool result" where
  [op_defs]: "StrictEquals E t v other w =
     guarded [Value_check t v w, Value_check t other w, fail_if (v_iso other \<noteq> v_iso v) (Foreign KValue)]
       (\<lambda>w. andThen (handleChecked t (v_iso v) w) (\<lambda>ih w.
            boolCall E t ''StrictEquals'' ''gov8_value_strict_equals'' [W ih, W (v_h v), W (v_h other)] w)) w"

section \<open>Tokens\<close>

text \<open>The number a token carries survives the shift as long as it fits into 61 bits.\<close>

lemma unat_token: "unat n < 2 ^ 61 \<Longrightarrow> unat (push_bit 3 n :: 64 word) = 8 * unat n"
  by (simp add: push_bit_eq_mult unat_mult_lem [THEN iffD1])

lemma split_token:
  assumes "n \<noteq> 0" "unat n < 2 ^ 61"
  shows "hostRefSplit (push_bit 3 n) = Some n"
proof -
  have u: "unat (push_bit 3 n) = 8 * unat n" by (rule unat_token [OF assms(2)])
  have "drop_bit 3 (push_bit 3 n) = n"
    by (simp add: drop_bit_eq_div word_unat_eq_iff unat_div_distrib u)
  moreover have "push_bit 3 n \<noteq> 0" using u assms(1) by (auto simp: unsigned_eq_0_iff)
  moreover have "push_bit 3 n mod 8 = 0" by (simp add: word_unat_eq_iff unat_mod_distrib u)
  ultimately show ?thesis by (simp add: hostRefSplit_def)
qed


section \<open>Sequences of calls\<close>

datatype host_op =
    HRefAdd ref nat | HRefGet ref uintptr | HRefRemove ref uintptr
  | HSetSlot ref nat nat | HGetSlot ref nat | HRemoveSlot ref nat | HRelease ref "nat list"

text \<open>Between the calls the rest of the binding may do anything, so each call comes with the state of
  the world it sees.\<close>

primrec host_exec :: "(nat \<Rightarrow> bool) \<Rightarrow> tid \<Rightarrow> world \<Rightarrow> host_op \<Rightarrow> hdata \<Rightarrow> hdata" where
  "host_exec rel t w (HRefAdd i v) d = snd (HostRefAdd t i v w d)"
| "host_exec rel t w (HRefGet i k) d = snd (HostRefGet i k d)"
| "host_exec rel t w (HRefRemove i k) d = snd (HostRefRemove i k d)"
| "host_exec rel t w (HSetSlot i k v) d = snd (SetSlot rel i k v d)"
| "host_exec rel t w (HGetSlot i k) d = snd (GetSlot i k d)"
| "host_exec rel t w (HRemoveSlot i k) d = snd (RemoveSlot i k d)"
| "host_exec rel t w (HRelease i ks) d = releaseSlots rel ks i d"

definition host_runs :: "(nat \<Rightarrow> bool) \<Rightarrow> (tid \<times> world \<times> host_op) list \<Rightarrow> hdata \<Rightarrow> hdata" where
  "host_runs rel tr d = fold (\<lambda>(t, w, a). host_exec rel t w a) tr d"

definition host_boot :: hdata where
  "host_boot = \<lparr>hostRefRegistries = Map.empty, slotRegistries = Map.empty, slotsReleased = []\<rparr>"

text \<open>Every number in use has been handed out, as long as the counter has not wrapped around.\<close>

definition refs_ok :: "hdata \<Rightarrow> bool" where
  "refs_ok d \<longleftrightarrow> (\<forall>i n. n \<in> dom (hr_values (refsFor i d)) \<longrightarrow> n \<noteq> 0 \<and> n \<le> hr_next (refsFor i d))"

lemma refsFor_put [simp]: "refsFor j (putRefs i r d) = (if j = i then r else refsFor j d)"
  by (simp add: refsFor_def putRefs_def)

lemma refsFor_slots [simp]:
  "refsFor j (putSlots i m d) = refsFor j d" "refsFor j (releaseSlotValue rel v d) = refsFor j d"
  by (simp_all add: refsFor_def putSlots_def releaseSlotValue_def)

lemma refsFor_release:
  "refsFor j (releaseSlots rel ks i d) = (if j = i then \<lparr>hr_next = 0, hr_values = Map.empty\<rparr> else refsFor j d)"
proof -
  have "hostRefRegistries (fold (releaseSlotValue rel) vs d) = hostRefRegistries d" for vs d
    by (induction vs arbitrary: d) (simp_all add: releaseSlotValue_def)
  then show ?thesis by (simp add: releaseSlots_def Let_def refsFor_def split: option.split)
qed

lemma unat_plus_1: "n + 1 \<noteq> 0 \<Longrightarrow> unat (n + 1) = Suc (unat n)" for n :: "64 word"
  using unatSuc [of n] by (simp add: add.commute)

lemma plus_1_nonzero: "unat n < 2 ^ 61 \<Longrightarrow> n + 1 \<noteq> 0" for n :: "64 word"
  by (auto simp: eq_neg_iff_add_eq_0 [symmetric] unsigned_minus_1_eq_mask mask_eq_exp_minus_1)

text \<open>No sequence of calls makes a counter reach its end in fewer than \<open>2 ^ 64\<close> additions; the statement
  below is about sequences of at most \<open>2 ^ 61\<close> of them.\<close>

lemma host_exec_next: "unat (hr_next (refsFor j (host_exec rel t w a d))) \<le> Suc (unat (hr_next (refsFor j d)))"
proof -
  have "unat (n + 1) \<le> Suc (unat n)" for n :: "64 word"
    by (cases "n + 1 = 0") (simp_all add: unat_plus_1)
  then show ?thesis
    by (cases a) (auto simp: HostRefAdd_def HostRefGet_def HostRefRemove_def SetSlot_def GetSlot_def RemoveSlot_def Let_def
      snd_guarded refsFor_release split: option.split)
qed

lemma refs_ok_exec:
  assumes "refs_ok d" "\<forall>i. unat (hr_next (refsFor i d)) < 2 ^ 61"
  shows "refs_ok (host_exec rel t w a d)"
proof (cases a)
  case (HRefAdd i v)
  have "n + 1 \<noteq> 0 \<and> n \<le> n + 1" if "unat n < 2 ^ 61" for n :: "64 word"
    using plus_1_nonzero [OF that] by (simp add: word_le_nat_alt unat_plus_1)
  with assms HRefAdd show ?thesis
    by (auto simp: refs_ok_def HostRefAdd_def Let_def snd_guarded split: if_splits) (meson order_trans domI)+
qed (use assms in \<open>auto simp: refs_ok_def HostRefGet_def HostRefRemove_def SetSlot_def GetSlot_def RemoveSlot_def Let_def
      refsFor_release split: option.splits if_splits\<close>)


lemma host_runs_refs:
  assumes "length tr \<le> 2 ^ 61"
  shows "refs_ok (host_runs rel tr host_boot) \<and> (\<forall>i. unat (hr_next (refsFor i (host_runs rel tr host_boot))) \<le> length tr)"
  using assms
proof (induction tr rule: rev_induct)
  case Nil
  show ?case by (simp add: host_runs_def host_boot_def refs_ok_def refsFor_def)
next
  case (snoc p tr)
  obtain t w a where p: "p = (t, w, a)" by (cases p)
  from snoc have ih: "refs_ok (host_runs rel tr host_boot)"
    "\<And>i. unat (hr_next (refsFor i (host_runs rel tr host_boot))) \<le> length tr" by simp_all
  have "unat (hr_next (refsFor i (host_runs rel tr host_boot))) < 2 ^ 61" for i
    using ih(2) [of i] snoc.prems by simp
  then have "\<forall>i. unat (hr_next (refsFor i (host_runs rel tr host_boot))) < 2 ^ 61" by blast
  with ih(1) have "refs_ok (host_exec rel t w a (host_runs rel tr host_boot))" by (rule refs_ok_exec)
  moreover have "unat (hr_next (refsFor i (host_exec rel t w a (host_runs rel tr host_boot)))) \<le> Suc (length tr)" for i
    using host_exec_next [of i rel t w a "host_runs rel tr host_boot"] ih(2) [of i] by linarith
  ultimately show ?case by (simp add: host_runs_def p)
qed

end
