(* ===== verification/Callbacks.thy ===== *)
theory Callbacks
  imports Wasm Hostdata
begin

text \<open>
  callback.go: the registry of Go callbacks and its lock-free table, dispatch from the engine, the scope,
  arguments and return value a callback receives, and the release of an isolate's host state, which
  also clears the hooks of module_advanced_residual.go, controls_hooks.go, wasm_streaming.go and external.go.
  A native frame is a numbered object that is live while its trampoline runs; closures are numbers, and
  what a closure does is a parameter of the dispatch.
\<close>

unbundle bit_operations_syntax

section \<open>State\<close>

record hostCallbackFrame =
  fr_kind :: "32 word"
  fr_flags :: "32 word"
  fr_handle :: "64 word"
  fr_argc :: "64 word"
  fr_argv :: "uintptr list option"
  fr_isolate :: uintptr
  fr_scopeWire :: uintptr
  fr_ctxWire :: uintptr
  fr_dataWire :: uintptr
  fr_thisWire :: uintptr
  fr_newTargetWire :: uintptr
  fr_propertyWire :: uintptr
  fr_valueWire :: uintptr
  fr_rvWord :: uintptr
  fr_index :: "32 word"
  fr_outIntercepted :: "32 word"
  fr_holderWire :: uintptr
  fr_outWire :: uintptr
  fr_shouldThrow :: "32 word"
  fr_pdFlags :: "32 word"
  fr_pdWritable :: "32 word"
  fr_pdEnumerable :: "32 word"
  fr_pdConfigurable :: "32 word"
  fr_pdPad :: "32 word"
  fr_pdValueWire :: uintptr

record CallbackScope =
  k_iso :: "ref option"
  k_sc :: "ref option"
  k_ctxWire :: uintptr
  k_frame :: "ref option"

text \<open>The closures of an entry by the kind of callback that runs them: \<open>fn\<close> is 0, \<open>get\<close> 1, \<open>set\<close> 2, then
  the interceptors in the order of their constants.\<close>

record hostCallbackEntry =
  he_iso :: ref
  he_ctx :: uintptr
  he_closure :: "nat \<rightharpoonup> nat"

type_synonym chunk = "nat \<rightharpoonup> hostCallbackEntry"

text \<open>
  \<open>hfast\<close> is the directory of chunks (\<open>None\<close> before the first store); an entry of the directory that was
  never allocated is nil. Frames lie on the native stack: \<open>liveFrames\<close> holds the frames whose callback
  has not returned. \<open>hran\<close> logs the closures that ran.
\<close>

record hsys =
  hwasm :: wsys
  hhost :: hdata
  hnext :: "64 word"
  hentries :: "64 word \<rightharpoonup> hostCallbackEntry"
  hlazyGetters :: "ref \<times> uintptr \<Rightarrow> 64 word"
  hfast :: "chunk option list option"
  hdispatcherErr :: "error option option"
  frames :: "ref \<Rightarrow> hostCallbackFrame"
  liveFrames :: "ref set"
  cscopes :: "ref \<Rightarrow> CallbackScope"
  hnextObj :: nat
  marActive :: "64 word \<rightharpoonup> nat"
  marByIso :: "ref \<Rightarrow> 64 word list"
  chEntries :: "nat \<times> uintptr \<rightharpoonup> ref option"
  hran :: "nat list"

type_synonym 'a hresult = "(error, 'a, hsys) outcome"

abbreviation hworld :: "hsys \<Rightarrow> world" where
  "hworld x \<equiv> wbase (hwasm x)"

abbreviation put_hworld :: "world \<Rightarrow> hsys \<Rightarrow> hsys" where
  "put_hworld w x \<equiv> x\<lparr>hwasm := (hwasm x)\<lparr>wbase := w\<rparr>\<rparr>"

definition hOnBase :: "(world \<Rightarrow> 'a result) \<Rightarrow> hsys \<Rightarrow> 'a hresult" where
  [op_defs]: "hOnBase = lift hworld put_hworld"

abbreviation nilDereference :: error where
  "nilDereference \<equiv> Misuse ''panic: nil pointer dereference''"

section \<open>The fast table\<close>

definition hostCallbackFastChunkSize :: nat where
  "hostCallbackFastChunkSize = 1024"

definition chunkIndex :: "64 word \<Rightarrow> nat" where
  "chunkIndex h = unat (h - 1) div hostCallbackFastChunkSize"

definition chunkSlot :: "64 word \<Rightarrow> nat" where
  "chunkSlot h = unat (h - 1) mod hostCallbackFastChunkSize"

definition lookupHostCallback :: "64 word \<Rightarrow> hsys \<Rightarrow> error + hostCallbackEntry option" where
  "lookupHostCallback h x =
     (if h = 0 then Inr None
      else case hfast x of
             None \<Rightarrow> Inr None
           | Some chunks \<Rightarrow>
               if chunkIndex h \<ge> length chunks then Inr None
               else (case chunks ! chunkIndex h of None \<Rightarrow> Inl nilDereference | Some c \<Rightarrow> Inr (c (chunkSlot h))))"

text \<open>The result is \<open>None\<close> when the chunk of an existing directory is nil: the store panics.\<close>

definition publishFastHostCallbackLocked :: "64 word \<Rightarrow> hostCallbackEntry \<Rightarrow> chunk option list option \<Rightarrow> chunk option list option" where
  "publishFastHostCallbackLocked h e fast =
     (let ci = chunkIndex h;
          old = (case fast of None \<Rightarrow> [] | Some cs \<Rightarrow> cs);
          chunks = (if ci \<ge> length old then old @ replicate (ci - length old) None @ [Some Map.empty] else old)
      in case chunks ! ci of
           None \<Rightarrow> None
         | Some c \<Rightarrow> Some (chunks[ci := Some (c(chunkSlot h \<mapsto> e))]))"

definition dropFastHostCallback :: "64 word \<Rightarrow> chunk option list option \<Rightarrow> error + chunk option list option" where
  "dropFastHostCallback h fast =
     (if h = 0 then Inr fast
      else case fast of
             None \<Rightarrow> Inr None
           | Some chunks \<Rightarrow>
               if chunkIndex h \<ge> length chunks then Inr fast
               else (case chunks ! chunkIndex h of
                       None \<Rightarrow> Inl nilDereference
                     | Some c \<Rightarrow> Inr (Some (chunks[chunkIndex h := Some (c(chunkSlot h := None))]))))"

definition dropHostCallback :: "engine \<Rightarrow> tid \<Rightarrow> 64 word \<Rightarrow> hsys \<Rightarrow> unit hresult" where
  [op_defs]: "dropHostCallback E t h x =
     (case dropFastHostCallback h (hfast x) of
        Inl e \<Rightarrow> (Inl e, x)
      | Inr fast \<Rightarrow>
          let x1 = x\<lparr>hentries := (hentries x)(h := None), hfast := fast\<rparr>
          in (Inr (), case hentries x h of
                        None \<Rightarrow> x1
                      | Some e \<Rightarrow> if he_ctx e = 0 then x1
                                  else snd (hOnBase (\<lambda>w. callErr E t ''HostContext.Free'' ''gov8_host_context_free''
                                         [W (i_handle (isolates w (he_iso e))), W (he_ctx e)] w) x1)))"

section \<open>Registration\<close>

definition ensureDispatcher :: "engine \<Rightarrow> tid \<Rightarrow> uintptr \<Rightarrow> hsys \<Rightarrow> unit hresult" where
  [op_defs]: "ensureDispatcher E t d x =
     (case hdispatcherErr x of
        Some None \<Rightarrow> (Inr (), x)
      | Some (Some e) \<Rightarrow> (Inl e, x)
      | None \<Rightarrow>
          (case hOnBase (callErr E t ''SetDispatcher'' ''gov8_host_set_dispatcher'' [W d]) x of
             (Inl e, x) \<Rightarrow> (Inl e, x\<lparr>hdispatcherErr := Some (Some e)\<rparr>)
           | (Inr _, x) \<Rightarrow> (Inr (), x\<lparr>hdispatcherErr := Some None\<rparr>)))"

text \<open>The search for a free number has no bound in the code; a search that never ends is \<open>None\<close>.\<close>

partial_function (option) reserveLoop :: "(64 word \<rightharpoonup> hostCallbackEntry) \<Rightarrow> 64 word \<Rightarrow> (64 word) option" where
  "reserveLoop m n = (let k = n + 1 in if k \<noteq> 0 \<and> m k = None then Some k else reserveLoop m k)"

text \<open>The two critical sections of a registration. Between them the shim creates its context, and other
  threads may run.\<close>

definition reserveHandle :: "hsys \<Rightarrow> (64 word) hresult" where
  [op_defs]: "reserveHandle x =
     (case reserveLoop (hentries x) (hnext x) of
        None \<Rightarrow> (Inl (Misuse ''the search for a free handle does not end''), x)
      | Some h \<Rightarrow> (Inr h, x\<lparr>hnext := h\<rparr>))"

text \<open>A panic leaves the mutex of the registry locked for good; nothing is said about the state then.\<close>

definition publishEntry :: "64 word \<Rightarrow> hostCallbackEntry \<Rightarrow> hsys \<Rightarrow> (64 word) hresult" where
  [op_defs]: "publishEntry h e x =
     (case publishFastHostCallbackLocked h e (hfast x) of
        None \<Rightarrow> (Inl nilDereference, x)
      | Some chunks \<Rightarrow> (Inr h, x\<lparr>hentries := (hentries x)(h \<mapsto> e), hfast := Some chunks\<rparr>))"

text \<open>The callback data may be the zero value.\<close>

definition data_check :: "tid \<Rightarrow> ref \<Rightarrow> Value \<Rightarrow> world \<Rightarrow> error option" where
  [check_defs]: "data_check t i v w =
     (if v_h v = 0 then None else first_err [Value_check t v w, fail_if (v_iso v \<noteq> i) (Foreign KValue)])"

definition registerHostEntryAssumingIsolate ::
    "engine \<Rightarrow> tid \<Rightarrow> uintptr \<Rightarrow> ref \<Rightarrow> (nat \<rightharpoonup> nat) \<Rightarrow> Value \<Rightarrow> hsys \<Rightarrow> (64 word) hresult" where
  [op_defs]: "registerHostEntryAssumingIsolate E t d i cl v x =
     guarded [data_check t i v (hworld x)]
       (\<lambda>x. andThen (ensureDispatcher E t d x) (\<lambda>_ x.
            guarded [requireInitialized (hworld x)]
              (\<lambda>x. andThen (reserveHandle x) (\<lambda>h x.
                   andThen (hOnBase (\<lambda>w. callHandle E t ''HostContext.New'' ''gov8_host_context_new''
                              [W (handleAssumingCheck i w), W h, W (v_h v)] w) x)
                     (\<lambda>ctx x. publishEntry h \<lparr>he_iso = i, he_ctx = ctx, he_closure = cl\<rparr> x))) x)) x"

definition registerHostEntry :: "engine \<Rightarrow> tid \<Rightarrow> uintptr \<Rightarrow> ref \<Rightarrow> (nat \<rightharpoonup> nat) \<Rightarrow> Value \<Rightarrow> hsys \<Rightarrow> (64 word) hresult" where
  [op_defs]: "registerHostEntry E t d i cl v x =
     guarded [Isolate_check t i (hworld x)] (registerHostEntryAssumingIsolate E t d i cl v) x"

definition callbackClosures :: "nat option \<Rightarrow> nat option \<Rightarrow> nat option \<Rightarrow> nat \<rightharpoonup> nat" where
  "callbackClosures fn getter setter = (Map.empty)(0 := fn, 1 := getter, 2 := setter)"

definition newHostContext ::
    "engine \<Rightarrow> tid \<Rightarrow> uintptr \<Rightarrow> ref \<Rightarrow> nat option \<Rightarrow> nat option \<Rightarrow> nat option \<Rightarrow> Value \<Rightarrow> hsys \<Rightarrow> (64 word) hresult" where
  [op_defs]: "newHostContext E t d i fn getter setter v x =
     guarded [fail_if (fn = None \<and> getter = None \<and> setter = None) (Misuse ''native callback requires a function'')]
       (registerHostEntry E t d i (callbackClosures fn getter setter) v) x"

definition registerFunctionCallback :: "engine \<Rightarrow> tid \<Rightarrow> uintptr \<Rightarrow> ref \<Rightarrow> nat option \<Rightarrow> Value \<Rightarrow> hsys \<Rightarrow> (64 word) hresult" where
  [op_defs]: "registerFunctionCallback E t d i fn v x = newHostContext E t d i fn None None v x"

definition registerFunctionCallbackAssumingIsolate ::
    "engine \<Rightarrow> tid \<Rightarrow> uintptr \<Rightarrow> ref \<Rightarrow> nat option \<Rightarrow> Value \<Rightarrow> hsys \<Rightarrow> (64 word) hresult" where
  [op_defs]: "registerFunctionCallbackAssumingIsolate E t d i fn v x =
     guarded [fail_if (fn = None) (Misuse ''native callback requires a function'')]
       (registerHostEntryAssumingIsolate E t d i (callbackClosures fn None None) v) x"

definition registerAccessorCallbacks ::
    "engine \<Rightarrow> tid \<Rightarrow> uintptr \<Rightarrow> ref \<Rightarrow> nat option \<Rightarrow> nat option \<Rightarrow> Value \<Rightarrow> hsys \<Rightarrow> (64 word) hresult" where
  [op_defs]: "registerAccessorCallbacks E t d i getter setter v x =
     guarded [fail_if (getter = None \<and> setter = None) (Misuse ''accessor requires a getter or a setter'')]
       (newHostContext E t d i None getter setter v) x"

text \<open>The identity of a closure is its number. The result: the handle, the cache key (\<open>None\<close> for the
  zero key) and whether the registration is new. With callback data, the entry handed back is what the
  fast table holds.\<close>

definition registerLazyGetter ::
    "engine \<Rightarrow> tid \<Rightarrow> uintptr \<Rightarrow> ref \<Rightarrow> uintptr option \<Rightarrow> Value \<Rightarrow> hsys
      \<Rightarrow> (64 word \<times> hostCallbackEntry option \<times> (ref \<times> uintptr) option \<times> bool) hresult" where
  [op_defs]: "registerLazyGetter E t d i mg v x =
     (case mg of
        None \<Rightarrow> (Inl (Misuse ''lazy data property requires a getter''), x)
      | Some g \<Rightarrow>
          if v_h v \<noteq> 0 then
            andThen (registerAccessorCallbacks E t d i (Some (unat g)) None v x) (\<lambda>h x.
              case lookupHostCallback h x of Inl e \<Rightarrow> (Inl e, x) | Inr me \<Rightarrow> (Inr (h, me, None, True), x))
          else if hlazyGetters x (i, g) \<noteq> 0 then
            (case hentries x (hlazyGetters x (i, g)) of
               None \<Rightarrow> (Inl (Misuse ''callback registration lost''), x)
             | Some e \<Rightarrow> (Inr (hlazyGetters x (i, g), Some e, Some (i, g), False), x))
          else
            andThen (registerAccessorCallbacks E t d i (Some (unat g)) None v x) (\<lambda>h x.
              case hentries x h of
                Some e \<Rightarrow> (Inr (h, Some e, Some (i, g), True), x\<lparr>hlazyGetters := (hlazyGetters x)((i, g) := h)\<rparr>)
              | None \<Rightarrow> andThen (dropHostCallback E t h x) (\<lambda>_ x. (Inl (Misuse ''callback registration lost''), x))))"

definition dropNewLazyGetter :: "engine \<Rightarrow> tid \<Rightarrow> 64 word \<Rightarrow> (ref \<times> uintptr) option \<Rightarrow> hsys \<Rightarrow> unit hresult" where
  [op_defs]: "dropNewLazyGetter E t h mk x =
     dropHostCallback E t h
       (case mk of
          None \<Rightarrow> x
        | Some k \<Rightarrow> if snd k \<noteq> 0 \<and> hlazyGetters x k = h then x\<lparr>hlazyGetters := (hlazyGetters x)(k := 0)\<rparr> else x)"

section \<open>Callback scopes\<close>

definition CallbackScope_check :: "tid \<Rightarrow> ref option \<Rightarrow> hsys \<Rightarrow> error option" where
  [check_defs]: "CallbackScope_check t mc x =
     (case mc of
        None \<Rightarrow> Some (Misuse ''invalid callback scope'')
      | Some c \<Rightarrow>
          let q = cscopes x c
          in first_err
               [fail_if (k_iso q = None \<or> k_sc q = None) (Misuse ''invalid callback scope''),
                fail_if (k_ctxWire q = 0) (Misuse ''callback has no current context''),
                Scope_check t (the (k_sc q)) (hworld x)])"

definition checkValue :: "tid \<Rightarrow> ref option \<Rightarrow> Value \<Rightarrow> hsys \<Rightarrow> error option" where
  [check_defs]: "checkValue t mc v x =
     (if v_h v = 0 then Some (Misuse ''zero value handle'')
      else case mc of
             Some c \<Rightarrow>
               if k_iso (cscopes x c) = Some (v_iso v) \<and> k_sc (cscopes x c) \<noteq> None
               then first_err [CallbackScope_check t mc x, fail_if (s_closed (scopes (hworld x) (v_sc v))) (UsedAfterClose KScope)]
               else first_err [Value_check t v (hworld x), CallbackScope_check t mc x]
           | None \<Rightarrow> first_err [Value_check t v (hworld x), CallbackScope_check t mc x])"

text \<open>The isolate and scope handles and the context wire that the methods pass on after the check.\<close>

definition csIso :: "ref \<Rightarrow> hsys \<Rightarrow> uintptr" where
  "csIso c x = i_handle (isolates (hworld x) (the (k_iso (cscopes x c))))"

definition csScope :: "ref \<Rightarrow> hsys \<Rightarrow> uintptr" where
  "csScope c x = s_handle (scopes (hworld x) (the (k_sc (cscopes x c))))"

definition wrap :: "ref \<Rightarrow> hsys \<Rightarrow> uintptr \<Rightarrow> Value" where
  "wrap c x h = \<lparr>v_iso = the (k_iso (cscopes x c)), v_sc = the (k_sc (cscopes x c)), v_h = h\<rparr>"

text \<open>A method of the scope pointer itself: a nil scope is dereferenced.\<close>

definition onScope :: "ref \<Rightarrow> (ref \<Rightarrow> hsys \<Rightarrow> 'a hresult) \<Rightarrow> hsys \<Rightarrow> 'a hresult" where
  [op_defs]: "onScope c f x = (case k_sc (cscopes x c) of None \<Rightarrow> (Inl nilDereference, x) | Some s \<Rightarrow> f s x)"

definition CS_NewString :: "engine \<Rightarrow> tid \<Rightarrow> ref \<Rightarrow> string \<Rightarrow> hsys \<Rightarrow> Value hresult" where
  [op_defs]: "CS_NewString E t c str = onScope c (\<lambda>s. hOnBase (NewString E t s str))"

definition CS_ToString :: "engine \<Rightarrow> tid \<Rightarrow> ref \<Rightarrow> Value \<Rightarrow> hsys \<Rightarrow> string hresult" where
  [op_defs]: "CS_ToString E t c v x =
     guarded [Value_check t v (hworld x), CallbackScope_check t (Some c) x]
       (\<lambda>x. hOnBase (callTextFn ''CallbackScope.ToString'' (\<lambda>cap w. shim E t ''gov8_wctx_to_string_utf8''
              [W (csIso c x), W (k_ctxWire (cscopes x c)), W (csScope c x), W (v_h v), OutBuf cap, Out] w)) x) x"

section \<open>Cached arguments\<close>

definition cbKindFunction :: "32 word" where "cbKindFunction = 0"
definition callbackInt32ArgsMagic :: "32 word" where "callbackInt32ArgsMagic = 0x47564131"
definition callbackInt32Arg0Valid :: "32 word" where "callbackInt32Arg0Valid = 1"
definition callbackInt32Arg1Valid :: "32 word" where "callbackInt32Arg1Valid = 2"

text \<open>A frame is on the native stack; reading it after its callback returned reads dead memory.\<close>

definition readFrame :: "ref \<Rightarrow> (hostCallbackFrame \<Rightarrow> hsys \<Rightarrow> 'a hresult) \<Rightarrow> hsys \<Rightarrow> 'a hresult" where
  [op_defs]: "readFrame f k x =
     (if f \<in> liveFrames x then k (frames x f) x else (Inl (Misuse ''native frame read after its callback returned''), x))"

text \<open>What the C array of argument wires holds at an index below argc.\<close>

definition argWire :: "hostCallbackFrame \<Rightarrow> nat \<Rightarrow> uintptr" where
  "argWire fr k = (case fr_argv fr of None \<Rightarrow> 0 | Some ws \<Rightarrow> if k < length ws then ws ! k else 0)"

definition cachedInt32Argument :: "Value \<Rightarrow> hostCallbackFrame \<Rightarrow> int option" where
  "cachedInt32Argument v fr =
     (if fr_kind fr \<noteq> cbKindFunction \<or> fr_pdConfigurable fr \<noteq> callbackInt32ArgsMagic \<or> fr_argv fr = None then None
      else
        let argc = sint (fr_argc fr)
        in if argc \<le> 0 then None
           else if fr_pdFlags fr AND callbackInt32Arg0Valid \<noteq> 0 \<and> argWire fr 0 = v_h v then Some (sint (fr_pdWritable fr))
           else if argc > 1 \<and> fr_pdFlags fr AND callbackInt32Arg1Valid \<noteq> 0 \<and> argWire fr 1 = v_h v
             then Some (sint (fr_pdEnumerable fr))
           else None)"

definition CS_IntegerValue :: "engine \<Rightarrow> tid \<Rightarrow> ref \<Rightarrow> Value \<Rightarrow> hsys \<Rightarrow> (int \<times> bool) hresult" where
  [op_defs]: "CS_IntegerValue E t c v x =
     guarded [checkValue t (Some c) v x]
       (\<lambda>x. let native = (\<lambda>x. andThen (hOnBase (callErr E t ''CallbackScope.IntegerValue'' ''gov8_wctx_integer_value_direct''
                              [W (csIso c x), W (k_ctxWire (cscopes x c)), W (v_h v)]) x)
                           (\<lambda>r x. (Inr (if r1 r = 0 then (0, False) else (sint (out r 0), True)), x)))
            in case k_frame (cscopes x c) of
                 None \<Rightarrow> native x
               | Some f \<Rightarrow> readFrame f (\<lambda>fr x. case cachedInt32Argument v fr of
                                                  Some n \<Rightarrow> (Inr (n, True), x) | None \<Rightarrow> native x) x) x"

definition CS_NumberValue :: "engine \<Rightarrow> tid \<Rightarrow> ref \<Rightarrow> Value \<Rightarrow> hsys \<Rightarrow> (64 word \<times> bool) hresult" where
  [op_defs]: "CS_NumberValue E t c v x =
     guarded [Value_check t v (hworld x), CallbackScope_check t (Some c) x]
       (\<lambda>x. andThen (hOnBase (callErr E t ''CallbackScope.NumberValue'' ''gov8_wctx_number_value''
               [W (csIso c x), W (k_ctxWire (cscopes x c)), W (v_h v), Out, Out]) x)
             (\<lambda>r x. (Inr (out r 0, (ucast (out r 1) :: 32 word) = 1), x))) x"

definition ObjectGet :: "engine \<Rightarrow> tid \<Rightarrow> ref \<Rightarrow> Value \<Rightarrow> string \<Rightarrow> hsys \<Rightarrow> (Value \<times> bool) hresult" where
  [op_defs]: "ObjectGet E t c ob key x =
     guarded [Value_check t ob (hworld x), CallbackScope_check t (Some c) x]
       (\<lambda>x. andThen (CS_NewString E t c key x) (\<lambda>k x.
            andThen (hOnBase (callErr E t ''CallbackScope.ObjectGet'' ''gov8_wctx_object_get''
               [W (csIso c x), W (k_ctxWire (cscopes x c)), W (csScope c x), W (v_h ob), W (v_h k), Out, Out]) x)
             (\<lambda>r x. (Inr (wrap c x (out r 0), (ucast (out r 1) :: 32 word) = 1), x)))) x"

definition ObjectSet :: "engine \<Rightarrow> tid \<Rightarrow> ref \<Rightarrow> Value \<Rightarrow> string \<Rightarrow> Value \<Rightarrow> hsys \<Rightarrow> bool hresult" where
  [op_defs]: "ObjectSet E t c ob key v x =
     guarded [Value_check t ob (hworld x), Value_check t v (hworld x), CallbackScope_check t (Some c) x]
       (\<lambda>x. andThen (CS_NewString E t c key x) (\<lambda>k x.
            andThen (hOnBase (callErr E t ''CallbackScope.ObjectSet'' ''gov8_wctx_object_set''
               [W (csIso c x), W (k_ctxWire (cscopes x c)), W (csScope c x), W (v_h ob), W (v_h k), W (v_h v), Out]) x)
             (\<lambda>r x. (Inr ((ucast (out r 0) :: 32 word) = 1), x)))) x"

text \<open>A slice of wires crosses the boundary as its length and its elements.\<close>

definition wireArgs :: "Value list \<Rightarrow> arg list" where
  "wireArgs vs = W (of_nat (length vs)) # map (\<lambda>v. W (v_h v)) vs"

text \<open>JavaScript runs inside; what it calls back is \<open>nested\<close>.\<close>

definition CallFunction :: "engine \<Rightarrow> tid \<Rightarrow> (hsys \<Rightarrow> hsys) \<Rightarrow> ref \<Rightarrow> Value \<Rightarrow> Value \<Rightarrow> Value list \<Rightarrow> hsys \<Rightarrow> (Value \<times> bool) hresult" where
  [op_defs]: "CallFunction E t nested c fn recv args x =
     guarded [Value_check t fn (hworld x), Value_check t recv (hworld x), CallbackScope_check t (Some c) x]
       (\<lambda>x. let (r, w) = shim E t ''gov8_function_call_wctx''
                   ([W (csIso c x), W (k_ctxWire (cscopes x c)), W (csScope c x), W (v_h fn), W (v_h recv)]
                    @ wireArgs args @ [Out]) (hworld x);
                x1 = nested (put_hworld w x)
            in if sneg (r1 r) then (Inl (ShimError ''CallbackScope.CallFunction'' (r1 r)), x1)
               else (Inr (wrap c x1 (out r 0), True), x1)) x"

definition NewObject :: "engine \<Rightarrow> tid \<Rightarrow> ref \<Rightarrow> hsys \<Rightarrow> Value hresult" where
  [op_defs]: "NewObject E t c x =
     guarded [CallbackScope_check t (Some c) x]
       (\<lambda>x. andThen (hOnBase (callHandle E t ''CallbackScope.NewObject'' ''gov8_wctx_object_new''
               [W (csIso c x), W (k_ctxWire (cscopes x c)), W (csScope c x)]) x) (\<lambda>h x. (Inr (wrap c x h), x))) x"

definition NewArrayWithElements :: "engine \<Rightarrow> tid \<Rightarrow> ref \<Rightarrow> Value list \<Rightarrow> hsys \<Rightarrow> Value hresult" where
  [op_defs]: "NewArrayWithElements E t c vs x =
     guarded (CallbackScope_check t (Some c) x
              # concat (map (\<lambda>v. [Value_check t v (hworld x), fail_if (Some (v_iso v) \<noteq> k_iso (cscopes x c)) (Foreign KValue)]) vs))
       (\<lambda>x. andThen (hOnBase (callErr E t ''CallbackScope.NewArrayWithElements'' ''gov8_wctx_array_new_with_elements''
               ([W (csIso c x), W (k_ctxWire (cscopes x c)), W (csScope c x)] @ wireArgs vs @ [Out])) x)
             (\<lambda>r x. (Inr (wrap c x (out r 0)), x))) x"

definition ThrowException :: "engine \<Rightarrow> tid \<Rightarrow> ref \<Rightarrow> Value \<Rightarrow> hsys \<Rightarrow> unit hresult" where
  [op_defs]: "ThrowException E t c v x =
     guarded [CallbackScope_check t (Some c) x, Value_check t v (hworld x),
              fail_if (Some (v_iso v) \<noteq> k_iso (cscopes x c)) (Foreign KValue)]
       (\<lambda>x. hOnBase (unitCall E t ''ThrowException'' ''gov8_isolate_throw_exception'' [W (csIso c x), W (v_h v)]) x) x"

definition NewError :: "engine \<Rightarrow> tid \<Rightarrow> ref \<Rightarrow> string \<Rightarrow> hsys \<Rightarrow> Value hresult" where
  [op_defs]: "NewError E t c message = onScope c (\<lambda>s x.
     guarded [Scope_check t s (hworld x)]
       (\<lambda>x. andThen (CS_NewString E t c message x) (\<lambda>m x.
            andThen (hOnBase (callHandle E t ''NewError'' ''gov8_exception_error''
               [W (csIso c x), W (csScope c x), W (v_h m)]) x) (\<lambda>h x. (Inr (wrap c x h), x)))) x)"

section \<open>Dispatch\<close>

text \<open>The kinds whose closure returns the Intercepted verdict, which goes into the frame.\<close>

definition intercepts :: "nat \<Rightarrow> bool" where
  "intercepts k \<longleftrightarrow> k \<in> {3, 4, 5, 6, 8, 9, 10, 11, 12, 13, 15, 16}"

definition upd_frame :: "ref \<Rightarrow> (hostCallbackFrame \<Rightarrow> hostCallbackFrame) \<Rightarrow> hsys \<Rightarrow> hsys" where
  [op_defs]: "upd_frame f g x = x\<lparr>frames := (frames x)(f := g (frames x f))\<rparr>"

definition openInvocation :: "ref \<Rightarrow> ref \<Rightarrow> hsys \<Rightarrow> hsys" where
  [op_defs]: "openInvocation i f x =
     (let w = hworld x; s = nextRef w; fr = frames x f; c = hnextObj x
      in put_hworld (w\<lparr>scopes := (scopes w)(s := \<lparr>s_iso = i, s_handle = fr_scopeWire fr, s_closed = False, s_borrowed = True,
                          s_activeBorrowedContextScopes = 0, s_javascriptExecutionGuards = []\<rparr>), nextRef := Suc s\<rparr>)
           (x\<lparr>cscopes := (cscopes x)(c := \<lparr>k_iso = Some i, k_sc = Some s, k_ctxWire = fr_ctxWire fr, k_frame = Some f\<rparr>),
              hnextObj := Suc c\<rparr>))"

definition closeInvocation :: "ref \<Rightarrow> hsys \<Rightarrow> hsys" where
  [op_defs]: "closeInvocation s x = put_hworld (upd_scope s (\<lambda>q. q\<lparr>s_closed := True, s_handle := 0\<rparr>) (hworld x)) x"

text \<open>The closure's own calls are \<open>nested\<close> and \<open>verdict\<close> is what it returns. The branches that end the
  process are errors.\<close>

definition hostCallbackDispatch :: "tid \<Rightarrow> (hsys \<Rightarrow> hsys) \<Rightarrow> 32 word \<Rightarrow> ref option \<Rightarrow> hsys \<Rightarrow> unit hresult" where
  [op_defs]: "hostCallbackDispatch t nested verdict mf x =
     (case mf of
        None \<Rightarrow> (Inl (Misuse ''fatal: native callback dispatch received a nil frame''), x)
      | Some f \<Rightarrow>
          (case lookupHostCallback (fr_handle (frames x f)) x of
             Inl e \<Rightarrow> (Inl e, x)
           | Inr None \<Rightarrow> (Inl (Misuse ''fatal: native callback dispatch for unknown handle''), x)
           | Inr (Some entry) \<Rightarrow>
               let i = he_iso entry; fr = frames x f; k = unat (fr_kind fr)
               in guarded
                    [fail_if (t \<noteq> i_tid (isolates (hworld x) i) \<or> i_closed (isolates (hworld x) i))
                       (Misuse ''fatal: native callback invoked off the owning thread''),
                     fail_if (fr_isolate fr \<noteq> handleAssumingCheck i (hworld x) \<or> fr_scopeWire fr = 0)
                       (Misuse ''fatal: native callback supplied an invalid isolate or scope''),
                     fail_if (k > 16) (Misuse ''fatal: native callback dispatch for unknown kind''),
                     fail_if (he_closure entry k = None) (Misuse ''fatal: panic in native callback'')]
                    (\<lambda>x. let s = nextRef (hworld x); x1 = openInvocation i f x;
                             x2 = nested (x1\<lparr>hran := hran x1 @ [the (he_closure entry k)]\<rparr>);
                             x3 = (if intercepts k then upd_frame f (\<lambda>q. q\<lparr>fr_outIntercepted := verdict\<rparr>) x2 else x2)
                         in (Inr (), closeInvocation s x3)) x))"

text \<open>The native trampoline around a dispatch: its frame lives on its stack, so it is live exactly while
  the dispatch runs.\<close>

definition pushFrame :: "hostCallbackFrame \<Rightarrow> hsys \<Rightarrow> hsys" where
  [op_defs]: "pushFrame fr x =
     x\<lparr>frames := (frames x)(hnextObj x := fr), liveFrames := insert (hnextObj x) (liveFrames x), hnextObj := Suc (hnextObj x)\<rparr>"

definition trampoline :: "tid \<Rightarrow> (hsys \<Rightarrow> hsys) \<Rightarrow> 32 word \<Rightarrow> hostCallbackFrame \<Rightarrow> hsys \<Rightarrow> hsys" where
  [op_defs]: "trampoline t nested verdict fr x =
     (let f = hnextObj x; x1 = snd (hostCallbackDispatch t nested verdict (Some f) (pushFrame fr x))
      in x1\<lparr>liveFrames := liveFrames x1 - {f}\<rparr>)"

section \<open>Arguments of function callbacks\<close>

record FunctionCallbackArguments =
  fa_cs :: "ref option"
  fa_frame :: "ref option"
  fa_shape :: uintptr

definition functionCallbackConstructShapeBit :: uintptr where
  "functionCallbackConstructShapeBit = push_bit 32 1"

definition packFunctionCallbackArgumentShape :: "64 word \<Rightarrow> bool \<Rightarrow> uintptr" where
  "packFunctionCallbackArgumentShape argc construct =
     (let shape = ucast (ucast argc :: 32 word)
      in if construct then shape OR functionCallbackConstructShapeBit else shape)"

text \<open>What the dispatcher hands to a function callback.\<close>

definition functionArguments :: "ref \<Rightarrow> ref \<Rightarrow> hostCallbackFrame \<Rightarrow> FunctionCallbackArguments" where
  "functionArguments c f fr =
     \<lparr>fa_cs = Some c, fa_frame = Some f, fa_shape = packFunctionCallbackArgumentShape (fr_argc fr) (fr_flags fr AND 1 \<noteq> 0)\<rparr>"

definition FA_Length :: "FunctionCallbackArguments \<Rightarrow> int" where
  "FA_Length a = uint (ucast (fa_shape a) :: 32 word)"

definition IsConstructCall :: "FunctionCallbackArguments \<Rightarrow> bool" where
  "IsConstructCall a \<longleftrightarrow> fa_shape a AND functionCallbackConstructShapeBit \<noteq> 0"

definition FA_checkedFrame :: "tid \<Rightarrow> FunctionCallbackArguments \<Rightarrow> hsys \<Rightarrow> error option" where
  [check_defs]: "FA_checkedFrame t a x =
     first_err [fail_if (fa_cs a = None) (Misuse ''invalid callback arguments''),
                CallbackScope_check t (fa_cs a) x,
                fail_if (fa_frame a = None) (Misuse ''invalid callback arguments'')]"

text \<open>The accessors: the check, then a read of the frame.\<close>

definition onArguments ::
    "tid \<Rightarrow> FunctionCallbackArguments \<Rightarrow> (ref \<Rightarrow> hostCallbackFrame \<Rightarrow> hsys \<Rightarrow> 'a hresult) \<Rightarrow> hsys \<Rightarrow> 'a hresult" where
  [op_defs]: "onArguments t a k x = guarded [FA_checkedFrame t a x] (readFrame (the (fa_frame a)) (k (the (fa_cs a)))) x"

text \<open>A wire, or undefined when the frame has none.\<close>

definition wireOrUndefined :: "engine \<Rightarrow> tid \<Rightarrow> ref \<Rightarrow> uintptr \<Rightarrow> hsys \<Rightarrow> Value hresult" where
  [op_defs]: "wireOrUndefined E t c h x =
     (if h = 0 then onScope c (\<lambda>s. hOnBase (Undefined E t s)) x else (Inr (wrap c x h), x))"

definition FA_Get :: "engine \<Rightarrow> tid \<Rightarrow> FunctionCallbackArguments \<Rightarrow> int \<Rightarrow> hsys \<Rightarrow> Value hresult" where
  [op_defs]: "FA_Get E t a i = onArguments t a (\<lambda>c fr x.
     wireOrUndefined E t c (if i < 0 \<or> i \<ge> sint (fr_argc fr) then 0 else argWire fr (nat i)) x)"

definition FA_This :: "tid \<Rightarrow> FunctionCallbackArguments \<Rightarrow> hsys \<Rightarrow> Value hresult" where
  [op_defs]: "FA_This t a = onArguments t a (\<lambda>c fr x.
     if fr_thisWire fr = 0 then (Inl (Misuse ''callback has no receiver''), x) else (Inr (wrap c x (fr_thisWire fr)), x))"

definition FA_NewTarget :: "engine \<Rightarrow> tid \<Rightarrow> FunctionCallbackArguments \<Rightarrow> hsys \<Rightarrow> Value hresult" where
  [op_defs]: "FA_NewTarget E t a = onArguments t a (\<lambda>c fr. wireOrUndefined E t c (fr_newTargetWire fr))"

definition FA_Data :: "engine \<Rightarrow> tid \<Rightarrow> FunctionCallbackArguments \<Rightarrow> hsys \<Rightarrow> Value hresult" where
  [op_defs]: "FA_Data E t a = onArguments t a (\<lambda>c fr. wireOrUndefined E t c (fr_dataWire fr))"

section \<open>Arguments of property callbacks\<close>

text \<open>These accessors read the frame without a check.\<close>

record PropertyCallbackArguments =
  pa_cs :: ref
  pa_frame :: ref

definition PA_wire :: "PropertyCallbackArguments \<Rightarrow> (hostCallbackFrame \<Rightarrow> uintptr) \<Rightarrow> string \<Rightarrow> hsys \<Rightarrow> Value hresult" where
  [op_defs]: "PA_wire a sel msg = readFrame (pa_frame a) (\<lambda>fr x.
     if sel fr = 0 then (Inl (Misuse msg), x) else (Inr (wrap (pa_cs a) x (sel fr)), x))"

definition PA_Property :: "PropertyCallbackArguments \<Rightarrow> hsys \<Rightarrow> Value hresult" where
  [op_defs]: "PA_Property a = PA_wire a fr_propertyWire ''property callback has no named property''"

definition holderWire :: "hostCallbackFrame \<Rightarrow> uintptr" where
  "holderWire fr = (if fr_holderWire fr \<noteq> 0 then fr_holderWire fr else fr_thisWire fr)"

definition PA_This :: "PropertyCallbackArguments \<Rightarrow> hsys \<Rightarrow> Value hresult" where
  [op_defs]: "PA_This a = PA_wire a fr_thisWire ''property callback has no receiver''"

definition PA_Holder :: "PropertyCallbackArguments \<Rightarrow> hsys \<Rightarrow> Value hresult" where
  [op_defs]: "PA_Holder a = PA_wire a holderWire ''accessor callback has no holder''"

definition ShouldThrowOnError :: "PropertyCallbackArguments \<Rightarrow> bool" where
  "ShouldThrowOnError a \<longleftrightarrow> False"

definition PA_Data :: "engine \<Rightarrow> tid \<Rightarrow> PropertyCallbackArguments \<Rightarrow> hsys \<Rightarrow> Value hresult" where
  [op_defs]: "PA_Data E t a = readFrame (pa_frame a) (\<lambda>fr. wireOrUndefined E t (pa_cs a) (fr_dataWire fr))"

record CallbackPropertyDescriptor =
  pd_flags :: "32 word"
  pd_hasValue :: bool
  pd_value :: "Value option"
  pd_writable :: bool
  pd_enumerable :: bool
  pd_configurable :: bool

definition pdFlagHasValue :: "32 word" where "pdFlagHasValue = 1"

definition propertyDescriptorFromFrame :: "ref \<Rightarrow> hostCallbackFrame \<Rightarrow> hsys \<Rightarrow> CallbackPropertyDescriptor" where
  "propertyDescriptorFromFrame c fr x =
     (let has = fr_pdFlags fr AND pdFlagHasValue \<noteq> 0
      in \<lparr>pd_flags = fr_pdFlags fr, pd_hasValue = has, pd_value = (if has then Some (wrap c x (fr_pdValueWire fr)) else None),
          pd_writable = fr_pdWritable fr \<noteq> 0, pd_enumerable = fr_pdEnumerable fr \<noteq> 0, pd_configurable = fr_pdConfigurable fr \<noteq> 0\<rparr>)"

section \<open>Return values\<close>

record ReturnValue =
  rv_cs :: ref
  rv_frame :: "ref option"

datatype returnValueSetter =
    returnValueArbitrary | returnValueDouble | returnValueBool | returnValueNull | returnValueUndefined | returnValueEmptyString

fun returnValueSetterName :: "returnValueSetter \<Rightarrow> string" where
  "returnValueSetterName returnValueArbitrary = ''gov8_rv_set''"
| "returnValueSetterName returnValueDouble = ''gov8_rv_set_double''"
| "returnValueSetterName returnValueBool = ''gov8_rv_set_bool''"
| "returnValueSetterName returnValueNull = ''gov8_rv_set_null''"
| "returnValueSetterName returnValueUndefined = ''gov8_rv_set_undefined''"
| "returnValueSetterName returnValueEmptyString = ''gov8_rv_set_empty_string''"

definition callbackDeferredRVInt32Magic :: "32 word" where "callbackDeferredRVInt32Magic = 0x47565231"
definition callbackDeferredRVNone :: "32 word" where "callbackDeferredRVNone = 0"
definition callbackDeferredRVInt32 :: "32 word" where "callbackDeferredRVInt32 = 1"

definition RV_checkedFrame :: "tid \<Rightarrow> ReturnValue \<Rightarrow> hsys \<Rightarrow> error option" where
  [check_defs]: "RV_checkedFrame t rv x =
     (case k_sc (cscopes x (rv_cs rv)) of
        None \<Rightarrow> Some nilDereference
      | Some s \<Rightarrow> first_err [Scope_check t s (hworld x),
                             fail_if (rv_frame rv = None) (Misuse ''invalid callback return value'')])"

definition onReturnValue ::
    "tid \<Rightarrow> ReturnValue \<Rightarrow> (ref \<Rightarrow> hostCallbackFrame \<Rightarrow> hsys \<Rightarrow> 'a hresult) \<Rightarrow> hsys \<Rightarrow> 'a hresult" where
  [op_defs]: "onReturnValue t rv k x =
     guarded [RV_checkedFrame t rv x] (readFrame (the (rv_frame rv)) (k (the (rv_frame rv)))) x"

definition deferredInt32Capable :: "hostCallbackFrame \<Rightarrow> bool" where
  "deferredInt32Capable fr \<longleftrightarrow> fr_kind fr = cbKindFunction \<and> fr_pdPad fr = callbackDeferredRVInt32Magic"

definition setInt32Native :: "engine \<Rightarrow> tid \<Rightarrow> hostCallbackFrame \<Rightarrow> 32 word \<Rightarrow> hsys \<Rightarrow> unit hresult" where
  [op_defs]: "setInt32Native E t fr v = hOnBase (unitCall E t ''gov8_rv_set_int32'' ''gov8_rv_set_int32'' [W (fr_rvWord fr), W (scast v)])"

definition materializeDeferredInt32 :: "engine \<Rightarrow> tid \<Rightarrow> ref \<Rightarrow> hostCallbackFrame \<Rightarrow> hsys \<Rightarrow> unit hresult" where
  [op_defs]: "materializeDeferredInt32 E t f fr x =
     (if \<not> deferredInt32Capable fr then (Inr (), x)
      else if fr_outIntercepted fr = callbackDeferredRVNone then (Inr (), x)
      else if fr_outIntercepted fr = callbackDeferredRVInt32
        then andThen (setInt32Native E t fr (fr_index fr) x)
               (\<lambda>_ x. (Inr (), upd_frame f (\<lambda>q. q\<lparr>fr_outIntercepted := callbackDeferredRVNone\<rparr>) x))
      else (Inl (Misuse ''invalid deferred callback return state''), x))"

definition setFixed :: "engine \<Rightarrow> tid \<Rightarrow> ReturnValue \<Rightarrow> string \<Rightarrow> returnValueSetter \<Rightarrow> uintptr \<Rightarrow> hsys \<Rightarrow> unit hresult" where
  [op_defs]: "setFixed E t rv oper k value = onReturnValue t rv (\<lambda>f fr x.
     andThen (materializeDeferredInt32 E t f fr x) (\<lambda>_ x.
       hOnBase (unitCall E t oper (returnValueSetterName k)
         (if k \<in> {returnValueNull, returnValueUndefined, returnValueEmptyString} then [W (fr_rvWord fr)]
          else [W (fr_rvWord fr), W value])) x))"

definition RV_Set :: "engine \<Rightarrow> tid \<Rightarrow> ReturnValue \<Rightarrow> Value \<Rightarrow> hsys \<Rightarrow> unit hresult" where
  [op_defs]: "RV_Set E t rv v x =
     guarded [Value_check t v (hworld x)] (setFixed E t rv ''gov8_rv_set'' returnValueArbitrary (v_h v)) x"

definition SetInt32 :: "engine \<Rightarrow> tid \<Rightarrow> ReturnValue \<Rightarrow> 32 word \<Rightarrow> hsys \<Rightarrow> unit hresult" where
  [op_defs]: "SetInt32 E t rv v = onReturnValue t rv (\<lambda>f fr x.
     if deferredInt32Capable fr
     then (Inr (), upd_frame f (\<lambda>q. q\<lparr>fr_index := v, fr_outIntercepted := callbackDeferredRVInt32\<rparr>) x)
     else setInt32Native E t fr v x)"

definition SetUint32 :: "engine \<Rightarrow> tid \<Rightarrow> ReturnValue \<Rightarrow> 32 word \<Rightarrow> hsys \<Rightarrow> unit hresult" where
  [op_defs]: "SetUint32 E t rv v = onReturnValue t rv (\<lambda>f fr x.
     andThen (materializeDeferredInt32 E t f fr x) (\<lambda>_ x.
       hOnBase (unitCall E t ''gov8_rv_set_uint32'' ''gov8_rv_set_uint32'' [W (fr_rvWord fr), W (ucast v)]) x))"

text \<open>The float64 is given by its bits.\<close>

definition SetFloat64 :: "engine \<Rightarrow> tid \<Rightarrow> ReturnValue \<Rightarrow> 64 word \<Rightarrow> hsys \<Rightarrow> unit hresult" where
  [op_defs]: "SetFloat64 E t rv v = setFixed E t rv ''gov8_rv_set_double'' returnValueDouble v"

definition SetBool :: "engine \<Rightarrow> tid \<Rightarrow> ReturnValue \<Rightarrow> bool \<Rightarrow> hsys \<Rightarrow> unit hresult" where
  [op_defs]: "SetBool E t rv v = setFixed E t rv ''gov8_rv_set_bool'' returnValueBool (if v then 1 else 0)"

definition SetNull :: "engine \<Rightarrow> tid \<Rightarrow> ReturnValue \<Rightarrow> hsys \<Rightarrow> unit hresult" where
  [op_defs]: "SetNull E t rv = setFixed E t rv ''gov8_rv_set_null'' returnValueNull 0"

definition SetUndefined :: "engine \<Rightarrow> tid \<Rightarrow> ReturnValue \<Rightarrow> hsys \<Rightarrow> unit hresult" where
  [op_defs]: "SetUndefined E t rv = setFixed E t rv ''gov8_rv_set_undefined'' returnValueUndefined 0"

definition SetEmptyString :: "engine \<Rightarrow> tid \<Rightarrow> ReturnValue \<Rightarrow> hsys \<Rightarrow> unit hresult" where
  [op_defs]: "SetEmptyString E t rv = setFixed E t rv ''gov8_rv_set_empty_string'' returnValueEmptyString 0"

definition RV_Get :: "engine \<Rightarrow> tid \<Rightarrow> ReturnValue \<Rightarrow> hsys \<Rightarrow> Value hresult" where
  [op_defs]: "RV_Get E t rv = onReturnValue t rv (\<lambda>f fr x.
     andThen (materializeDeferredInt32 E t f fr x) (\<lambda>_ x.
       andThen (hOnBase (callHandle E t ''ReturnValue.Get'' ''gov8_rv_get'' [W (fr_rvWord fr)]) x)
         (\<lambda>h x. wireOrUndefined E t (rv_cs rv) h x)))"

section \<open>Release of an isolate's host state\<close>

definition releaseModuleAdvancedHostState :: "engine \<Rightarrow> tid \<Rightarrow> ref \<Rightarrow> hsys \<Rightarrow> unit hresult" where
  [op_defs]: "releaseModuleAdvancedHostState E t i x =
     guarded [fail_if (list_ex (\<lambda>n. case marActive x n of None \<Rightarrow> False | Some a \<Rightarrow> a \<noteq> 0) (marByIso x i))
                (Misuse ''module host callback is active'')]
       (\<lambda>x. hOnBase (\<lambda>w. unitCall E t ''ModuleAdvanced.Release'' ''gov8_mar_release'' [W (handleAssumingCheck i w)] w)
              (x\<lparr>marActive := (\<lambda>n. if n \<in> set (marByIso x i) then None else marActive x n),
                 marByIso := (marByIso x)(i := [])\<rparr>)) x"

definition releaseCHIsolateEntries :: "ref \<Rightarrow> hsys \<Rightarrow> hsys" where
  [op_defs]: "releaseCHIsolateEntries i x =
     x\<lparr>chEntries := (\<lambda>k. if chEntries x k = Some (Some i) then None else chEntries x k)\<rparr>"

text \<open>\<open>order\<close> is the order in which the Go map of entries is iterated. The removal of the fast entries runs
  under the mutex; a nil chunk would panic there.\<close>

fun dropAllFast :: "64 word list \<Rightarrow> chunk option list option \<Rightarrow> error + chunk option list option" where
  "dropAllFast [] fast = Inr fast"
| "dropAllFast (h # hs) fast =
     (case dropFastHostCallback h fast of Inl e \<Rightarrow> Inl e | Inr fast' \<Rightarrow> dropAllFast hs fast')"

definition releaseCallbacks :: "engine \<Rightarrow> tid \<Rightarrow> 64 word list \<Rightarrow> ref \<Rightarrow> hsys \<Rightarrow> unit hresult" where
  [op_defs]: "releaseCallbacks E t order i x =
     (let mine = (\<lambda>h. case hentries x h of None \<Rightarrow> False | Some e \<Rightarrow> he_iso e = i);
          handles = filter mine order;
          ctxs = filter (\<lambda>q. q \<noteq> 0) (map (\<lambda>h. he_ctx (the (hentries x h))) handles)
      in case dropAllFast handles (hfast x) of
           Inl e \<Rightarrow> (Inl e, x)
         | Inr fast \<Rightarrow>
             let x1 = x\<lparr>hentries := (\<lambda>h. if h \<in> set handles then None else hentries x h), hfast := fast,
                        hlazyGetters := (\<lambda>k. if fst k = i then 0 else hlazyGetters x k)\<rparr>
             in if ctxs = [] then (Inr (), x1)
                else hOnBase (\<lambda>w. unitCall E t ''HostContexts.Release'' ''gov8_host_contexts_release''
                       ([W (i_handle (isolates w i))] @ map W ctxs @ [W (of_nat (length ctxs))]) w) x1)"

text \<open>\<open>len(entries) == 0\<close>, decided by the same enumeration of the map.\<close>

definition resetNext :: "64 word list \<Rightarrow> hsys \<Rightarrow> hsys" where
  [op_defs]: "resetNext order x = (if list_all (\<lambda>h. hentries x h = None) order then x\<lparr>hnext := 0\<rparr> else x)"

definition ReleaseIsolateHostState ::
    "engine \<Rightarrow> tid \<Rightarrow> (nat \<Rightarrow> bool) \<Rightarrow> nat list \<Rightarrow> 64 word list \<Rightarrow> ref \<Rightarrow> hsys \<Rightarrow> unit hresult" where
  [op_defs]: "ReleaseIsolateHostState E t rel ks order i x =
     guarded [Isolate_check t i (hworld x), requireInitialized (hworld x), inspectorIsolateCloseError i (hworld x),
              inspectorInspectableIsolateCloseError i (hworld x)]
       (\<lambda>x. andThen (lift hwasm (\<lambda>y x. x\<lparr>hwasm := y\<rparr>) (releaseWasmStreamingHostState E t i) x) (\<lambda>_ x.
            andThen (releaseModuleAdvancedHostState E t i x) (\<lambda>_ x.
            andThen (releaseCallbacks E t order i (releaseCHIsolateEntries i x)) (\<lambda>_ x.
              (Inr (), let x1 = resetNext order x in x1\<lparr>hhost := releaseSlots rel ks i (hhost x1)\<rparr>))))) x"

end
