(* ===== verification/CallbackRuns.thy ===== *)
theory CallbackRuns
  imports Callbacks
begin

text \<open>
  Proofs about callback.go. The lock-free table and the search for a free handle come first, then
  sequences of calls, where the closure of a callback makes further calls (\<open>hop\<close>, \<open>hexec\<close>). The locale
  \<open>host_evolution\<close> carries a relation between states through every operation; its two interpretations
  show that the table holds the registry, and that a frame outlives every scope that passes its check.
  \<open>hstate\<close> is the set of states the process goes through, those inside callbacks included.
\<close>

section \<open>The fast table holds the registry\<close>

definition fastSlot :: "chunk option list option \<Rightarrow> 64 word \<Rightarrow> hostCallbackEntry option" where
  "fastSlot fast h =
     (case fast of
        None \<Rightarrow> None
      | Some chunks \<Rightarrow> if chunkIndex h < length chunks
                       then (case chunks ! chunkIndex h of None \<Rightarrow> None | Some c \<Rightarrow> c (chunkSlot h)) else None)"

definition fast_ok :: "hsys \<Rightarrow> bool" where
  "fast_ok x \<longleftrightarrow> hentries x 0 = None \<and> (\<forall>h. h \<noteq> 0 \<longrightarrow> fastSlot (hfast x) h = hentries x h)"

lemma slot_inj: "chunkIndex h = chunkIndex h' \<Longrightarrow> chunkSlot h = chunkSlot h' \<Longrightarrow> h = h'"
  by (metis chunkIndex_def chunkSlot_def div_mult_mod_eq diff_add_cancel word_unat_eq_iff)

lemma lookup_fastSlot: "h \<noteq> 0 \<Longrightarrow> lookupHostCallback h x = Inr (Some e) \<longleftrightarrow> fastSlot (hfast x) h = Some e"
  by (auto simp: lookupHostCallback_def fastSlot_def not_le split: option.split)

lemma fastSlot_publish:
  assumes "publishFastHostCallbackLocked h e fast = Some chunks"
  shows "fastSlot (Some chunks) h' = (if h' = h then Some e else fastSlot fast h')"
proof -
  have *: "chunkIndex h' \<noteq> chunkIndex h \<or> chunkSlot h' \<noteq> chunkSlot h" if "h' \<noteq> h"
    using that slot_inj by blast
  show ?thesis using assms *
    by (auto simp: publishFastHostCallbackLocked_def fastSlot_def Let_def nth_append nth_list_update
      split: option.splits if_splits)
qed

lemma fastSlot_drop:
  assumes "dropFastHostCallback h fast = Inr fast'"
  shows "fastSlot fast' h' = (if h' = h \<and> h \<noteq> 0 then None else fastSlot fast h')"
proof -
  have *: "chunkIndex h' \<noteq> chunkIndex h \<or> chunkSlot h' \<noteq> chunkSlot h" if "h' \<noteq> h"
    using that slot_inj by blast
  show ?thesis using assms *
    by (auto simp: dropFastHostCallback_def fastSlot_def nth_list_update split: option.splits if_splits)
qed

lemma fastSlot_dropAll:
  "dropAllFast hs fast = Inr fast' \<Longrightarrow> fastSlot fast' h = (if h \<in> set hs \<and> h \<noteq> 0 then None else fastSlot fast h)"
  by (induction hs arbitrary: fast) (auto simp: fastSlot_drop split: sum.splits)

section \<open>The search for a free handle\<close>

lemma reserveLoop_free: "reserveLoop m n = Some h \<Longrightarrow> h \<noteq> 0 \<and> m h = None"
  by (erule reserveLoop.raw_induct [rotated]) (auto simp: Let_def split: if_splits)

lemma reserveLoop_finds:
  assumes "h \<noteq> 0" "m h = None"
  shows "\<exists>k. reserveLoop m n = Some k"
proof (induction "unat (h - (n + 1))" arbitrary: n rule: less_induct)
  case less
  show ?case
  proof (cases "h = n + 1")
    case True
    then show ?thesis using assms by (subst reserveLoop.simps) (simp add: Let_def)
  next
    case False
    then have "h - (n + 1) \<noteq> 0" by simp
    then have "unat (h - (n + 1) - 1) < unat (h - (n + 1))"
      by (metis unat_minus_one diff_less neq0_conv unat_eq_zero zero_less_one)
    then have "unat (h - (n + 1 + 1)) < unat (h - (n + 1))" by (simp add: diff_diff_add)
    from less [OF this] show ?thesis by (subst reserveLoop.simps) (auto simp: Let_def)
  qed
qed

section \<open>Sequences of calls\<close>

datatype rv_op = RvSet Value | RvInt32 "32 word" | RvUint32 "32 word" | RvFloat64 "64 word" | RvBool bool | RvNull | RvUndefined
  | RvEmptyString | RvGet

text \<open>The outcome of an operation on a return value, its value dropped.\<close>

definition voided :: "'a hresult \<Rightarrow> unit hresult" where
  "voided m = andThen m (\<lambda>_ x. (Inr (), x))"

fun rv_call :: "engine \<Rightarrow> tid \<Rightarrow> ReturnValue \<Rightarrow> rv_op \<Rightarrow> hsys \<Rightarrow> unit hresult" where
  "rv_call E t rv (RvSet v) x = RV_Set E t rv v x"
| "rv_call E t rv (RvInt32 n) x = SetInt32 E t rv n x"
| "rv_call E t rv (RvUint32 n) x = SetUint32 E t rv n x"
| "rv_call E t rv (RvFloat64 b) x = SetFloat64 E t rv b x"
| "rv_call E t rv (RvBool b) x = SetBool E t rv b x"
| "rv_call E t rv RvNull x = SetNull E t rv x"
| "rv_call E t rv RvUndefined x = SetUndefined E t rv x"
| "rv_call E t rv RvEmptyString x = SetEmptyString E t rv x"
| "rv_call E t rv RvGet x = voided (RV_Get E t rv x)"

datatype cs_op = CsNewString string | CsToString Value | CsIntegerValue Value | CsNumberValue Value | CsObjectGet Value string
  | CsObjectSet Value string Value | CsNewObject | CsNewArray "Value list" | CsThrow Value | CsNewError string

fun cs_exec :: "engine \<Rightarrow> tid \<Rightarrow> ref \<Rightarrow> cs_op \<Rightarrow> hsys \<Rightarrow> hsys" where
  "cs_exec E t c (CsNewString str) x = snd (CS_NewString E t c str x)"
| "cs_exec E t c (CsToString v) x = snd (CS_ToString E t c v x)"
| "cs_exec E t c (CsIntegerValue v) x = snd (CS_IntegerValue E t c v x)"
| "cs_exec E t c (CsNumberValue v) x = snd (CS_NumberValue E t c v x)"
| "cs_exec E t c (CsObjectGet v key) x = snd (ObjectGet E t c v key x)"
| "cs_exec E t c (CsObjectSet v key u) x = snd (ObjectSet E t c v key u x)"
| "cs_exec E t c CsNewObject x = snd (NewObject E t c x)"
| "cs_exec E t c (CsNewArray vs) x = snd (NewArrayWithElements E t c vs x)"
| "cs_exec E t c (CsThrow v) x = snd (ThrowException E t c v x)"
| "cs_exec E t c (CsNewError m) x = snd (NewError E t c m x)"

datatype fa_op = FaGet int | FaThis | FaNewTarget | FaData

fun fa_call :: "engine \<Rightarrow> tid \<Rightarrow> FunctionCallbackArguments \<Rightarrow> fa_op \<Rightarrow> hsys \<Rightarrow> Value hresult" where
  "fa_call E t a (FaGet i) x = FA_Get E t a i x"
| "fa_call E t a FaThis x = FA_This t a x"
| "fa_call E t a FaNewTarget x = FA_NewTarget E t a x"
| "fa_call E t a FaData x = FA_Data E t a x"

datatype pa_op = PaProperty | PaThis | PaHolder | PaData

fun pa_call :: "engine \<Rightarrow> tid \<Rightarrow> PropertyCallbackArguments \<Rightarrow> pa_op \<Rightarrow> hsys \<Rightarrow> Value hresult" where
  "pa_call E t a PaProperty x = PA_Property a x"
| "pa_call E t a PaThis x = PA_This a x"
| "pa_call E t a PaHolder x = PA_Holder a x"
| "pa_call E t a PaData x = PA_Data E t a x"

text \<open>
  \<open>HCall fr v as\<close> is a callback of the engine with frame \<open>fr\<close>, whose closure makes the calls \<open>as\<close> and
  returns \<open>v\<close>; \<open>HCallFunction\<close> re-enters JavaScript, which makes the calls \<open>as\<close>. The dispatcher's
  trampoline is the word \<open>d\<close>, \<open>rel\<close> says which slot values have a release method.
\<close>

datatype hop =
    HBase api
  | HHost world host_op
  | HRegister ref "nat \<rightharpoonup> nat" Value
  | HRegisterLazy ref "uintptr option" Value
  | HDrop "64 word"
  | HDropLazy "64 word" "(ref \<times> uintptr) option"
  | HScope ref cs_op
  | HArguments FunctionCallbackArguments fa_op
  | HProperty PropertyCallbackArguments pa_op
  | HReturn ReturnValue rv_op
  | HReleaseState ref "nat list" "64 word list"
  | HCallFunction ref Value Value "Value list" "hop list"
  | HCall hostCallbackFrame "32 word" "hop list"

primrec hexec :: "engine \<Rightarrow> tid \<Rightarrow> uintptr \<Rightarrow> (nat \<Rightarrow> bool) \<Rightarrow> hop \<Rightarrow> hsys \<Rightarrow> hsys" where
  "hexec E t d rel (HBase a) = (\<lambda>x. put_hworld (exec E t a (hworld x)) x)"
| "hexec E t d rel (HHost w a) = (\<lambda>x. x\<lparr>hhost := host_exec rel t w a (hhost x)\<rparr>)"
| "hexec E t d rel (HRegister i cl v) = (\<lambda>x. snd (registerHostEntry E t d i cl v x))"
| "hexec E t d rel (HRegisterLazy i g v) = (\<lambda>x. snd (registerLazyGetter E t d i g v x))"
| "hexec E t d rel (HDrop h) = (\<lambda>x. snd (dropHostCallback E t h x))"
| "hexec E t d rel (HDropLazy h k) = (\<lambda>x. snd (dropNewLazyGetter E t h k x))"
| "hexec E t d rel (HScope c a) = cs_exec E t c a"
| "hexec E t d rel (HArguments a b) = (\<lambda>x. snd (fa_call E t a b x))"
| "hexec E t d rel (HProperty a b) = (\<lambda>x. snd (pa_call E t a b x))"
| "hexec E t d rel (HReturn rv a) = (\<lambda>x. snd (rv_call E t rv a x))"
| "hexec E t d rel (HReleaseState i ks order) = (\<lambda>x. snd (ReleaseIsolateHostState E t rel ks order i x))"
| "hexec E t d rel (HCallFunction c fn recv vs as) =
     (\<lambda>x. snd (CallFunction E t (fold id (map (hexec E t d rel) as)) c fn recv vs x))"
| "hexec E t d rel (HCall fr v as) = trampoline t (fold id (map (hexec E t d rel) as)) v fr"

definition hruns :: "engine \<Rightarrow> uintptr \<Rightarrow> (nat \<Rightarrow> bool) \<Rightarrow> (tid \<times> hop) list \<Rightarrow> hsys \<Rightarrow> hsys" where
  "hruns E d rel tr x = fold (\<lambda>(t, a). hexec E t d rel a) tr x"

lemma hruns_simps [simp]:
  "hruns E d rel [] x = x" "hruns E d rel ((t, a) # tr) x = hruns E d rel tr (hexec E t d rel a x)"
  by (simp_all add: hruns_def)

definition hboot :: "world \<Rightarrow> hsys" where
  "hboot w = \<lparr>hwasm = wboot w, hhost = host_boot, hnext = 0, hentries = Map.empty, hlazyGetters = (\<lambda>_. 0), hfast = None,
     hdispatcherErr = None,
     frames = (\<lambda>_. \<lparr>fr_kind = 0, fr_flags = 0, fr_handle = 0, fr_argc = 0, fr_argv = None, fr_isolate = 0, fr_scopeWire = 0,
       fr_ctxWire = 0, fr_dataWire = 0, fr_thisWire = 0, fr_newTargetWire = 0, fr_propertyWire = 0, fr_valueWire = 0,
       fr_rvWord = 0, fr_index = 0, fr_outIntercepted = 0, fr_holderWire = 0, fr_outWire = 0, fr_shouldThrow = 0,
       fr_pdFlags = 0, fr_pdWritable = 0, fr_pdEnumerable = 0, fr_pdConfigurable = 0, fr_pdPad = 0, fr_pdValueWire = 0\<rparr>),
     liveFrames = {}, cscopes = (\<lambda>_. \<lparr>k_iso = None, k_sc = None, k_ctxWire = 0, k_frame = None\<rparr>), hnextObj = 0,
     marActive = Map.empty, marByIso = (\<lambda>_. []), chEntries = Map.empty, hran = []\<rparr>"

section \<open>What an operation leaves alone\<close>

text \<open>
  The state in four parts: the world, where a change is monotone (\<open>wext\<close>: no scope is reopened, no
  object is forgotten); the registry with its table; the callback scopes and live frames; the rest.
  Most operations change the world only; \<open>plain x y\<close> says so of the parts the invariants look at.
\<close>

definition wext :: "world \<Rightarrow> world \<Rightarrow> bool" where
  "wext w w' \<longleftrightarrow> nextRef w \<le> nextRef w' \<and> (\<forall>s. scope_gone s w \<longrightarrow> scope_gone s w')"

lemma wext_refl [simp]: "wext w w"
  by (simp add: wext_def)

lemma wext_trans [trans]: "wext w w' \<Longrightarrow> wext w' w'' \<Longrightarrow> wext w w''"
  by (auto simp: wext_def)

lemma wext_logged: "logged w w' \<Longrightarrow> wext w w'"
  by (auto simp: logged_def wext_def scope_gone_def)

interpretation alloc_alloc: alloc_stable "\<lambda>w. n \<le> nextRef w" for n
  by unfold_locales auto

interpretation alloc_scope: scope_blind "\<lambda>w. n \<le> nextRef w" for n
  by unfold_locales auto

interpretation alloc_context: context_blind "\<lambda>w. n \<le> nextRef w" for n
  by unfold_locales auto

interpretation alloc_script: script_blind "\<lambda>w. n \<le> nextRef w" for n
  by unfold_locales auto

interpretation alloc_handle: handle_blind "\<lambda>w. n \<le> nextRef w" for n
  by unfold_locales auto

interpretation alloc_dispose: dispose_blind "\<lambda>w. n \<le> nextRef w" for n
  by unfold_locales auto

lemma alloc_lifecycle: "n \<le> nextRef w \<Longrightarrow> n \<le> nextRef (lifecycle_exec E t a w)"
  using lifecycle_heaps [of E t a w] by auto

interpretation alloc: api_stable "\<lambda>w. n \<le> nextRef w" for n
  by unfold_locales (simp_all add: alloc_lifecycle alloc_scope.P_scope_exec alloc_context.P_context_exec
      alloc_handle.P_handle_exec alloc_dispose.P_dispose_exec)

lemma wext_exec: "wext w (exec E t a w)"
  by (simp add: wext_def gone_scope.P_exec alloc.P_exec)

section \<open>What every operation keeps\<close>

lemma logged_calls:
  "logged w (snd (callErr E t oper p a w))" "logged w (snd (callHandle E t oper p a w))" "logged w (snd (unitCall E t oper p a w))"
  by (auto simp: unitCall_def intro!: log.P_rules logged_refl)

lemma logged_NewString: "logged w (snd (NewString E t s str w))"
  by (auto simp: op_defs intro!: log.P_rules logged_refl)

lemma logged_Undefined: "logged w (snd (Undefined E t s w))"
  by (auto simp: op_defs shim_eq Let_def intro!: log.P_rules logged_refl)

lemma logged_text: "logged w (snd (callTextFn oper (\<lambda>n. shim E t p (A n)) w))"
  by (auto simp: shim_eq intro!: log.P_callTextFn log.P_called logged_refl)

text \<open>
  A relation between states that every single update stays in is kept by every operation, callbacks
  included. For an invariant the relation is that it survives.
\<close>

locale host_evolution =
  fixes R :: "hsys \<Rightarrow> hsys \<Rightarrow> bool"
  assumes R_refl: "R x x"
    and R_trans: "R x y \<Longrightarrow> R y z \<Longrightarrow> R x z"
    and R_wasm: "wext (hworld x) (wbase u) \<Longrightarrow> R x (x\<lparr>hwasm := u\<rparr>)"
    and R_host: "R x (x\<lparr>hhost := d\<rparr>)"
    and R_next: "R x (x\<lparr>hnext := n\<rparr>)"
    and R_lazy: "R x (x\<lparr>hlazyGetters := L\<rparr>)"
    and R_dispatcher: "R x (x\<lparr>hdispatcherErr := e\<rparr>)"
    and R_frames: "R x (x\<lparr>frames := F\<rparr>)"
    and R_modules: "R x (x\<lparr>marActive := M, marByIso := B\<rparr>)"
    and R_hooks: "R x (x\<lparr>chEntries := C\<rparr>)"
    and R_publish: "publishFastHostCallbackLocked h en (hfast x) = Some cs \<Longrightarrow> h \<noteq> 0 \<Longrightarrow>
      R x (x\<lparr>hentries := (hentries x)(h \<mapsto> en), hfast := Some cs\<rparr>)"
    and R_drop: "dropAllFast hs (hfast x) = Inr fast \<Longrightarrow>
      R x (x\<lparr>hentries := (\<lambda>h. if h \<in> set hs then None else hentries x h), hfast := fast\<rparr>)"
    and R_trampoline: "(\<And>y. R y (f y)) \<Longrightarrow> R x (trampoline t f v fr x)"
begin

lemma R_guarded: "((\<forall>g \<in> set gs. g = None) \<Longrightarrow> R x (snd (k x))) \<Longrightarrow> R x (snd (guarded gs k x))"
  by (auto simp: snd_guarded R_refl)

lemma R_andThen: "R x (snd m) \<Longrightarrow> (\<And>v y. m = (Inr v, y) \<Longrightarrow> R y (snd (k v y))) \<Longrightarrow> R x (snd (andThen m k))"
  by (cases m; cases "fst m") (auto intro: R_trans)

lemma R_world: "wext (hworld x) w \<Longrightarrow> R x (put_hworld w x)"
  by (rule R_wasm) simp

lemma R_onBase: "logged (hworld x) (snd (f (hworld x))) \<Longrightarrow> R x (snd (hOnBase f x))"
  by (simp add: hOnBase_def lift_def R_world wext_logged)

lemma R_call:
  "R x (snd (hOnBase (\<lambda>w. callErr E t oper p (A w) w) x))"
  "R x (snd (hOnBase (\<lambda>w. callHandle E t oper p (A w) w) x))"
  "R x (snd (hOnBase (\<lambda>w. unitCall E t oper p (A w) w) x))"
  "R x (snd (hOnBase (NewString E t s str) x))"
  "R x (snd (hOnBase (Undefined E t s) x))"
  "R x (snd (hOnBase (callTextFn oper (\<lambda>n. shim E t p (B n))) x))"
  by (simp_all add: R_onBase logged_calls logged_NewString logged_Undefined logged_text)

lemma R_onScope: "(\<And>s. R x (snd (f s x))) \<Longrightarrow> R x (snd (onScope c f x))"
  by (simp add: onScope_def R_refl split: option.split)

lemma R_readFrame: "(f \<in> liveFrames x \<Longrightarrow> R x (snd (k (frames x f) x))) \<Longrightarrow> R x (snd (readFrame f k x))"
  by (simp add: readFrame_def R_refl)

lemma R_wireOrUndefined: "R x (snd (wireOrUndefined E t c h x))"
  by (simp add: wireOrUndefined_def R_refl R_onScope R_call)

lemma R_dispatcherCall: "R x (snd (ensureDispatcher E t d x))"
  using R_call(1) [of x E t "''SetDispatcher''" "''gov8_host_set_dispatcher''" "\<lambda>_. [W d]"]
  by (auto simp: ensureDispatcher_def split_def R_refl intro: R_trans [OF _ R_dispatcher] split: option.split sum.split)

lemma R_registerAssuming: "R x (snd (registerHostEntryAssumingIsolate E t d i cl v x))"
  unfolding registerHostEntryAssumingIsolate_def
  by (intro R_guarded R_andThen R_dispatcherCall R_call)
    (auto simp: reserveHandle_def publishEntry_def R_refl R_next dest: reserveLoop_free intro: R_publish split: option.splits)

lemma R_register: "R x (snd (registerHostEntry E t d i cl v x))"
  by (simp add: registerHostEntry_def R_guarded R_registerAssuming)

lemma R_accessors: "R x (snd (registerAccessorCallbacks E t d i g s v x))"
  by (auto simp: registerAccessorCallbacks_def newHostContext_def R_refl intro!: R_guarded R_register)

lemma R_dropOne: "dropFastHostCallback h (hfast x) = Inr fast \<Longrightarrow> R x (x\<lparr>hentries := (hentries x)(h := None), hfast := fast\<rparr>)"
  using R_drop [of "[h]" x fast] by (simp add: fun_upd_def)

lemma R_dropHostCallback: "R x (snd (dropHostCallback E t h x))"
  by (auto simp: dropHostCallback_def Let_def R_refl intro: R_dropOne R_trans [OF R_dropOne R_call(1)] split: sum.split option.split)

lemma R_registerLazy: "R x (snd (registerLazyGetter E t d i g v x))"
  by (auto simp: registerLazyGetter_def R_refl R_lazy intro!: R_andThen R_accessors R_dropHostCallback split: option.split sum.split)

lemma R_dropLazy: "R x (snd (dropNewLazyGetter E t h k x))"
  by (auto simp: dropNewLazyGetter_def R_dropHostCallback intro: R_trans [OF R_lazy R_dropHostCallback] split: option.split)

lemma R_cs_exec: "R x (cs_exec E t c a x)"
  by (cases a)
    (auto simp: CS_NewString_def CS_ToString_def CS_IntegerValue_def CS_NumberValue_def ObjectGet_def ObjectSet_def NewObject_def
      NewArrayWithElements_def ThrowException_def NewError_def R_refl
      intro!: R_guarded R_andThen R_onScope R_call R_readFrame split: option.split)

lemma R_fa_call: "R x (snd (fa_call E t a b x))"
  by (cases b)
    (auto simp: FA_Get_def FA_This_def FA_NewTarget_def FA_Data_def onArguments_def R_refl
      intro!: R_guarded R_readFrame R_wireOrUndefined)

lemma R_pa_call: "R x (snd (pa_call E t a b x))"
  by (cases b)
    (auto simp: PA_Property_def PA_This_def PA_Holder_def PA_Data_def PA_wire_def R_refl intro!: R_readFrame R_wireOrUndefined)

lemma R_upd_frame: "R x (upd_frame f g x)"
  by (simp add: upd_frame_def R_frames)

lemma R_materialize: "R x (snd (materializeDeferredInt32 E t f fr x))"
  by (auto simp: materializeDeferredInt32_def setInt32Native_def R_refl intro!: R_andThen R_call R_upd_frame)

lemma R_setFixed: "R x (snd (setFixed E t rv oper k v x))"
  by (auto simp: setFixed_def onReturnValue_def intro!: R_guarded R_readFrame R_andThen R_materialize R_call)

lemma R_rv_call: "R x (snd (rv_call E t rv a x))"
  by (cases a)
    (auto simp: RV_Set_def SetInt32_def SetUint32_def SetFloat64_def SetBool_def SetNull_def SetUndefined_def SetEmptyString_def
      RV_Get_def onReturnValue_def setInt32Native_def voided_def R_refl
      intro!: R_guarded R_readFrame R_andThen R_materialize R_call R_setFixed R_upd_frame R_wireOrUndefined)

lemma R_releaseCallbacks: "R x (snd (releaseCallbacks E t order i x))"
proof -
  have "R x (x\<lparr>hentries := (\<lambda>h. if h \<in> set hs then None else hentries x h), hfast := fast, hlazyGetters := L\<rparr>)"
    if "dropAllFast hs (hfast x) = Inr fast" for hs fast L
    by (rule R_trans [OF R_drop [OF that]]) (rule R_lazy)
  then show ?thesis
    by (auto simp: releaseCallbacks_def Let_def R_refl simp del: set_filter intro: R_trans [OF _ R_call(3)] split: sum.split)
qed

lemma R_release: "R x (snd (ReleaseIsolateHostState E t rel ks order i x))"
proof -
  have wasm: "R x (snd (lift hwasm (\<lambda>u x. x\<lparr>hwasm := u\<rparr>) (releaseWasmStreamingHostState E t i) x))" for x
  proof -
    have "wext (hworld x) (wbase (snd (releaseWasmStreamingHostState E t i (hwasm x))))"
      by (rule wext_logged)
        (auto simp: releaseWasmStreamingHostState_def snd_guarded snd_andThen Let_def wOnBase_def lift_def forgetCallback_def
          intro: logged_calls logged_refl split: sum.split)
    then show ?thesis by (simp add: lift_def R_wasm)
  qed
  have modules: "R x (snd (releaseModuleAdvancedHostState E t i x))" for x
    by (auto simp: releaseModuleAdvancedHostState_def R_refl intro!: R_guarded intro: R_trans [OF R_modules R_call(3)])
  have callbacks: "R x (snd (releaseCallbacks E t order i (releaseCHIsolateEntries i x)))" for x
    by (rule R_trans [OF _ R_releaseCallbacks]) (simp add: releaseCHIsolateEntries_def R_hooks)
  have "R x (let x1 = resetNext order x in x1\<lparr>hhost := releaseSlots rel ks i (hhost x1)\<rparr>)" for x
    by (auto simp: resetNext_def Let_def intro: R_host R_trans [OF R_next R_host])
  then show ?thesis unfolding ReleaseIsolateHostState_def
    by (intro R_guarded R_andThen wasm modules callbacks) simp
qed

lemma R_fold: "(\<And>f y. f \<in> set fs \<Longrightarrow> R y (f y)) \<Longrightarrow> R x (fold id fs x)"
  by (induction fs arbitrary: x) (auto intro: R_refl R_trans)

lemma R_hexec: "R x (hexec E t d rel a x)"
proof (induction a arbitrary: x)
  case (HCallFunction c fn recv vs as)
  let ?f = "fold id (map (hexec E t d rel) as)"
  have f: "R y (?f y)" for y by (rule R_fold) (use HCallFunction in auto)
  have "R x (?f (put_hworld (called t p args (hworld x)) x))" for p args
    by (rule R_trans [OF R_world f]) (blast intro: wext_logged log.P_called logged_refl)
  then show ?case
    by (auto simp: CallFunction_def shim_eq Let_def simp del: append.simps intro!: R_guarded)
next
  case (HCall fr v as)
  have "R y (fold id (map (hexec E t d rel) as) y)" for y by (rule R_fold) (use HCall in auto)
  then show ?case by (simp add: R_trampoline)
qed (simp_all add: R_world wext_exec R_host R_register R_registerLazy R_dropHostCallback R_dropLazy R_cs_exec R_fa_call R_pa_call
    R_rv_call R_release)

lemma R_hruns: "R x (hruns E d rel tr x)"
proof (induction tr arbitrary: x)
  case (Cons p tr)
  show ?case by (cases p) (simp add: R_trans [OF R_hexec Cons.IH])
qed (simp add: R_refl)

end

section \<open>The registry and its table agree\<close>

lemma dispatch_cases:
  obtains (refused) e where "hostCallbackDispatch t f v (Some fr) x = (Inl e, x)"
  | (ran) i cl where "hostCallbackDispatch t f v (Some fr) x =
      (Inr (), closeInvocation (nextRef (hworld x))
        (let y = f ((openInvocation i fr x)\<lparr>hran := hran (openInvocation i fr x) @ [cl]\<rparr>)
         in if intercepts (unat (fr_kind (frames x fr))) then upd_frame fr (\<lambda>q. q\<lparr>fr_outIntercepted := v\<rparr>) y else y))"
proof (cases "\<exists>e. hostCallbackDispatch t f v (Some fr) x = (Inl e, x)")
  case False
  then show thesis using that(2)
    by (auto simp: hostCallbackDispatch_def Let_def guarded_def simp del: first_err_None split: sum.splits option.splits)
qed (use that(1) in blast)

lemma fast_ok_fields [simp]:
  "fast_ok (x\<lparr>hwasm := u\<rparr>) = fast_ok x" "fast_ok (x\<lparr>hhost := d\<rparr>) = fast_ok x" "fast_ok (x\<lparr>hnext := n\<rparr>) = fast_ok x"
  "fast_ok (x\<lparr>hlazyGetters := L\<rparr>) = fast_ok x" "fast_ok (x\<lparr>hdispatcherErr := e\<rparr>) = fast_ok x" "fast_ok (x\<lparr>frames := F\<rparr>) = fast_ok x"
  "fast_ok (x\<lparr>liveFrames := S\<rparr>) = fast_ok x" "fast_ok (x\<lparr>cscopes := C\<rparr>) = fast_ok x" "fast_ok (x\<lparr>hnextObj := k\<rparr>) = fast_ok x"
  "fast_ok (x\<lparr>marActive := M\<rparr>) = fast_ok x" "fast_ok (x\<lparr>marByIso := B\<rparr>) = fast_ok x" "fast_ok (x\<lparr>chEntries := H\<rparr>) = fast_ok x"
  "fast_ok (x\<lparr>hran := l\<rparr>) = fast_ok x"
  by (simp_all add: fast_ok_def)

lemma fast_ok_publish:
  "fast_ok x \<Longrightarrow> publishFastHostCallbackLocked h e (hfast x) = Some cs \<Longrightarrow> h \<noteq> 0 \<Longrightarrow>
   fast_ok (x\<lparr>hentries := (hentries x)(h \<mapsto> e), hfast := Some cs\<rparr>)"
  by (auto simp: fast_ok_def fastSlot_publish)

lemma fast_ok_drop:
  "fast_ok x \<Longrightarrow> dropAllFast hs (hfast x) = Inr fast \<Longrightarrow>
   fast_ok (x\<lparr>hentries := (\<lambda>h. if h \<in> set hs then None else hentries x h), hfast := fast\<rparr>)"
  by (auto simp: fast_ok_def fastSlot_dropAll)

lemma fast_ok_trampoline:
  assumes "\<And>y. fast_ok y \<Longrightarrow> fast_ok (f y)" "fast_ok x"
  shows "fast_ok (trampoline t f v fr x)"
proof -
  let ?x = "x\<lparr>frames := (frames x)(hnextObj x := fr), liveFrames := insert (hnextObj x) (liveFrames x), hnextObj := Suc (hnextObj x)\<rparr>"
  have "fast_ok (snd (hostCallbackDispatch t f v (Some (hnextObj x)) ?x))"
    by (rule dispatch_cases [of t f v "hnextObj x" ?x])
      (use assms in \<open>auto simp: closeInvocation_def upd_frame_def openInvocation_def Let_def\<close>)
  then show ?thesis by (simp add: trampoline_def pushFrame_def Let_def)
qed

interpretation fast: host_evolution "\<lambda>x y. fast_ok x \<longrightarrow> fast_ok y"
  by unfold_locales (auto simp: fast_ok_publish fast_ok_drop fast_ok_trampoline)

lemma fast_ok_boot: "fast_ok (hboot w)"
  by (simp add: fast_ok_def hboot_def fastSlot_def)

section \<open>Frames and callback scopes\<close>

definition frames_ok :: "hsys \<Rightarrow> bool" where
  "frames_ok x \<longleftrightarrow>
     (\<forall>c f. k_frame (cscopes x c) = Some f \<longrightarrow>
        c < hnextObj x \<and> f < hnextObj x \<and> (f \<in> liveFrames x \<or> (\<exists>s. k_sc (cscopes x c) = Some s \<and> scope_gone s (hworld x))))
     \<and> liveFrames x \<subseteq> {..<hnextObj x}"

lemma frames_okD:
  assumes "frames_ok x" "k_frame (cscopes x c) = Some f"
  shows "c < hnextObj x" "f < hnextObj x" "f \<in> liveFrames x \<or> (\<exists>s. k_sc (cscopes x c) = Some s \<and> scope_gone s (hworld x))"
  using assms by (auto simp: frames_ok_def)

definition hext :: "hsys \<Rightarrow> hsys \<Rightarrow> bool" where
  "hext x y \<longleftrightarrow>
     hnextObj x \<le> hnextObj y
     \<and> (\<forall>c < hnextObj x. cscopes y c = cscopes x c)
     \<and> (\<forall>c f. hnextObj x \<le> c \<longrightarrow> k_frame (cscopes y c) = Some f \<longrightarrow> hnextObj x \<le> f)
     \<and> liveFrames y = liveFrames x
     \<and> wext (hworld x) (hworld y)"

lemma hextD:
  assumes "hext x y"
  shows "hnextObj x \<le> hnextObj y" "c < hnextObj x \<Longrightarrow> cscopes y c = cscopes x c"
    "hnextObj x \<le> c \<Longrightarrow> k_frame (cscopes y c) = Some f \<Longrightarrow> hnextObj x \<le> f"
    "liveFrames y = liveFrames x" "wext (hworld x) (hworld y)"
  using assms by (auto simp: hext_def)

lemma hext_trans:
  assumes a: "hext x y" and b: "hext y z"
  shows "hext x z"
  unfolding hext_def
proof (intro conjI allI impI)
  show "hnextObj x \<le> hnextObj z" "liveFrames z = liveFrames x" "wext (hworld x) (hworld z)"
    using hextD [OF a] hextD [OF b] by (auto intro: wext_trans)
  show "cscopes z c = cscopes x c" if "c < hnextObj x" for c
    using hextD(1) [OF a] that by (simp add: hextD(2) [OF a] hextD(2) [OF b])
  show "hnextObj x \<le> f" if "hnextObj x \<le> c" "k_frame (cscopes z c) = Some f" for c f
  proof (cases "c < hnextObj y")
    case True
    with that show ?thesis by (simp add: hextD(2) [OF b] hextD(3) [OF a])
  next
    case False
    then have "hnextObj y \<le> f" using hextD(3) [OF b, of c f] that(2) by simp
    with hextD(1) [OF a] show ?thesis by simp
  qed
qed

text \<open>An update that touches none of the parts of \<open>frames_ok\<close> but the world.\<close>

lemma frames_ok_world:
  assumes "frames_ok x" "cscopes y = cscopes x" "liveFrames y = liveFrames x" "hnextObj y = hnextObj x" "wext (hworld x) (hworld y)"
  shows "frames_ok y \<and> hext x y"
  using assms by (fastforce simp: frames_ok_def hext_def wext_def)

text \<open>The state in which the closure of a callback starts.\<close>

definition entered :: "ref \<Rightarrow> nat \<Rightarrow> hostCallbackFrame \<Rightarrow> hsys \<Rightarrow> hsys" where
  "entered i cl fr x =
     (let y = openInvocation i (hnextObj x) (pushFrame fr x) in y\<lparr>hran := hran y @ [cl]\<rparr>)"

lemma entered_fields:
  "cscopes (entered i cl fr x) = (cscopes x)(Suc (hnextObj x) :=
     \<lparr>k_iso = Some i, k_sc = Some (nextRef (hworld x)), k_ctxWire = fr_ctxWire fr, k_frame = Some (hnextObj x)\<rparr>)"
  "liveFrames (entered i cl fr x) = insert (hnextObj x) (liveFrames x)"
  "hnextObj (entered i cl fr x) = Suc (Suc (hnextObj x))"
  "nextRef (hworld (entered i cl fr x)) = Suc (nextRef (hworld x))"
  "wext (hworld x) (hworld (entered i cl fr x))"
  "hentries (entered i cl fr x) = hentries x" "hfast (entered i cl fr x) = hfast x"
  by (simp_all add: entered_def pushFrame_def openInvocation_def Let_def wext_def scope_gone_def)

lemma frames_ok_entered:
  assumes x: "frames_ok x"
  shows "frames_ok (entered i cl fr x)"
  unfolding frames_ok_def
proof (intro conjI allI impI)
  let ?o = "entered i cl fr x"
  show "liveFrames ?o \<subseteq> {..<hnextObj ?o}" using x by (auto simp: entered_fields frames_ok_def)
  fix c f assume q: "k_frame (cscopes ?o c) = Some f"
  show "c < hnextObj ?o" "f < hnextObj ?o"
    using q frames_okD(1,2) [OF x, of c f] by (auto simp: entered_fields split: if_splits)
  show "f \<in> liveFrames ?o \<or> (\<exists>s. k_sc (cscopes ?o c) = Some s \<and> scope_gone s (hworld ?o))"
  proof (cases "c = Suc (hnextObj x)")
    case False
    with q have "k_frame (cscopes x c) = Some f" by (simp add: entered_fields)
    from frames_okD(3) [OF x this] False entered_fields(5) [of x i cl fr] show ?thesis
      by (auto simp: entered_fields(1,2) wext_def)
  qed (use q in \<open>simp add: entered_fields\<close>)
qed

text \<open>What is left when the closure has returned: its scope is closed, its frame gone.\<close>

lemma frames_ok_left:
  assumes x: "frames_ok x" and y: "frames_ok y" "hext (entered i cl fr x) y"
    and z: "cscopes z = cscopes y" "liveFrames z = liveFrames y - {hnextObj x}" "hnextObj z = hnextObj y"
      "hworld z = upd_scope (nextRef (hworld x)) (\<lambda>q. q\<lparr>s_closed := True, s_handle := 0\<rparr>) (hworld y)"
  shows "frames_ok z \<and> hext x z"
proof
  let ?n = "hnextObj x" and ?s = "nextRef (hworld x)"
  note e = hextD [OF y(2), unfolded entered_fields]
  have same: "cscopes y c = cscopes (entered i cl fr x) c" if "c < Suc (Suc ?n)" for c
    using hextD(2) [OF y(2)] that by (simp add: entered_fields(3))
  have s: "?s < nextRef (hworld y)" using e(5) by (simp add: wext_def entered_fields(4))
  have w: "wext (hworld y) (hworld z)" unfolding z by (simp add: wext_def scope_gone_def)
  have gone: "scope_gone ?s (hworld z)" unfolding z using s by (simp add: scope_gone_def)
  have own: "c = Suc ?n" if "k_frame (cscopes y c) = Some ?n" for c
  proof (cases "c < Suc (Suc ?n)")
    case True
    with that same [OF True] frames_okD(2) [OF x, of c ?n] show ?thesis by (auto simp: entered_fields split: if_splits)
  next
    case False
    then show ?thesis using e(3) [of c ?n] that by simp
  qed
  have sc: "k_sc (cscopes y (Suc ?n)) = Some ?s" using same [of "Suc ?n"] by (simp add: entered_fields)
  show "frames_ok z" unfolding frames_ok_def z(1-3)
  proof (intro conjI allI impI)
    show "liveFrames y - {?n} \<subseteq> {..<hnextObj y}" using y(1) by (auto simp: frames_ok_def)
    fix c f assume q: "k_frame (cscopes y c) = Some f"
    note p = frames_okD [OF y(1) q]
    show "c < hnextObj y" "f < hnextObj y" by (fact p)+
    show "f \<in> liveFrames y - {?n} \<or> (\<exists>s. k_sc (cscopes y c) = Some s \<and> scope_gone s (hworld z))"
    proof (cases "f = ?n")
      case True
      with q own have "c = Suc ?n" by blast
      with sc gone show ?thesis by blast
    next
      case False
      with p(3) w show ?thesis unfolding wext_def by blast
    qed
  qed
  show "hext x z" unfolding hext_def z(1-3)
  proof (intro conjI allI impI)
    show "?n \<le> hnextObj y" using e(1) by simp
    show "cscopes y c = cscopes x c" if "c < ?n" for c using same [of c] that by (simp add: entered_fields)
    show "?n \<le> f" if "?n \<le> c" "k_frame (cscopes y c) = Some f" for c f
    proof (cases "c < Suc (Suc ?n)")
      case True
      with that same [OF True] frames_okD(1) [OF x, of c f] show ?thesis by (auto simp: entered_fields split: if_splits)
    next
      case False
      then show ?thesis using e(3) [of c f] that by simp
    qed
    show "liveFrames y - {?n} = liveFrames x" using e(4) x by (auto simp: frames_ok_def)
    show "wext (hworld x) (hworld z)" using entered_fields(5) e(5) w by (blast intro: wext_trans)
  qed
qed

lemma frames_ok_trampoline:
  assumes f: "\<And>y. frames_ok y \<Longrightarrow> frames_ok (f y) \<and> hext y (f y)" and x: "frames_ok x"
  shows "frames_ok (trampoline t f v fr x) \<and> hext x (trampoline t f v fr x)"
proof (rule dispatch_cases [of t f v "hnextObj x" "pushFrame fr x"])
  fix e assume "hostCallbackDispatch t f v (Some (hnextObj x)) (pushFrame fr x) = (Inl e, pushFrame fr x)"
  then have "trampoline t f v fr x = (pushFrame fr x)\<lparr>liveFrames := liveFrames (pushFrame fr x) - {hnextObj x}\<rparr>"
    by (simp add: trampoline_def Let_def)
  moreover have "insert (hnextObj x) (liveFrames x) - {hnextObj x} = liveFrames x" using x by (auto simp: frames_ok_def)
  ultimately show ?thesis using x by (auto simp: pushFrame_def frames_ok_def hext_def less_Suc_eq) (meson not_less)
next
  fix i cl
  let ?y = "f (entered i cl fr x)"
  assume run: "hostCallbackDispatch t f v (Some (hnextObj x)) (pushFrame fr x) =
      (Inr (), closeInvocation (nextRef (hworld (pushFrame fr x)))
        (let y = f ((openInvocation i (hnextObj x) (pushFrame fr x))\<lparr>hran := hran (openInvocation i (hnextObj x) (pushFrame fr x)) @ [cl]\<rparr>)
         in if intercepts (unat (fr_kind (frames (pushFrame fr x) (hnextObj x))))
            then upd_frame (hnextObj x) (\<lambda>q. q\<lparr>fr_outIntercepted := v\<rparr>) y else y))"
  have "frames_ok ?y \<and> hext (entered i cl fr x) ?y" by (intro f frames_ok_entered x)
  then show ?thesis
    by (intro frames_ok_left [OF x, of ?y i cl fr])
      (use run in \<open>simp_all add: trampoline_def entered_def closeInvocation_def upd_frame_def pushFrame_def Let_def\<close>)
qed

interpretation callback_frames: host_evolution "\<lambda>x y. frames_ok x \<longrightarrow> frames_ok y \<and> hext x y"
proof
  fix x y z :: hsys
  assume "frames_ok x \<longrightarrow> frames_ok y \<and> hext x y" "frames_ok y \<longrightarrow> frames_ok z \<and> hext y z"
  then show "frames_ok x \<longrightarrow> frames_ok z \<and> hext x z" using hext_trans by blast
next
  fix f :: "hsys \<Rightarrow> hsys" and t v fr x
  assume "\<And>y. frames_ok y \<longrightarrow> frames_ok (f y) \<and> hext y (f y)"
  then show "frames_ok x \<longrightarrow> frames_ok (trampoline t f v fr x) \<and> hext x (trampoline t f v fr x)"
    using frames_ok_trampoline by blast
qed (auto intro: frames_ok_world [THEN conjunct1] frames_ok_world [THEN conjunct2])

lemma frames_ok_boot: "frames_ok (hboot w)"
  by (simp add: frames_ok_def hboot_def)

section \<open>States inside callbacks\<close>

text \<open>
  The states the process goes through: a call in a state, the start of a closure whose handle is
  registered, and the start of the JavaScript that CallFunction runs. A call made between the start of a closure
  and its end is a call in a state of this kind.
\<close>

inductive hstate :: "engine \<Rightarrow> uintptr \<Rightarrow> (nat \<Rightarrow> bool) \<Rightarrow> hsys \<Rightarrow> bool" for E d rel where
  boot: "hstate E d rel (hboot w)"
| call: "hstate E d rel x \<Longrightarrow> hstate E d rel (hexec E t d rel a x)"
| callback: "hstate E d rel x \<Longrightarrow> lookupHostCallback (fr_handle fr) x = Inr (Some e) \<Longrightarrow>
    he_closure e (unat (fr_kind fr)) = Some cl \<Longrightarrow> hstate E d rel (entered (he_iso e) cl fr x)"
| script: "hstate E d rel x \<Longrightarrow> hstate E d rel (put_hworld (called t p args (hworld x)) x)"

lemma hstate_hruns: "hstate E d rel x \<Longrightarrow> hstate E d rel (hruns E d rel tr x)"
proof (induction tr arbitrary: x)
  case (Cons p tr)
  show ?case by (cases p) (simp add: Cons.IH [OF hstate.call [OF Cons.prems]])
qed simp

lemma hstate_frames_ok: "hstate E d rel x \<Longrightarrow> frames_ok x"
proof (induction rule: hstate.induct)
  case (call x t a)
  then show ?case using callback_frames.R_hexec [of x E t d rel a] by blast
next
  case (script x t p args)
  have "wext (hworld x) (called t p args (hworld x))" by (blast intro: wext_logged log.P_called logged_refl)
  then show ?case using script callback_frames.R_world by blast
qed (simp_all add: frames_ok_boot frames_ok_entered)

lemma hstate_fast_ok: "hstate E d rel x \<Longrightarrow> fast_ok x"
proof (induction rule: hstate.induct)
  case (call x t a)
  then show ?case using fast.R_hexec [of x E t d rel a] by blast
next
  case (boot w)
  show ?case by (rule fast_ok_boot)
qed (simp_all add: entered_fields fast_ok_def)

section \<open>Scopes that pass their check\<close>

lemma check_not_gone: "Scope_check t s w = None \<Longrightarrow> \<not> scope_gone s w"
  by (auto simp: check_defs scope_gone_def)

lemma CallbackScope_live:
  assumes "frames_ok x" "k_frame (cscopes x c) = Some f" "CallbackScope_check t (Some c) x = None"
  shows "f \<in> liveFrames x"
proof (rule ccontr)
  assume "f \<notin> liveFrames x"
  with frames_okD(3) [OF assms(1,2)] obtain s where s: "k_sc (cscopes x c) = Some s" "scope_gone s (hworld x)" by blast
  with assms(3) have "Scope_check t s (hworld x) = None" by (simp add: CallbackScope_check_def Let_def split: if_splits)
  with s(2) show False using check_not_gone by blast
qed

lemma ReturnValue_live:
  assumes "frames_ok x" "k_frame (cscopes x (rv_cs rv)) = Some f" "RV_checkedFrame t rv x = None"
  shows "f \<in> liveFrames x"
proof (rule ccontr)
  assume "f \<notin> liveFrames x"
  with frames_okD(3) [OF assms(1,2)] obtain s where s: "k_sc (cscopes x (rv_cs rv)) = Some s" "scope_gone s (hworld x)" by blast
  with assms(3) have "Scope_check t s (hworld x) = None" by (simp add: RV_checkedFrame_def split: if_splits)
  with s(2) show False using check_not_gone by blast
qed

lemma no_frame_at_rest: "liveFrames (hruns E d rel tr (hboot w)) = {}"
  using callback_frames.R_hruns [of "hboot w" E d rel tr] frames_ok_boot [of w] hextD(4) by (fastforce simp: hboot_def)

section \<open>Release of an isolate\<close>

definition entriesOf :: "ref \<Rightarrow> hsys \<Rightarrow> (64 word) set" where
  "entriesOf i x = {h. \<exists>e. hentries x h = Some e \<and> he_iso e = i}"

lemma releaseCallbacks_effect:
  assumes "releaseCallbacks E t order i x = (Inr (), y)" "set order = dom (hentries x)"
  shows "hentries y = hentries x |` (- entriesOf i x) \<and> hlazyGetters y = (\<lambda>k. if fst k = i then 0 else hlazyGetters x k)
    \<and> hhost y = hhost x \<and> hnext y = hnext x"
proof -
  have "(\<lambda>h. if h \<in> set order \<and> (\<exists>e. hentries x h = Some e \<and> he_iso e = i) then None else hentries x h) = hentries x |` (- entriesOf i x)"
    using assms(2) by (auto simp: entriesOf_def restrict_map_def fun_eq_iff)
  then show ?thesis using assms(1)
    by (auto simp: releaseCallbacks_def Let_def hOnBase_def lift_def restrict_map_def entriesOf_def fun_eq_iff assms(2) split: sum.splits if_splits option.splits)
qed

lemma releaseSlots_registries:
  "slotRegistries (releaseSlots rel ks i q) i = None" "hostRefRegistries (releaseSlots rel ks i q) i = None"
proof -
  have "slotRegistries (fold (releaseSlotValue rel) vs u) = slotRegistries u \<and>
      hostRefRegistries (fold (releaseSlotValue rel) vs u) = hostRefRegistries u" for vs u
    by (induction vs arbitrary: u) (simp_all add: releaseSlotValue_def)
  then show "slotRegistries (releaseSlots rel ks i q) i = None" "hostRefRegistries (releaseSlots rel ks i q) i = None"
    by (simp_all add: releaseSlots_def Let_def split: option.split)
qed

lemma ReleaseIsolateHostState_effect:
  assumes "ReleaseIsolateHostState E t rel ks order i x = (Inr (), y)" "set order = dom (hentries x)"
  shows "hentries y = hentries x |` (- entriesOf i x)
    \<and> (\<forall>g. hlazyGetters y (i, g) = 0) \<and> (\<forall>j g. j \<noteq> i \<longrightarrow> hlazyGetters y (j, g) = hlazyGetters x (j, g))
    \<and> slotRegistries (hhost y) i = None \<and> hostRefRegistries (hhost y) i = None"
proof -
  from assms(1) obtain x1 x2 x3 where
    1: "lift hwasm (\<lambda>y x. x\<lparr>hwasm := y\<rparr>) (releaseWasmStreamingHostState E t i) x = (Inr (), x1)" and
    2: "releaseModuleAdvancedHostState E t i x1 = (Inr (), x2)" and
    3: "releaseCallbacks E t order i (releaseCHIsolateEntries i x2) = (Inr (), x3)" and
    y: "y = (let z = resetNext order x3 in z\<lparr>hhost := releaseSlots rel ks i (hhost z)\<rparr>)"
    by (auto simp: ReleaseIsolateHostState_def guarded_eq_Inr andThen_eq_Inr)
  from 1 have "hentries x1 = hentries x" "hlazyGetters x1 = hlazyGetters x" by (auto simp: lift_def split: prod.splits)
  moreover from 2 have "hentries x2 = hentries x1" "hlazyGetters x2 = hlazyGetters x1"
    by (auto simp: releaseModuleAdvancedHostState_def guarded_def hOnBase_def lift_def split: prod.splits if_splits)
  ultimately have e: "hentries (releaseCHIsolateEntries i x2) = hentries x" "hlazyGetters (releaseCHIsolateEntries i x2) = hlazyGetters x"
    by (simp_all add: releaseCHIsolateEntries_def)
  from releaseCallbacks_effect [OF 3] assms(2) e
  have "hentries x3 = hentries x |` (- entriesOf i x)" "hlazyGetters x3 = (\<lambda>k. if fst k = i then 0 else hlazyGetters x k)"
    by (simp_all add: entriesOf_def fun_eq_iff)
  then show ?thesis by (simp add: releaseSlots_registries y Let_def resetNext_def)
qed

section \<open>The shape word of function arguments\<close>

unbundle bit_operations_syntax

lemma bit_constructShape: "bit functionCallbackConstructShapeBit n \<longleftrightarrow> n = 32"
  unfolding functionCallbackConstructShapeBit_def bit_push_bit_iff by (auto simp: bit_1_iff)

lemma shape_length: "(ucast (packFunctionCallbackArgumentShape argc b) :: 32 word) = ucast argc"
  by (rule bit_word_eqI) (simp add: packFunctionCallbackArgumentShape_def Let_def bit_constructShape bit_simps)

lemma shape_construct: "packFunctionCallbackArgumentShape argc b AND functionCallbackConstructShapeBit \<noteq> 0 \<longleftrightarrow> b"
proof -
  have "bit (packFunctionCallbackArgumentShape argc b) 32 \<longleftrightarrow> b"
    by (simp add: packFunctionCallbackArgumentShape_def Let_def bit_constructShape bit_simps)
  moreover have "functionCallbackConstructShapeBit = 2 ^ 32" by (simp add: functionCallbackConstructShapeBit_def)
  ultimately show ?thesis by (metis and_exp_eq_0_iff_not_bit)
qed

end
