(* ===== verification/ReturnValues.thy ===== *)
theory ReturnValues
  imports CallbackRuns
begin

text \<open>
  The return value of a callback. \<open>ReturnValue\<close> stores an int32 in the frame when the trampoline supports it and
  calls the engine for everything else, after flushing what is pending. \<open>rvValue\<close> reads the value that
  JavaScript will see from the frame and the log of calls; the operations refine the assignment of a
  variable (\<open>trace_refinement\<close>).
\<close>

section \<open>The value a callback returns\<close>

text \<open>
  A return value as JavaScript sees it. \<open>rvSlot\<close> reads the log: what the last accepted setter call put
  into the slot \<open>rvw\<close>. The effective value is the pending integer when there is one, which the native
  trampoline stores after the dispatch.
\<close>

datatype jsReturn = JUndefined | JNull | JEmptyString | JBool bool | JInt32 "32 word" | JUint32 "32 word" | JDouble "64 word" | JValue uintptr

fun setterEffect :: "uintptr \<Rightarrow> call \<Rightarrow> jsReturn option" where
  "setterEffect rvw (Call t p (W r # args)) =
     (if r \<noteq> rvw then None
      else if p = ''gov8_rv_set_null'' then Some JNull
      else if p = ''gov8_rv_set_undefined'' then Some JUndefined
      else if p = ''gov8_rv_set_empty_string'' then Some JEmptyString
      else case args of
             [W v] \<Rightarrow>
               if p = ''gov8_rv_set'' then Some (JValue v)
               else if p = ''gov8_rv_set_int32'' then Some (JInt32 (ucast v))
               else if p = ''gov8_rv_set_uint32'' then Some (JUint32 (ucast v))
               else if p = ''gov8_rv_set_double'' then Some (JDouble v)
               else if p = ''gov8_rv_set_bool'' then Some (JBool (v \<noteq> 0))
               else None
           | _ \<Rightarrow> None)"
| "setterEffect rvw _ = None"

definition slotStep :: "engine \<Rightarrow> uintptr \<Rightarrow> call list \<Rightarrow> call \<Rightarrow> jsReturn \<Rightarrow> jsReturn" where
  "slotStep E rvw before c v =
     (case setterEffect rvw c of None \<Rightarrow> v | Some u \<Rightarrow> if sneg (r1 (E before c)) then v else u)"

definition rvSlot :: "engine \<Rightarrow> uintptr \<Rightarrow> call list \<Rightarrow> jsReturn" where
  "rvSlot E rvw cs = fst (fold (\<lambda>c (v, before). (slotStep E rvw before c v, before @ [c])) cs (JUndefined, []))"

lemma rvSlot_snoc [simp]: "rvSlot E rvw (cs @ [c]) = slotStep E rvw cs c (rvSlot E rvw cs)"
proof -
  have "snd (fold (\<lambda>c (v, before). (slotStep E rvw before c v, before @ [c])) cs (u, pre)) = pre @ cs" for u pre
    by (induction cs arbitrary: u pre) auto
  then show ?thesis by (simp add: rvSlot_def split_def)
qed

definition rvValue :: "engine \<Rightarrow> ref \<Rightarrow> hsys \<Rightarrow> jsReturn" where
  "rvValue E f x =
     (let fr = frames x f
      in if deferredInt32Capable fr \<and> fr_outIntercepted fr = callbackDeferredRVInt32 then JInt32 (fr_index fr)
         else rvSlot E (fr_rvWord fr) (calls (hworld x)))"

fun rv_spec :: "rv_op \<Rightarrow> jsReturn \<Rightarrow> jsReturn" where
  "rv_spec (RvSet v) _ = JValue (v_h v)"
| "rv_spec (RvInt32 n) _ = JInt32 n"
| "rv_spec (RvUint32 n) _ = JUint32 n"
| "rv_spec (RvFloat64 b) _ = JDouble b"
| "rv_spec (RvBool b) _ = JBool b"
| "rv_spec RvNull _ = JNull"
| "rv_spec RvUndefined _ = JUndefined"
| "rv_spec RvEmptyString _ = JEmptyString"
| "rv_spec RvGet u = u"

text \<open>A call that is no setter of the slot leaves the effective value alone.\<close>

lemma rvValue_logged:
  assumes "setterEffect (fr_rvWord (frames x f)) (Call t p args) = None"
  shows "rvValue E f (put_hworld (called t p args (hworld x)) x) = rvValue E f x"
  using assms by (simp add: rvValue_def Let_def slotStep_def)

text \<open>A setter call on a frame with nothing pending.\<close>

definition settled :: "ref \<Rightarrow> hsys \<Rightarrow> bool" where
  "settled f x \<longleftrightarrow> \<not> (deferredInt32Capable (frames x f) \<and> fr_outIntercepted (frames x f) = callbackDeferredRVInt32)"

lemma rvValue_setter:
  assumes "settled f x" "setterEffect (fr_rvWord (frames x f)) (Call t p args) = Some u"
    "hOnBase (unitCall E t oper p args) x = (r, y)"
  shows "rvValue E f y = (case r of Inl _ \<Rightarrow> rvValue E f x | Inr _ \<Rightarrow> u)"
  using assms by (auto simp: hOnBase_def lift_def unitCall_def callErr_eq Let_def rvValue_def slotStep_def settled_def split: if_splits)

lemma ucast_scast_32 [simp]: "(ucast (scast (v :: 32 word) :: 64 word) :: 32 word) = v"
  by (rule bit_word_eqI) (simp add: bit_simps)

lemma ucast_ucast_32 [simp]: "(ucast (ucast (v :: 32 word) :: 64 word) :: 32 word) = v"
  by (rule bit_word_eqI) (simp add: bit_simps)

lemma materialize_cases:
  assumes "materializeDeferredInt32 E t f (frames x f) x = (r, y)"
  shows "rvValue E f y = rvValue E f x \<and> fr_rvWord (frames y f) = fr_rvWord (frames x f) \<and> (r = Inr () \<longrightarrow> settled f y)"
  using assms
  by (auto simp: materializeDeferredInt32_def setInt32Native_def hOnBase_def lift_def unitCall_def callErr_eq upd_frame_def Let_def
      rvValue_def slotStep_def settled_def deferredInt32Capable_def callbackDeferredRVInt32_def callbackDeferredRVNone_def
      split: if_splits)


lemma settled_setter:
  assumes "materializeDeferredInt32 E t f (frames x f) x = (r0, y)" "r0 = Inr ()"
    and "hOnBase (unitCall E t oper p args) y = (r, z)"
    and "setterEffect (fr_rvWord (frames x f)) (Call t p args) = Some u"
  shows "rvValue E f z = (case r of Inl _ \<Rightarrow> rvValue E f x | Inr _ \<Rightarrow> u)"
  using materialize_cases [OF assms(1)] assms(2-4) rvValue_setter [of f y t p args u E oper r z]
  by (simp split: sum.split)

text \<open>The shape all setters but \<open>SetInt32\<close> have.\<close>

lemma rvValue_fixed:
  assumes "rv_frame rv = Some f"
    and "onReturnValue t rv (\<lambda>f fr x. andThen (materializeDeferredInt32 E t f fr x)
           (\<lambda>_. hOnBase (unitCall E t oper p (A fr)))) x = (r, y)"
    and "setterEffect (fr_rvWord (frames x f)) (Call t p (A (frames x f))) = Some u"
  shows "rvValue E f y = (case r of Inl _ \<Rightarrow> rvValue E f x | Inr _ \<Rightarrow> u)"
proof (cases "RV_checkedFrame t rv x = None \<and> f \<in> liveFrames x")
  case True
  obtain r0 z where m: "materializeDeferredInt32 E t f (frames x f) x = (r0, z)" by fastforce
  show ?thesis
  proof (cases r0)
    case (Inl e)
    with True m assms(1,2) materialize_cases [OF m] show ?thesis by (auto simp: onReturnValue_def readFrame_def guarded_def)
  next
    case (Inr v)
    with True m assms(1,2) have "hOnBase (unitCall E t oper p (A (frames x f))) z = (r, y)"
      by (auto simp: onReturnValue_def readFrame_def guarded_def)
    from settled_setter [OF m _ this assms(3)] Inr show ?thesis by simp
  qed
next
  case False
  with assms(1,2) show ?thesis by (auto simp: onReturnValue_def readFrame_def guarded_def split: option.splits if_splits)
qed

lemma setFixed_eq:
  "setFixed E t rv oper k v = onReturnValue t rv (\<lambda>f fr x. andThen (materializeDeferredInt32 E t f fr x)
     (\<lambda>_. hOnBase (unitCall E t oper (returnValueSetterName k)
        (if k \<in> {returnValueNull, returnValueUndefined, returnValueEmptyString} then [W (fr_rvWord fr)]
         else [W (fr_rvWord fr), W v]))))"
  by (simp add: setFixed_def)

lemma rvValue_setFixed:
  assumes "rv_frame rv = Some f" "setFixed E t rv oper k v x = (r, y)"
    and "setterEffect (fr_rvWord (frames x f)) (Call t (returnValueSetterName k)
      (if k \<in> {returnValueNull, returnValueUndefined, returnValueEmptyString} then [W (fr_rvWord (frames x f))]
       else [W (fr_rvWord (frames x f)), W v])) = Some u"
  shows "rvValue E f y = (case r of Inl _ \<Rightarrow> rvValue E f x | Inr _ \<Rightarrow> u)"
  by (rule rvValue_fixed [OF assms(1) assms(2) [unfolded setFixed_eq] assms(3)])

lemma rvValue_Get:
  assumes "rv_frame rv = Some f" "RV_Get E t rv x = (r, y)"
  shows "rvValue E f y = rvValue E f x"
proof (cases "RV_checkedFrame t rv x = None \<and> f \<in> liveFrames x")
  case True
  obtain r0 z where m: "materializeDeferredInt32 E t f (frames x f) x = (r0, z)" by fastforce
  note z = materialize_cases [OF m]
  have u: "rvValue E f (snd (wireOrUndefined E t (rv_cs rv) h q)) = rvValue E f q" for h q
    by (auto simp: wireOrUndefined_def onScope_def hOnBase_def lift_def Undefined_def constructPrimitive_def snd_guarded
      shim_eq Let_def rvValue_logged split: option.split)
  have "y = snd (RV_Get E t rv x)" using assms(2) by simp
  then show ?thesis using True m z assms(1)
    by (cases r0) (simp_all add: RV_Get_def onReturnValue_def readFrame_def guarded_def hOnBase_def lift_def callHandle_eq Let_def
        rvValue_logged u)
next
  case False
  with assms show ?thesis by (auto simp: RV_Get_def onReturnValue_def readFrame_def guarded_def split: option.splits if_splits)
qed

lemma rvValue_Int32:
  assumes "rv_frame rv = Some f" "SetInt32 E t rv n x = (r, y)"
  shows "rvValue E f y = (case r of Inl _ \<Rightarrow> rvValue E f x | Inr _ \<Rightarrow> JInt32 n)"
  using assms
  by (auto simp: SetInt32_def onReturnValue_def readFrame_def guarded_def setInt32Native_def hOnBase_def lift_def unitCall_def
      callErr_eq Let_def upd_frame_def rvValue_def slotStep_def deferredInt32Capable_def callbackDeferredRVInt32_def
      split: option.splits if_splits)

text \<open>Every operation does to the effective value what it says, and a refused one nothing.\<close>

lemma rv_call_value:
  assumes f: "rv_frame rv = Some f" and run: "rv_call E t rv a x = (r, y)"
  shows "rvValue E f y = (case r of Inl _ \<Rightarrow> rvValue E f x | Inr _ \<Rightarrow> rv_spec a (rvValue E f x))"
proof (cases a)
  case (RvSet v)
  show ?thesis
  proof (cases "Value_check t v (hworld x)")
    case None
    with run RvSet have "setFixed E t rv ''gov8_rv_set'' returnValueArbitrary (v_h v) x = (r, y)" by (simp add: RV_Set_def guarded_def)
    from rvValue_setFixed [OF f this] RvSet show ?thesis by (simp split: sum.split)
  qed (use run RvSet in \<open>auto simp: RV_Set_def guarded_def\<close>)
next
  case (RvInt32 n)
  with rvValue_Int32 [OF f, of E t n x r y] run show ?thesis by (simp split: sum.split)
next
  case (RvUint32 n)
  note run [unfolded RvUint32 rv_call.simps SetUint32_def]
  from rvValue_fixed [OF f this] RvUint32 show ?thesis by (simp split: sum.split)
next
  case RvGet
  then show ?thesis
    using run rvValue_Get [OF f] by (auto simp: voided_def andThen_def split: prod.splits sum.splits)
next
  case (RvFloat64 b)
  note run [unfolded RvFloat64 rv_call.simps SetFloat64_def]
  from rvValue_setFixed [OF f this] RvFloat64 show ?thesis by (simp split: sum.split)
next
  case (RvBool b)
  note run [unfolded RvBool rv_call.simps SetBool_def]
  from rvValue_setFixed [OF f this] RvBool show ?thesis by (cases b) (simp_all split: sum.split)
next
  case RvNull
  note run [unfolded RvNull rv_call.simps SetNull_def]
  from rvValue_setFixed [OF f this] RvNull show ?thesis by (simp split: sum.split)
next
  case RvUndefined
  note run [unfolded RvUndefined rv_call.simps SetUndefined_def]
  from rvValue_setFixed [OF f this] RvUndefined show ?thesis by (simp split: sum.split)
next
  case RvEmptyString
  note run [unfolded RvEmptyString rv_call.simps SetEmptyString_def]
  from rvValue_setFixed [OF f this] RvEmptyString show ?thesis by (simp split: sum.split)
qed

text \<open>A sequence of operations refines the assignment of a variable, the refused ones left out.\<close>

definition rv_step :: "engine \<Rightarrow> tid \<Rightarrow> ReturnValue \<Rightarrow> rv_op \<Rightarrow> hsys \<Rightarrow> (rv_op \<times> bool) list \<times> hsys" where
  "rv_step E t rv a x = (let (r, y) = rv_call E t rv a x in ([(a, \<not> isl r)], y))"

fun rv_accept :: "rv_op \<times> bool \<Rightarrow> jsReturn \<Rightarrow> jsReturn" where
  "rv_accept (a, ok) v = (if ok then rv_spec a v else v)"

interpretation return_value: trace_refinement "rv_step E t \<lparr>rv_cs = c, rv_frame = Some f\<rparr>" "\<lambda>e v. Some (rv_accept e v)"
    "rvValue E f" "\<lambda>_. True" for E t c f
proof
  fix x a
  obtain r y where "rv_call E t \<lparr>rv_cs = c, rv_frame = Some f\<rparr> a x = (r, y)" by fastforce
  from rv_call_value [OF _ this, of f] this
  show "replay (\<lambda>e v. Some (rv_accept e v)) (fst (rv_step E t \<lparr>rv_cs = c, rv_frame = Some f\<rparr> a x)) (rvValue E f x)
      = Some (rvValue E f (snd (rv_step E t \<lparr>rv_cs = c, rv_frame = Some f\<rparr> a x)))"
    by (cases r) (simp_all add: rv_step_def)
qed simp

lemma replay_total: "replay (\<lambda>e v. Some (g e v)) es v = Some (fold g es v)"
  by (induction es arbitrary: v) simp_all

end
