(* ===== verification/Allocator.thy ===== *)
theory Allocator
  imports Strings
begin

text \<open>
  Array-buffer allocators (\<open>src/array_buffer_allocator.go\<close>): the registry of callbacks with its
  one-entry cache, the loop that finds a free number, the dispatcher through which the engine asks
  and informs the embedder, and the allocator objects with Close, UseCount and cloneHandle.

  Entries of the registry are objects (\<open>aheap\<close>), because the cache and its compare-and-swap work on
  their addresses. Numbers are 64-bit words and wrap. The dispatcher runs on several threads at
  once; \<open>astep\<close> takes the operations apart into their atomic steps, and the interpretation
  \<open>allocator_registry\<close> shows that every interleaving of these steps behaves as a plain map.
\<close>

section \<open>State\<close>

record ArrayBufferAllocatorCallbacks =
  cb_Allocate :: "nat option"
  cb_AllocateUninitialized :: "nat option"
  cb_Free :: "nat option"
  cb_Drop :: "nat option"

record ArrayBufferAllocator =
  aa_handle :: uintptr
  aa_closed :: bool

record arrayBufferAllocatorEntry =
  ae_id :: "64 word"
  ae_callbacks :: ArrayBufferAllocatorCallbacks

text \<open>A callback that ran: the closure and its arguments.\<close>

datatype acall = Called nat "int list"

record asys =
  abase :: world
  anext :: "64 word"
  aentries :: "64 word \<rightharpoonup> ref"
  aactive :: "ref option"
  aheap :: "ref \<Rightarrow> arrayBufferAllocatorEntry"
  anextEntry :: nat
  allocators :: "ref \<Rightarrow> ArrayBufferAllocator"
  anextAllocator :: nat
  adispatcherErr :: "error option option"
  acalls :: "acall list"

type_synonym 'a aresult = "(error, 'a, asys) outcome"

definition aOnBase :: "(world \<Rightarrow> 'a result) \<Rightarrow> asys \<Rightarrow> 'a aresult" where
  [op_defs]: "aOnBase = lift abase (\<lambda>w x. x\<lparr>abase := w\<rparr>)"

section \<open>The registry and its cache\<close>

definition loadActive :: "64 word \<Rightarrow> asys \<Rightarrow> ref option" where
  [op_defs]: "loadActive n x = (case aactive x of None \<Rightarrow> None | Some p \<Rightarrow> if ae_id (aheap x p) = n then Some p else None)"

definition lookupLocked :: "64 word \<Rightarrow> asys \<Rightarrow> ref option \<times> asys" where
  [op_defs]: "lookupLocked n x =
     (let entry = aentries x n
      in (entry, if entry \<noteq> None then x\<lparr>aactive := entry\<rparr> else x))"

definition lookupArrayBufferAllocatorEntry :: "64 word \<Rightarrow> asys \<Rightarrow> ref option \<times> asys" where
  [op_defs]: "lookupArrayBufferAllocatorEntry n x =
     (case loadActive n x of Some p \<Rightarrow> (Some p, x) | None \<Rightarrow> lookupLocked n x)"

definition takeArrayBufferAllocatorEntry :: "64 word \<Rightarrow> asys \<Rightarrow> ref option \<times> asys" where
  [op_defs]: "takeArrayBufferAllocatorEntry n x =
     (case aentries x n of
        None \<Rightarrow> (None, x)
      | Some p \<Rightarrow> (Some p, x\<lparr>aentries := (aentries x)(n := None), aactive := if aactive x = Some p then None else aactive x\<rparr>))"

definition dropArrayBufferAllocatorRegistration :: "64 word \<Rightarrow> asys \<Rightarrow> asys" where
  [op_defs]: "dropArrayBufferAllocatorRegistration n x = snd (takeArrayBufferAllocatorEntry n x)"

definition storeEntry :: "64 word \<Rightarrow> ArrayBufferAllocatorCallbacks \<Rightarrow> asys \<Rightarrow> asys" where
  [op_defs]: "storeEntry n cb x =
     (let p = anextEntry x
      in x\<lparr>aheap := (aheap x)(p := \<lparr>ae_id = n, ae_callbacks = cb\<rparr>), anextEntry := Suc p,
           aentries := (aentries x)(n \<mapsto> p), aactive := Some p\<rparr>)"

text \<open>The loop of \<open>registerArrayBufferAllocator\<close>, with the number of attempts left.\<close>

fun registerLoop :: "nat \<Rightarrow> ArrayBufferAllocatorCallbacks \<Rightarrow> asys \<Rightarrow> (64 word) aresult" where
  "registerLoop 0 cb x = (Inl (Misuse ''ArrayBuffer allocator registry exhausted''), x)"
| "registerLoop (Suc k) cb x =
     (let x1 = x\<lparr>anext := anext x + 1\<rparr>; n = anext x1
      in if n \<noteq> 0 \<and> aentries x1 n = None then (Inr n, storeEntry n cb x1) else registerLoop k cb x1)"

definition registerArrayBufferAllocator :: "ArrayBufferAllocatorCallbacks \<Rightarrow> asys \<Rightarrow> (64 word) aresult" where
  [op_defs]: "registerArrayBufferAllocator = registerLoop (2 ^ 64 - 1)"

section \<open>The dispatcher\<close>

definition arrayBufferAllocatorAllocate :: uintptr where "arrayBufferAllocatorAllocate = 1"
definition arrayBufferAllocatorAllocateUninitialized :: uintptr where "arrayBufferAllocatorAllocateUninitialized = 2"
definition arrayBufferAllocatorFree :: uintptr where "arrayBufferAllocatorFree = 3"
definition arrayBufferAllocatorDrop :: uintptr where "arrayBufferAllocatorDrop = 4"

definition runCallback :: "nat option \<Rightarrow> int list \<Rightarrow> asys \<Rightarrow> asys" where
  [op_defs]: "runCallback c args x = (case c of None \<Rightarrow> x | Some f \<Rightarrow> x\<lparr>acalls := acalls x @ [Called f args]\<rparr>)"

text \<open>The answers of the embedder's Allocate callbacks are the parameter \<open>A\<close>. \<open>fatalHostMisuse\<close> ends
  the process; it is an error here.\<close>

definition arrayBufferAllocatorDispatcher ::
    "(nat \<Rightarrow> int \<Rightarrow> bool) \<Rightarrow> uintptr \<Rightarrow> uintptr \<Rightarrow> uintptr \<Rightarrow> uintptr \<Rightarrow> asys \<Rightarrow> uintptr aresult" where
  [op_defs]: "arrayBufferAllocatorDispatcher A n kindWord lengthWord firstWord x =
     (let (entry, x) = (if kindWord = arrayBufferAllocatorDrop then takeArrayBufferAllocatorEntry n x
                        else lookupArrayBufferAllocatorEntry n x)
      in case entry of
           None \<Rightarrow> (Inl (Misuse ''fatal: ArrayBuffer allocator callback for unknown registry ID''), x)
         | Some p \<Rightarrow>
             if unat lengthWord > maxInt then (Inl (Misuse ''fatal: ArrayBuffer allocator callback length exceeds Go int''), x)
             else
               let len = uint lengthWord; cbs = ae_callbacks (aheap x p);
                   ask = (\<lambda>c. (Inr (case c of None \<Rightarrow> 1 | Some f \<Rightarrow> if A f len then 1 else 0), runCallback c [len] x))
               in if kindWord = arrayBufferAllocatorAllocate then ask (cb_Allocate cbs)
                  else if kindWord = arrayBufferAllocatorAllocateUninitialized then ask (cb_AllocateUninitialized cbs)
                  else if kindWord = arrayBufferAllocatorFree
                    then (Inr 1, runCallback (cb_Free cbs) [len, uint (ucast firstWord :: 8 word)] x)
                  else if kindWord = arrayBufferAllocatorDrop then (Inr 1, runCallback (cb_Drop cbs) [] x)
                  else (Inl (Misuse ''fatal: invalid ArrayBuffer allocator callback kind''), x))"

definition installArrayBufferAllocatorDispatcher :: "engine \<Rightarrow> tid \<Rightarrow> uintptr \<Rightarrow> asys \<Rightarrow> unit aresult" where
  [op_defs]: "installArrayBufferAllocatorDispatcher E t d x =
     (case adispatcherErr x of
        Some None \<Rightarrow> (Inr (), x)
      | Some (Some e) \<Rightarrow> (Inl e, x)
      | None \<Rightarrow>
          (case aOnBase (callErr E t ''ArrayBufferAllocator.Dispatcher'' ''gov8_aba_set_dispatcher'' [W d]) x of
             (Inl e, x) \<Rightarrow> (Inl e, x\<lparr>adispatcherErr := Some (Some e)\<rparr>)
           | (Inr _, x) \<Rightarrow> (Inr (), x\<lparr>adispatcherErr := Some None\<rparr>)))"

section \<open>Allocators\<close>

definition newAllocator :: "uintptr \<Rightarrow> asys \<Rightarrow> ref aresult" where
  [op_defs]: "newAllocator h x =
     (let a = anextAllocator x
      in (Inr a, x\<lparr>allocators := (allocators x)(a := \<lparr>aa_handle = h, aa_closed = False\<rparr>), anextAllocator := Suc a\<rparr>))"

definition NewDefaultArrayBufferAllocator :: "engine \<Rightarrow> tid \<Rightarrow> asys \<Rightarrow> ref aresult" where
  [op_defs]: "NewDefaultArrayBufferAllocator E t x =
     guarded [loadShim (abase x)]
       (\<lambda>x. andThen (aOnBase (callHandle E t ''NewDefaultArrayBufferAllocator'' ''gov8_aba_new_default'' []) x) newAllocator) x"

definition NewArrayBufferAllocator :: "engine \<Rightarrow> tid \<Rightarrow> uintptr \<Rightarrow> ArrayBufferAllocatorCallbacks \<Rightarrow> asys \<Rightarrow> ref aresult" where
  [op_defs]: "NewArrayBufferAllocator E t d cb x =
     guarded [loadShim (abase x)]
       (\<lambda>x. andThen (installArrayBufferAllocatorDispatcher E t d x) (\<lambda>_ x.
            andThen (registerArrayBufferAllocator cb x) (\<lambda>n x.
              case aOnBase (callHandle E t ''NewArrayBufferAllocator'' ''gov8_aba_new_host'' [W n]) x of
                (Inl e, x) \<Rightarrow> (Inl e, dropArrayBufferAllocatorRegistration n x)
              | (Inr h, x) \<Rightarrow> newAllocator h x))) x"

definition allocator_check :: "ref option \<Rightarrow> string \<Rightarrow> asys \<Rightarrow> error option" where
  [check_defs]: "allocator_check ma msg x =
     (case ma of
        None \<Rightarrow> Some (Misuse ''nil ArrayBuffer allocator'')
      | Some a \<Rightarrow> fail_if (aa_closed (allocators x a) \<or> aa_handle (allocators x a) = 0) (Misuse msg))"

definition cloneHandle :: "engine \<Rightarrow> tid \<Rightarrow> ref option \<Rightarrow> asys \<Rightarrow> uintptr aresult" where
  [op_defs]: "cloneHandle E t ma x =
     guarded [allocator_check ma ''ArrayBuffer allocator used after Close'' x]
       (aOnBase (callHandle E t ''ArrayBufferAllocator.clone'' ''gov8_aba_clone'' [W (aa_handle (allocators x (the ma)))])) x"

definition UseCount :: "engine \<Rightarrow> tid \<Rightarrow> ref option \<Rightarrow> asys \<Rightarrow> int aresult" where
  [op_defs]: "UseCount E t ma x =
     guarded [allocator_check ma ''ArrayBuffer allocator used after Close'' x]
       (\<lambda>x. andThen (aOnBase (callErr E t ''ArrayBufferAllocator.UseCount'' ''gov8_aba_use_count'' [W (aa_handle (allocators x (the ma)))]) x)
             (\<lambda>r x. (Inr (sint (r1 r)), x))) x"

definition Allocator_Close :: "engine \<Rightarrow> tid \<Rightarrow> ref option \<Rightarrow> asys \<Rightarrow> unit aresult" where
  [op_defs]: "Allocator_Close E t ma x =
     guarded [fail_if (ma = None) (Misuse ''nil ArrayBuffer allocator''), loadShim (abase x),
              allocator_check ma ''ArrayBuffer allocator already closed'' x]
       (\<lambda>x. let a = the ma; h = aa_handle (allocators x a)
            in andThen (aOnBase (callErr E t ''ArrayBufferAllocator.Close'' ''gov8_aba_dispose'' [W h])
                   (x\<lparr>allocators := (allocators x)(a := \<lparr>aa_handle = 0, aa_closed = True\<rparr>)\<rparr>))
                 (\<lambda>_ x. (Inr (), x))) x"

section \<open>Atomic steps under concurrency\<close>

text \<open>
  V8 calls the dispatcher on several threads at once. The atomic steps of the registry are the load
  of the cache, the locked part of a look-up after a miss, the locked removal and the locked
  registration; a thread whose load has missed has the number it looks for in \<open>pending\<close>. Each
  completed operation is an event with its result.
\<close>

datatype aact =
    ALoad tid "64 word"
  | ALocked tid
  | ATake "64 word"
  | ARegister ArrayBufferAllocatorCallbacks

datatype aevent =
    Looked "64 word" "ArrayBufferAllocatorCallbacks option"
  | Taken "64 word" "ArrayBufferAllocatorCallbacks option"
  | Registered "64 word" ArrayBufferAllocatorCallbacks

record aconc =
  areg :: asys
  pending :: "tid \<Rightarrow> 64 word option"

definition callbacksAt :: "asys \<Rightarrow> ref option \<Rightarrow> ArrayBufferAllocatorCallbacks option" where
  "callbacksAt x mp = map_option (\<lambda>p. ae_callbacks (aheap x p)) mp"

fun astep :: "aact \<Rightarrow> aconc \<Rightarrow> aevent list \<times> aconc" where
  "astep (ALoad t n) c =
     (case loadActive n (areg c) of
        Some p \<Rightarrow> ([Looked n (callbacksAt (areg c) (Some p))], c)
      | None \<Rightarrow> ([], c\<lparr>pending := (pending c)(t := Some n)\<rparr>))"
| "astep (ALocked t) c =
     (case pending c t of
        None \<Rightarrow> ([], c)
      | Some n \<Rightarrow>
          let (mp, x) = lookupLocked n (areg c)
          in ([Looked n (callbacksAt x mp)], c\<lparr>areg := x, pending := (pending c)(t := None)\<rparr>))"
| "astep (ATake n) c =
     (let (mp, x) = takeArrayBufferAllocatorEntry n (areg c) in ([Taken n (callbacksAt x mp)], c\<lparr>areg := x\<rparr>))"
| "astep (ARegister cb) c =
     (case registerArrayBufferAllocator cb (areg c) of
        (Inr n, x) \<Rightarrow> ([Registered n cb], c\<lparr>areg := x\<rparr>)
      | (Inl _, x) \<Rightarrow> ([], c\<lparr>areg := x\<rparr>))"

text \<open>The specification: a map from numbers to callbacks, without a cache.\<close>

fun registry_accepts :: "aevent \<Rightarrow> (64 word \<rightharpoonup> ArrayBufferAllocatorCallbacks) \<Rightarrow> (64 word \<rightharpoonup> ArrayBufferAllocatorCallbacks) option" where
  "registry_accepts (Looked n r) m = (if r = m n then Some m else None)"
| "registry_accepts (Taken n r) m = (if r = m n then Some (m(n := None)) else None)"
| "registry_accepts (Registered n cb) m = (if n \<noteq> 0 \<and> m n = None then Some (m(n \<mapsto> cb)) else None)"

definition registry :: "aconc \<Rightarrow> 64 word \<rightharpoonup> ArrayBufferAllocatorCallbacks" where
  "registry c n = callbacksAt (areg c) (aentries (areg c) n)"

definition cache_ok :: "asys \<Rightarrow> bool" where
  "cache_ok x \<longleftrightarrow>
     (\<forall>p. aactive x = Some p \<longrightarrow> aentries x (ae_id (aheap x p)) = Some p)
     \<and> (\<forall>n p. aentries x n = Some p \<longrightarrow> ae_id (aheap x p) = n \<and> p < anextEntry x)"

section \<open>The registration loop\<close>

lemma registerLoop_cases:
  "(\<exists>j. 0 < j \<and> j \<le> k \<and> anext x + of_nat j \<noteq> 0 \<and> aentries x (anext x + of_nat j) = None
       \<and> registerLoop k cb x = (Inr (anext x + of_nat j), storeEntry (anext x + of_nat j) cb (x\<lparr>anext := anext x + of_nat j\<rparr>)))
   \<or> ((\<forall>j. 0 < j \<longrightarrow> j \<le> k \<longrightarrow> anext x + of_nat j = 0 \<or> aentries x (anext x + of_nat j) \<noteq> None)
      \<and> registerLoop k cb x = (Inl (Misuse ''ArrayBuffer allocator registry exhausted''), x\<lparr>anext := anext x + of_nat k\<rparr>))"
proof (induction k arbitrary: x)
  case (Suc k)
  let ?x = "x\<lparr>anext := anext x + 1\<rparr>"
  show ?case
  proof (cases "anext ?x \<noteq> 0 \<and> aentries x (anext ?x) = None")
    case True
    then show ?thesis by (intro disjI1 exI [of _ 1]) (simp add: Let_def)
  next
    case False
    from Suc.IH [of ?x] show ?thesis
    proof (elim disjE exE conjE)
      fix j assume "0 < j" "j \<le> k" "anext ?x + of_nat j \<noteq> 0" "aentries ?x (anext ?x + of_nat j) = None"
        "registerLoop k cb ?x = (Inr (anext ?x + of_nat j), storeEntry (anext ?x + of_nat j) cb (?x\<lparr>anext := anext ?x + of_nat j\<rparr>))"
      with False show ?thesis by (intro disjI1 exI [of _ "Suc j"]) (auto simp: add.assoc Let_def)
    next
      assume a: "\<forall>j. 0 < j \<longrightarrow> j \<le> k \<longrightarrow> anext ?x + of_nat j = 0 \<or> aentries ?x (anext ?x + of_nat j) \<noteq> None"
        and r: "registerLoop k cb ?x = (Inl (Misuse ''ArrayBuffer allocator registry exhausted''), ?x\<lparr>anext := anext ?x + of_nat k\<rparr>)"
      have "anext x + of_nat j = 0 \<or> aentries x (anext x + of_nat j) \<noteq> None" if "0 < j" "j \<le> Suc k" for j
        using that False a [rule_format, of "j - 1"] by (cases j; cases "j - 1") (auto simp: add.assoc)
      with False r show ?thesis by (intro disjI2) (auto simp: add.assoc Let_def)
    qed
  qed
qed simp


lemma register_cases:
  obtains n where "n \<noteq> 0" "n \<noteq> anext x" "aentries x n = None"
      "registerArrayBufferAllocator cb x = (Inr n, storeEntry n cb (x\<lparr>anext := n\<rparr>))"
  | "\<forall>n. n = 0 \<or> n = anext x \<or> aentries x n \<noteq> None"
      "registerArrayBufferAllocator cb x = (Inl (Misuse ''ArrayBuffer allocator registry exhausted''), x\<lparr>anext := anext x - 1\<rparr>)"
proof -
  have wrap: "of_nat (2 ^ 64 - 1) = (- 1 :: 64 word)" by simp
  from registerLoop_cases [of "2 ^ 64 - 1" x cb] consider
    (found) j where "0 < j" "j \<le> 2 ^ 64 - 1" "anext x + of_nat j \<noteq> 0" "aentries x (anext x + of_nat j) = None"
      "registerArrayBufferAllocator cb x = (Inr (anext x + of_nat j), storeEntry (anext x + of_nat j) cb (x\<lparr>anext := anext x + of_nat j\<rparr>))"
  | (full) "\<forall>j. 0 < j \<longrightarrow> j \<le> 2 ^ 64 - 1 \<longrightarrow> anext x + of_nat j = 0 \<or> aentries x (anext x + of_nat j) \<noteq> None"
      "registerArrayBufferAllocator cb x = (Inl (Misuse ''ArrayBuffer allocator registry exhausted''), x\<lparr>anext := anext x - 1\<rparr>)"
    unfolding registerArrayBufferAllocator_def wrap by fastforce
  then show thesis
  proof cases
    case found
    then have "of_nat j \<noteq> (0 :: 64 word)" by (auto simp: word_of_nat_eq_0_iff dest: nat_dvd_not_less)
    with found that(1) show thesis by simp
  next
    case full
    have "n = 0 \<or> n = anext x \<or> aentries x n \<noteq> None" for n
    proof (cases "n = anext x")
      case False
      let ?j = "unat (n - anext x)"
      have "0 < ?j" using False by (simp add: unat_gt_0)
      moreover have "?j < 2 ^ LENGTH(64)" by (rule unsigned_less)
      then have "?j \<le> 2 ^ 64 - 1" by simp
      moreover have "anext x + of_nat ?j = n" by simp
      ultimately show ?thesis using full(1) by metis
    qed simp
    with full(2) that(2) show thesis by blast
  qed
qed

section \<open>The cache is coherent\<close>

lemma cache_okI:
  assumes "\<And>p. aactive x = Some p \<Longrightarrow> aentries x (ae_id (aheap x p)) = Some p"
    and "\<And>n p. aentries x n = Some p \<Longrightarrow> ae_id (aheap x p) = n \<and> p < anextEntry x"
  shows "cache_ok x"
  using assms by (simp add: cache_ok_def)

lemma cache_okD:
  assumes "cache_ok x"
  shows "aactive x = Some p \<Longrightarrow> aentries x (ae_id (aheap x p)) = Some p"
    and "aentries x n = Some p \<Longrightarrow> ae_id (aheap x p) = n"
    and "aentries x n = Some p \<Longrightarrow> p < anextEntry x"
  using assms by (simp_all add: cache_ok_def)

lemma loadActive_hit: "cache_ok x \<Longrightarrow> loadActive n x = Some p \<Longrightarrow> aentries x n = Some p"
  by (auto simp: loadActive_def dest: cache_okD(1) split: option.splits if_splits)

lemma cache_ok_lookup: "cache_ok x \<Longrightarrow> cache_ok (snd (lookupLocked n x))"
  by (rule cache_okI) (simp_all add: lookupLocked_def Let_def cache_okD split: if_splits)

lemma cache_ok_take: "cache_ok x \<Longrightarrow> cache_ok (snd (takeArrayBufferAllocatorEntry n x))"
  using cache_okD(2) [of x n]
  by (intro cache_okI) (auto simp: takeArrayBufferAllocatorEntry_def cache_okD split: option.splits if_splits)

lemma cache_ok_store: "cache_ok x \<Longrightarrow> cache_ok (storeEntry n cb (x\<lparr>anext := m\<rparr>))"
  by (rule cache_okI) (auto simp: storeEntry_def Let_def cache_okD(2) less_Suc_eq dest: cache_okD(3) split: if_splits)

lemma cache_ok_next: "cache_ok (x\<lparr>anext := m\<rparr>) = cache_ok x"
  by (simp add: cache_ok_def)

lemma cache_ok_register: "cache_ok x \<Longrightarrow> cache_ok (snd (registerArrayBufferAllocator cb x))"
  by (rule register_cases [of x cb]) (simp_all add: cache_ok_store cache_ok_next)

lemma registry_store:
  "cache_ok (areg c) \<Longrightarrow> registry (c\<lparr>areg := storeEntry n cb ((areg c)\<lparr>anext := m\<rparr>)\<rparr>) = (registry c)(n \<mapsto> cb)"
  by (auto simp: registry_def callbacksAt_def storeEntry_def Let_def fun_eq_iff intro!: option.map_cong dest: cache_okD(3))

lemma registry_take:
  "registry (c\<lparr>areg := snd (takeArrayBufferAllocatorEntry n (areg c))\<rparr>) = (registry c)(n := None)"
  by (auto simp: registry_def callbacksAt_def takeArrayBufferAllocatorEntry_def fun_eq_iff split: option.split)

lemma taken: "fst (takeArrayBufferAllocatorEntry n x) = aentries x n"
  "aheap (snd (takeArrayBufferAllocatorEntry n x)) = aheap x"
  by (simp_all add: takeArrayBufferAllocatorEntry_def split: option.split)

lemma looked: "fst (lookupLocked n x) = aentries x n" "aheap (snd (lookupLocked n x)) = aheap x"
  "aentries (snd (lookupLocked n x)) = aentries x"
  by (simp_all add: lookupLocked_def Let_def)

lemma astep_inv: "cache_ok (areg c) \<Longrightarrow> cache_ok (areg (snd (astep a c)))"
proof (cases a)
  case (ALocked t)
  then show "cache_ok (areg c) \<Longrightarrow> ?thesis"
    by (auto simp: split_def Let_def cache_ok_lookup split: option.split)
next
  case (ARegister cb)
  then show "cache_ok (areg c) \<Longrightarrow> ?thesis"
    using cache_ok_register [of "areg c" cb] by (auto split: prod.split sum.split)
qed (auto simp: split_def Let_def cache_ok_take split: option.split)

lemma astep_accepted:
  assumes "cache_ok (areg c)"
  shows "replay registry_accepts (fst (astep a c)) (registry c) = Some (registry (snd (astep a c)))"
proof (cases a)
  case (ALoad t n)
  then show ?thesis using loadActive_hit [OF assms, of n]
    by (auto simp: registry_def fun_eq_iff split: option.split)
next
  case (ALocked t)
  then show ?thesis by (auto simp: split_def Let_def looked registry_def callbacksAt_def fun_eq_iff split: option.split)
next
  case (ATake n)
  then show ?thesis by (auto simp: split_def Let_def registry_take) (simp add: registry_def callbacksAt_def taken)
next
  case (ARegister cb)
  show ?thesis
    by (rule register_cases [of "areg c" cb])
      (auto simp: ARegister registry_store assms, auto simp: registry_def callbacksAt_def fun_eq_iff)
qed

interpretation allocator_registry: trace_refinement astep registry_accepts registry "\<lambda>c. cache_ok (areg c)"
  by unfold_locales (simp_all add: astep_inv astep_accepted)


definition aboot :: "world \<Rightarrow> asys" where
  "aboot w = \<lparr>abase = w, anext = 0, aentries = Map.empty, aactive = None,
     aheap = (\<lambda>_. \<lparr>ae_id = 0, ae_callbacks = \<lparr>cb_Allocate = None, cb_AllocateUninitialized = None, cb_Free = None, cb_Drop = None\<rparr>\<rparr>),
     anextEntry = 0, allocators = (\<lambda>_. \<lparr>aa_handle = 0, aa_closed = False\<rparr>), anextAllocator = 0,
     adispatcherErr = None, acalls = []\<rparr>"

lemma cache_ok_boot: "cache_ok (aboot w)"
  by (rule cache_okI) (simp_all add: aboot_def)

text \<open>The whole operations, one after another, keep the cache coherent too.\<close>

lemma cache_ok_other [simp]:
  "cache_ok (x\<lparr>abase := w\<rparr>) = cache_ok x" "cache_ok (x\<lparr>allocators := A\<rparr>) = cache_ok x"
  "cache_ok (x\<lparr>anextAllocator := k\<rparr>) = cache_ok x" "cache_ok (x\<lparr>adispatcherErr := d\<rparr>) = cache_ok x"
  "cache_ok (x\<lparr>acalls := l\<rparr>) = cache_ok x"
  by (simp_all add: cache_ok_def)

lemma cache_ok_entry:
  "cache_ok x \<Longrightarrow> cache_ok (snd (lookupArrayBufferAllocatorEntry n x))"
  by (simp add: lookupArrayBufferAllocatorEntry_def cache_ok_lookup split: option.split)

lemma cache_ok_runCallback: "cache_ok (runCallback c args x) = cache_ok x"
  by (simp add: runCallback_def split: option.split)

lemma cache_ok_dispatcher:
  assumes "cache_ok x"
  shows "cache_ok (snd (arrayBufferAllocatorDispatcher A n k l f x))"
proof -
  obtain mp y where y: "(if k = arrayBufferAllocatorDrop then takeArrayBufferAllocatorEntry n x
      else lookupArrayBufferAllocatorEntry n x) = (mp, y)" by fastforce
  have "cache_ok y" using y assms cache_ok_take [of x n] cache_ok_entry [of x n] by (auto split: if_splits)
  then show ?thesis unfolding arrayBufferAllocatorDispatcher_def y
    by (cases mp) (simp_all add: cache_ok_runCallback Let_def)
qed

lemma cache_ok_install: "cache_ok x \<Longrightarrow> cache_ok (snd (installArrayBufferAllocatorDispatcher E t d x))"
  by (simp add: installArrayBufferAllocatorDispatcher_def aOnBase_def lift_def split_def split: option.split sum.split)

lemma cache_ok_New:
  assumes "cache_ok x"
  shows "cache_ok (snd (NewArrayBufferAllocator E t d cb x))"
proof -
  have create: "cache_ok (snd (case aOnBase f y of (Inl e, z) \<Rightarrow> (Inl e, dropArrayBufferAllocatorRegistration n z)
      | (Inr h, z) \<Rightarrow> newAllocator h z))" if "cache_ok y" for f n y
    using that by (simp add: aOnBase_def lift_def dropArrayBufferAllocatorRegistration_def newAllocator_def cache_ok_take Let_def
      split: sum.split)
  have registered: "cache_ok (snd (andThen (registerArrayBufferAllocator cb y) (\<lambda>n z.
      case aOnBase (f n) z of (Inl e, z) \<Rightarrow> (Inl e, dropArrayBufferAllocatorRegistration n z) | (Inr h, z) \<Rightarrow> newAllocator h z)))"
    if "cache_ok y" for f y
    using cache_ok_register [OF that, of cb]
    by (cases "fst (registerArrayBufferAllocator cb y)") (simp_all add: snd_andThen create)
  show ?thesis using assms cache_ok_install [OF assms, of E t d]
    by (cases "fst (installArrayBufferAllocatorDispatcher E t d x)")
      (simp_all add: NewArrayBufferAllocator_def snd_guarded snd_andThen [of "installArrayBufferAllocatorDispatcher E t d x"] registered)
qed

end
