(* ===== verification/Buffers.thy ===== *)
theory Buffers
  imports Strings
begin

text \<open>
  The first part of buffer.go: backing stores with their deleters, ArrayBuffer and SharedArrayBuffer. A backing
  store is a counted reference that any goroutine may use and close; its methods are composed of the
  critical sections \<open>beginUse\<close>, \<open>endUse\<close>, \<open>closeBegin\<close>, \<open>closeAbandon\<close>, \<open>closePublish\<close>.
\<close>

section \<open>State\<close>

record BackingStore =
  b_iso :: ref
  b_handle :: uintptr
  b_arrayBufferAllocatorReference :: uintptr
  b_closed :: bool
  b_closing :: bool
  b_active :: int

record BackingStoreDeleterEntry =
  de_data :: uintptr
  de_byteLength :: int
  de_deleterData :: uintptr
  de_fn :: nat

text \<open>\<open>bdeleted\<close> logs the deleters that ran: the number in the registry and the entry found there.\<close>

record bsys =
  bbase :: world
  stores :: "ref \<Rightarrow> BackingStore"
  bnextStore :: nat
  dNext :: nat
  dEntries :: "nat \<rightharpoonup> BackingStoreDeleterEntry"
  deleterEntryErr :: "error option option"
  bdeleted :: "(nat \<times> BackingStoreDeleterEntry) list"

type_synonym 'a bresult = "(error, 'a, bsys) outcome"

definition bOnBase :: "(world \<Rightarrow> 'a result) \<Rightarrow> bsys \<Rightarrow> 'a bresult" where
  [op_defs]: "bOnBase = lift bbase (\<lambda>w x. x\<lparr>bbase := w\<rparr>)"

abbreviation upd_store :: "ref \<Rightarrow> (BackingStore \<Rightarrow> BackingStore) \<Rightarrow> bsys \<Rightarrow> bsys" where
  "upd_store b f x \<equiv> x\<lparr>stores := (stores x)(b := f (stores x b))\<rparr>"

definition newStore :: "ref \<Rightarrow> uintptr \<Rightarrow> uintptr \<Rightarrow> bsys \<Rightarrow> ref bresult" where
  [op_defs]: "newStore i h r x =
     (let b = bnextStore x
      in (Inr b, x\<lparr>stores := (stores x)(b := \<lparr>b_iso = i, b_handle = h, b_arrayBufferAllocatorReference = r,
                     b_closed = False, b_closing = False, b_active = 0\<rparr>), bnextStore := Suc b\<rparr>))"

section \<open>Validation\<close>

definition contextHandles :: "tid \<Rightarrow> ref option \<Rightarrow> ref option \<Rightarrow> string \<Rightarrow> world \<Rightarrow> error option" where
  [check_defs]: "contextHandles t ms mc oper w =
     (case ms of
        None \<Rightarrow> Some (Misuse (oper @ '' requires a scope''))
      | Some s \<Rightarrow>
          first_err [Scope_check t s w,
            (case mc of
               None \<Rightarrow> Some (Misuse (oper @ '' requires an entered context''))
             | Some c \<Rightarrow> first_err [fail_if (c_iso (contexts w c) \<noteq> s_iso (scopes w s)) (Foreign KContext), Context_check t c w])])"

definition scopeHandles :: "tid \<Rightarrow> ref option \<Rightarrow> world \<Rightarrow> (uintptr \<times> uintptr) result" where
  [op_defs]: "scopeHandles t ms w =
     (case ms of
        None \<Rightarrow> (Inl (Misuse ''panic: nil pointer dereference''), w)
      | Some s \<Rightarrow> guarded [Scope_check t s w]
          (\<lambda>w. andThen (handleChecked t (s_iso (scopes w s)) w) (\<lambda>ih w. (Inr (ih, s_handle (scopes w s)), w))) w)"

text \<open>The methods of a local value: the check, the handles, one call.\<close>

definition localMethod ::
    "engine \<Rightarrow> tid \<Rightarrow> string \<Rightarrow> string \<Rightarrow> Value \<Rightarrow> arg list \<Rightarrow> (resp \<Rightarrow> 'a) \<Rightarrow> world \<Rightarrow> 'a result" where
  [op_defs]: "localMethod E t oper p v args res w =
     guarded [Value_check t v w]
       (\<lambda>w. andThen (scopeHandles t (Some (v_sc v)) w) (\<lambda>(ih, sh) w.
            andThen (callErr E t oper p ([W ih, W sh, W (v_h v)] @ args) w) (\<lambda>r w. (Inr (res r), w)))) w"

definition out32 :: "resp \<Rightarrow> bool" where
  "out32 r \<longleftrightarrow> (ucast (out r 0) :: 32 word) = 1"

section \<open>Isolates and values\<close>

definition LowMemoryNotification :: "engine \<Rightarrow> tid \<Rightarrow> ref \<Rightarrow> world \<Rightarrow> unit result" where
  [op_defs]: "LowMemoryNotification E t i w =
     andThen (handleChecked t i w) (\<lambda>ih. unitCall E t ''LowMemoryNotification'' ''gov8_isolate_low_memory_notification'' [W ih])"

definition IsArrayBuffer :: "engine \<Rightarrow> tid \<Rightarrow> Value \<Rightarrow> world \<Rightarrow> bool result" where
  [op_defs]: "IsArrayBuffer E t v w = predicate E t ''gov8_is_array_buffer'' v w"

definition IsSharedArrayBuffer :: "engine \<Rightarrow> tid \<Rightarrow> Value \<Rightarrow> world \<Rightarrow> bool result" where
  [op_defs]: "IsSharedArrayBuffer E t v w = predicate E t ''gov8_is_shared_array_buffer'' v w"

definition IsArrayBufferView :: "engine \<Rightarrow> tid \<Rightarrow> Value \<Rightarrow> world \<Rightarrow> bool result" where
  [op_defs]: "IsArrayBufferView E t v w = predicate E t ''gov8_is_array_buffer_view'' v w"

definition IsTypedArray :: "engine \<Rightarrow> tid \<Rightarrow> Value \<Rightarrow> world \<Rightarrow> bool result" where
  [op_defs]: "IsTypedArray E t v w = predicate E t ''gov8_is_typed_array'' v w"

definition IsDataView :: "engine \<Rightarrow> tid \<Rightarrow> Value \<Rightarrow> world \<Rightarrow> bool result" where
  [op_defs]: "IsDataView E t v w = predicate E t ''gov8_is_data_view'' v w"

definition Same :: "engine \<Rightarrow> tid \<Rightarrow> Value \<Rightarrow> Value \<Rightarrow> world \<Rightarrow> bool result" where
  [op_defs]: "Same E t a b w =
     guarded [Value_check t a w, Value_check t b w,
              fail_if (v_iso a \<noteq> v_iso b \<or> s_iso (scopes w (v_sc a)) \<noteq> s_iso (scopes w (v_sc b))) (Foreign KValue)]
       (\<lambda>w. andThen (handleChecked t (v_iso a) w) (\<lambda>ih w.
            andThen (checkedHandle t (v_sc a) w) (\<lambda>_. boolCall E t ''Same'' ''gov8_value_same'' [W ih, W (v_h a), W (v_h b)]))) w"

section \<open>Backing stores\<close>

definition cloneArrayBufferAllocatorReference :: "engine \<Rightarrow> tid \<Rightarrow> uintptr \<Rightarrow> world \<Rightarrow> uintptr result" where
  [op_defs]: "cloneArrayBufferAllocatorReference E t r w =
     (if r = 0 then (Inr 0, w)
      else callHandle E t ''ArrayBufferAllocator.backing-store.clone'' ''gov8_aba_clone'' [W r] w)"

definition backingStore :: "engine \<Rightarrow> tid \<Rightarrow> ref \<Rightarrow> uintptr \<Rightarrow> bsys \<Rightarrow> ref bresult" where
  [op_defs]: "backingStore E t i h x =
     (case bOnBase (\<lambda>w. cloneArrayBufferAllocatorReference E t (i_arrayBufferAllocatorReference (isolates w i)) w) x of
        (Inl e, x) \<Rightarrow> (Inl e, x\<lparr>bbase := snd (shim E t ''gov8_backing_store_dispose'' [W h] (bbase x))\<rparr>)
      | (Inr r, x) \<Rightarrow> newStore i h r x)"

definition goBsDeleterDispatch :: "uintptr \<Rightarrow> bsys \<Rightarrow> bsys" where
  [op_defs]: "goBsDeleterDispatch hw x =
     (case dEntries x (unat hw) of
        None \<Rightarrow> x
      | Some e \<Rightarrow> x\<lparr>dEntries := (dEntries x)(unat hw := None), bdeleted := bdeleted x @ [(unat hw, e)]\<rparr>)"

definition installDeleterEntry :: "engine \<Rightarrow> tid \<Rightarrow> uintptr \<Rightarrow> bsys \<Rightarrow> unit bresult" where
  [op_defs]: "installDeleterEntry E t d x =
     (case deleterEntryErr x of
        Some None \<Rightarrow> (Inr (), x)
      | Some (Some e) \<Rightarrow> (Inl e, x)
      | None \<Rightarrow>
          (case bOnBase (callErr E t ''BufDeleterEntry'' ''gov8_buf_deleter_set_entry'' [W d]) x of
             (Inl e, x) \<Rightarrow> (Inl e, x\<lparr>deleterEntryErr := Some (Some e)\<rparr>)
           | (Inr _, x) \<Rightarrow> (Inr (), x\<lparr>deleterEntryErr := Some None\<rparr>)))"

definition NewBackingStore :: "engine \<Rightarrow> tid \<Rightarrow> ref \<Rightarrow> int \<Rightarrow> bsys \<Rightarrow> ref bresult" where
  [op_defs]: "NewBackingStore E t i n x =
     guarded [fail_if (n < 0) (Misuse ''negative backing store length''), Isolate_check t i (bbase x)]
       (\<lambda>x. let ih = i_handle (isolates (bbase x) i); r = i_arrayBufferAllocatorReference (isolates (bbase x) i)
            in andThen (bOnBase (callHandle E t ''NewBackingStore''
                   (if r \<noteq> 0 then ''gov8_aba_backing_store_new'' else ''gov8_backing_store_new'')
                   (if r \<noteq> 0 then [W ih, W (word_of_int n), W r] else [W ih, W (word_of_int n)])) x)
                 (\<lambda>h. if r \<noteq> 0 then newStore i h 0 else backingStore E t i h)) x"

definition storeFromSlice :: "engine \<Rightarrow> tid \<Rightarrow> string \<Rightarrow> string \<Rightarrow> ref \<Rightarrow> string \<Rightarrow> bsys \<Rightarrow> ref bresult" where
  [op_defs]: "storeFromSlice E t oper p i b x =
     guarded [Isolate_check t i (bbase x)]
       (\<lambda>x. andThen (bOnBase (\<lambda>w. callHandle E t oper p [W (i_handle (isolates w i)), Buf b] w) x) (\<lambda>h. newStore i h 0)) x"

definition NewBackingStoreFromSlice :: "engine \<Rightarrow> tid \<Rightarrow> ref \<Rightarrow> string \<Rightarrow> bsys \<Rightarrow> ref bresult" where
  [op_defs]: "NewBackingStoreFromSlice E t = storeFromSlice E t ''NewBackingStoreFromSlice'' ''gov8_backing_store_from_slice''"

text \<open>The registry number is taken before the engine is called and given back when it refuses.\<close>

definition storeFromPtr ::
    "engine \<Rightarrow> tid \<Rightarrow> uintptr \<Rightarrow> string \<Rightarrow> string \<Rightarrow> ref \<Rightarrow> uintptr \<Rightarrow> int \<Rightarrow> nat option \<Rightarrow> uintptr \<Rightarrow> bsys \<Rightarrow> ref bresult" where
  [op_defs]: "storeFromPtr E t d oper p i ptr n fn dd x =
     guarded [fail_if (n < 0) (Misuse ''negative backing store length''),
              fail_if (ptr = 0 \<and> n > 0) (Misuse ''nil data pointer with positive length''),
              fail_if (fn = None) (Misuse ''nil backing store deleter''), Isolate_check t i (bbase x)]
       (\<lambda>x. andThen (installDeleterEntry E t d x) (\<lambda>_ x.
            let k = Suc (dNext x);
                x1 = x\<lparr>dNext := k, dEntries := (dEntries x)(k \<mapsto>
                        \<lparr>de_data = ptr, de_byteLength = n, de_deleterData = dd, de_fn = the fn\<rparr>)\<rparr>
            in case bOnBase (\<lambda>w. callHandle E t oper p [W (i_handle (isolates w i)), W ptr, W (word_of_int n), W (of_nat k)] w) x1 of
                 (Inl e, x) \<Rightarrow> (Inl e, x\<lparr>dEntries := (dEntries x)(k := None)\<rparr>)
               | (Inr h, x) \<Rightarrow> newStore i h 0 x)) x"

definition NewBackingStoreFromPtr ::
    "engine \<Rightarrow> tid \<Rightarrow> uintptr \<Rightarrow> ref \<Rightarrow> uintptr \<Rightarrow> int \<Rightarrow> nat option \<Rightarrow> uintptr \<Rightarrow> bsys \<Rightarrow> ref bresult" where
  [op_defs]: "NewBackingStoreFromPtr E t d = storeFromPtr E t d ''NewBackingStoreFromPtr'' ''gov8_backing_store_from_ptr''"

definition NewSharedArrayBufferBackingStore :: "engine \<Rightarrow> tid \<Rightarrow> ref \<Rightarrow> int \<Rightarrow> bsys \<Rightarrow> ref bresult" where
  [op_defs]: "NewSharedArrayBufferBackingStore E t i n x =
     guarded [fail_if (n < 0) (Misuse ''negative backing store length''), Isolate_check t i (bbase x)]
       (\<lambda>x. andThen (bOnBase (\<lambda>w. callHandle E t ''NewSharedArrayBufferBackingStore'' ''gov8_sab_backing_store_new''
               [W (i_handle (isolates w i)), W (word_of_int n)] w) x) (backingStore E t i)) x"

definition NewSharedArrayBufferBackingStoreFromSlice :: "engine \<Rightarrow> tid \<Rightarrow> ref \<Rightarrow> string \<Rightarrow> bsys \<Rightarrow> ref bresult" where
  [op_defs]: "NewSharedArrayBufferBackingStoreFromSlice E t =
     storeFromSlice E t ''NewSharedArrayBufferBackingStoreFromSlice'' ''gov8_sab_backing_store_from_slice''"

definition NewSharedArrayBufferBackingStoreFromPtr ::
    "engine \<Rightarrow> tid \<Rightarrow> uintptr \<Rightarrow> ref \<Rightarrow> uintptr \<Rightarrow> int \<Rightarrow> nat option \<Rightarrow> uintptr \<Rightarrow> bsys \<Rightarrow> ref bresult" where
  [op_defs]: "NewSharedArrayBufferBackingStoreFromPtr E t d =
     storeFromPtr E t d ''NewSharedArrayBufferBackingStoreFromPtr'' ''gov8_sab_backing_store_from_ptr''"

text \<open>The critical sections around every use of a store. \<open>loadShim\<close> runs before the mutex is taken.\<close>

definition beginUse :: "ref option \<Rightarrow> bsys \<Rightarrow> uintptr bresult" where
  [op_defs]: "beginUse mb x =
     (case mb of
        None \<Rightarrow> (Inl (Misuse ''nil backing store''), x)
      | Some b \<Rightarrow>
          guarded [loadShim (bbase x),
                   fail_if (b_closed (stores x b) \<or> b_handle (stores x b) = 0) (Misuse ''backing store used after Close''),
                   fail_if (b_closing (stores x b)) (Misuse ''backing store Close is active'')]
            (\<lambda>x. (Inr (b_handle (stores x b)), upd_store b (\<lambda>q. q\<lparr>b_active := b_active q + 1\<rparr>) x)) x)"

definition endUse :: "ref \<Rightarrow> bsys \<Rightarrow> bsys" where
  [op_defs]: "endUse b x = upd_store b (\<lambda>q. q\<lparr>b_active := b_active q - 1\<rparr>) x"

definition useStore ::
    "engine \<Rightarrow> tid \<Rightarrow> ref option \<Rightarrow> string \<Rightarrow> string \<Rightarrow> (uintptr \<Rightarrow> arg list) \<Rightarrow> (resp \<Rightarrow> 'a) \<Rightarrow> bsys \<Rightarrow> 'a bresult" where
  [op_defs]: "useStore E t mb oper p args res x =
     andThen (beginUse mb x) (\<lambda>h x.
       let (r, x) = bOnBase (\<lambda>w. andThen (callErr E t oper p (args h) w) (\<lambda>r w. (Inr (res r), w))) x
       in (r, endUse (the mb) x))"

definition BS_ByteLength :: "engine \<Rightarrow> tid \<Rightarrow> ref option \<Rightarrow> bsys \<Rightarrow> int bresult" where
  [op_defs]: "BS_ByteLength E t mb =
     useStore E t mb ''BackingStore.ByteLength'' ''gov8_backing_store_byte_length'' (\<lambda>h. [W h]) (\<lambda>r. sint (r1 r))"

definition IsShared :: "engine \<Rightarrow> tid \<Rightarrow> ref option \<Rightarrow> bsys \<Rightarrow> bool bresult" where
  [op_defs]: "IsShared E t mb =
     useStore E t mb ''BackingStore.IsShared'' ''gov8_backing_store_is_shared'' (\<lambda>h. [W h]) (\<lambda>r. r1 r = 1)"

definition IsResizableByUserJavaScript :: "engine \<Rightarrow> tid \<Rightarrow> ref option \<Rightarrow> bsys \<Rightarrow> bool bresult" where
  [op_defs]: "IsResizableByUserJavaScript E t mb =
     useStore E t mb ''BackingStore.IsResizableByUserJavaScript'' ''gov8_backing_store_is_resizable'' (\<lambda>h. [W h]) (\<lambda>r. r1 r = 1)"

definition BS_UseCount :: "engine \<Rightarrow> tid \<Rightarrow> ref option \<Rightarrow> bsys \<Rightarrow> int bresult" where
  [op_defs]: "BS_UseCount E t mb =
     useStore E t mb ''BackingStore.UseCount'' ''gov8_backing_store_use_count'' (\<lambda>h. [W h]) (\<lambda>r. sint (r1 r))"

definition ReadAt :: "engine \<Rightarrow> tid \<Rightarrow> ref option \<Rightarrow> string \<Rightarrow> int \<Rightarrow> bsys \<Rightarrow> (int \<times> string) bresult" where
  [op_defs]: "ReadAt E t mb buf off x =
     guarded [fail_if (off < 0) (Misuse ''negative backing store read offset'')]
       (useStore E t mb ''BackingStore.ReadAt'' ''gov8_backing_store_read_at''
          (\<lambda>h. [W h, W (word_of_int off), OutBuf (int (length buf))]) (\<lambda>r. (sint (r1 r), overlay buf (data r)))) x"

definition WriteAt :: "engine \<Rightarrow> tid \<Rightarrow> ref option \<Rightarrow> string \<Rightarrow> int \<Rightarrow> bsys \<Rightarrow> int bresult" where
  [op_defs]: "WriteAt E t mb b off x =
     guarded [fail_if (off < 0) (Misuse ''negative backing store write offset'')]
       (useStore E t mb ''BackingStore.WriteAt'' ''gov8_backing_store_write_at''
          (\<lambda>h. [W h, W (word_of_int off), Buf b]) (\<lambda>r. sint (r1 r))) x"

text \<open>Close in its three parts: the claim under the mutex, the disposal, and the outcome under the mutex again.
  While the engine disposes of the store it may run a deleter; \<open>nested\<close> is what that does, and what
  other threads do meanwhile.\<close>

definition closeBegin :: "ref \<Rightarrow> bsys \<Rightarrow> uintptr bresult" where
  [op_defs]: "closeBegin b x =
     guarded [fail_if (b_closed (stores x b) \<or> b_handle (stores x b) = 0) (Misuse ''backing store already closed''),
              fail_if (b_closing (stores x b) \<or> b_active (stores x b) \<noteq> 0) (Misuse ''backing store is active'')]
       (\<lambda>x. (Inr (b_handle (stores x b)), upd_store b (\<lambda>q. q\<lparr>b_closing := True\<rparr>) x)) x"

definition closeAbandon :: "ref \<Rightarrow> bsys \<Rightarrow> bsys" where
  [op_defs]: "closeAbandon b x = upd_store b (\<lambda>q. q\<lparr>b_closing := False\<rparr>) x"

definition closePublish :: "ref \<Rightarrow> bsys \<Rightarrow> uintptr \<times> bsys" where
  [op_defs]: "closePublish b x =
     (b_arrayBufferAllocatorReference (stores x b),
      upd_store b (\<lambda>q. q\<lparr>b_closed := True, b_handle := 0, b_arrayBufferAllocatorReference := 0, b_closing := False\<rparr>) x)"

definition BS_Close :: "engine \<Rightarrow> tid \<Rightarrow> (bsys \<Rightarrow> bsys) \<Rightarrow> ref option \<Rightarrow> bsys \<Rightarrow> unit bresult" where
  [op_defs]: "BS_Close E t nested mb x =
     (case mb of
        None \<Rightarrow> (Inl (Misuse ''nil backing store''), x)
      | Some b \<Rightarrow>
          guarded [loadShim (bbase x)]
            (\<lambda>x. andThen (closeBegin b x) (\<lambda>h x.
                 let (r, w) = shim E t ''gov8_backing_store_dispose'' [W h] (bbase x); x = nested (x\<lparr>bbase := w\<rparr>)
                 in if sneg (r1 r) then (Inl (ShimError ''BackingStore.Close'' (r1 r)), closeAbandon b x)
                    else let (ref, x) = closePublish b x
                         in if ref = 0 then (Inr (), x)
                            else bOnBase (unitCall E t ''ArrayBufferAllocator.backing-store.Close'' ''gov8_aba_dispose'' [W ref]) x)) x)"

section \<open>ArrayBuffer\<close>

text \<open>The constructors share their tests.\<close>

definition bufferNew ::
    "engine \<Rightarrow> tid \<Rightarrow> string \<Rightarrow> string \<Rightarrow> ref option \<Rightarrow> ref option \<Rightarrow> arg list \<Rightarrow> world \<Rightarrow> Value result" where
  [op_defs]: "bufferNew E t oper p ms mc args w =
     guarded [contextHandles t ms mc oper w]
       (\<lambda>w. andThen (scopeHandles t ms w) (\<lambda>(ih, sh) w.
            localCall E t oper p ([W ih, W (c_handle (contexts w (the mc))), W sh] @ args @ [Out]) (s_iso (scopes w (the ms))) (the ms) w)) w"

definition NewArrayBuffer :: "engine \<Rightarrow> tid \<Rightarrow> ref option \<Rightarrow> ref option \<Rightarrow> int \<Rightarrow> world \<Rightarrow> Value result" where
  [op_defs]: "NewArrayBuffer E t ms mc n w =
     guarded [fail_if (n < 0) (Misuse ''negative ArrayBuffer length'')]
       (bufferNew E t ''NewArrayBuffer'' ''gov8_array_buffer_new'' ms mc [W (word_of_int n)]) w"

definition NewSharedArrayBuffer :: "engine \<Rightarrow> tid \<Rightarrow> ref option \<Rightarrow> ref option \<Rightarrow> int \<Rightarrow> world \<Rightarrow> Value result" where
  [op_defs]: "NewSharedArrayBuffer E t ms mc n w =
     guarded [fail_if (n < 0) (Misuse ''negative SharedArrayBuffer length'')]
       (bufferNew E t ''NewSharedArrayBuffer'' ''gov8_sab_new'' ms mc [W (word_of_int n)]) w"

definition bufferWithStore ::
    "engine \<Rightarrow> tid \<Rightarrow> string \<Rightarrow> string \<Rightarrow> ref option \<Rightarrow> ref option \<Rightarrow> ref option \<Rightarrow> bsys \<Rightarrow> Value bresult" where
  [op_defs]: "bufferWithStore E t oper p ms mc mb x =
     guarded [fail_if (mb = None) (Misuse ''nil backing store''), contextHandles t ms mc oper (bbase x)]
       (\<lambda>x. andThen (bOnBase (scopeHandles t ms) x) (\<lambda>(ih, sh) x.
            guarded [fail_if (s_iso (scopes (bbase x) (the ms)) \<noteq> b_iso (stores x (the mb))) (Misuse ''foreign isolate: backing store'')]
              (\<lambda>x. useStore E t mb oper p (\<lambda>h. [W ih, W (c_handle (contexts (bbase x) (the mc))), W sh, W h, Out])
                     (\<lambda>r. \<lparr>v_iso = s_iso (scopes (bbase x) (the ms)), v_sc = the ms, v_h = out r 0\<rparr>) x) x)) x"

definition NewArrayBufferWithBackingStore :: "engine \<Rightarrow> tid \<Rightarrow> ref option \<Rightarrow> ref option \<Rightarrow> ref option \<Rightarrow> bsys \<Rightarrow> Value bresult" where
  [op_defs]: "NewArrayBufferWithBackingStore E t =
     bufferWithStore E t ''NewArrayBufferWithBackingStore'' ''gov8_array_buffer_new_with_backing_store''"

definition NewSharedArrayBufferWithBackingStore :: "engine \<Rightarrow> tid \<Rightarrow> ref option \<Rightarrow> ref option \<Rightarrow> ref option \<Rightarrow> bsys \<Rightarrow> Value bresult" where
  [op_defs]: "NewSharedArrayBufferWithBackingStore E t =
     bufferWithStore E t ''NewSharedArrayBufferWithBackingStore'' ''gov8_sab_new_with_backing_store''"

text \<open>A value that passes the predicate is returned as it is.\<close>

definition asKind :: "(Value \<Rightarrow> world \<Rightarrow> bool result) \<Rightarrow> string \<Rightarrow> Value \<Rightarrow> world \<Rightarrow> Value result" where
  [op_defs]: "asKind is msg v w = andThen (is v w) (\<lambda>b w. if b then (Inr v, w) else (Inl (Misuse msg), w))"

definition AsArrayBuffer :: "engine \<Rightarrow> tid \<Rightarrow> Value \<Rightarrow> world \<Rightarrow> Value result" where
  [op_defs]: "AsArrayBuffer E t = asKind (IsArrayBuffer E t) ''value is not an ArrayBuffer''"

definition AsSharedArrayBuffer :: "engine \<Rightarrow> tid \<Rightarrow> Value \<Rightarrow> world \<Rightarrow> Value result" where
  [op_defs]: "AsSharedArrayBuffer E t = asKind (IsSharedArrayBuffer E t) ''value is not a SharedArrayBuffer''"

definition AsTypedArray :: "engine \<Rightarrow> tid \<Rightarrow> Value \<Rightarrow> world \<Rightarrow> Value result" where
  [op_defs]: "AsTypedArray E t = asKind (IsTypedArray E t) ''value is not a TypedArray''"

definition AsDataView :: "engine \<Rightarrow> tid \<Rightarrow> Value \<Rightarrow> world \<Rightarrow> Value result" where
  [op_defs]: "AsDataView E t = asKind (IsDataView E t) ''value is not a DataView''"

definition AB_ByteLength :: "engine \<Rightarrow> tid \<Rightarrow> Value \<Rightarrow> world \<Rightarrow> int result" where
  [op_defs]: "AB_ByteLength E t ab =
     localMethod E t ''ArrayBuffer.ByteLength'' ''gov8_array_buffer_byte_length'' ab [Out] (\<lambda>r. sint (out r 0))"

definition IsDetachable :: "engine \<Rightarrow> tid \<Rightarrow> Value \<Rightarrow> world \<Rightarrow> bool result" where
  [op_defs]: "IsDetachable E t ab =
     localMethod E t ''ArrayBuffer.IsDetachable'' ''gov8_array_buffer_is_detachable'' ab [Out] out32"

definition WasDetached :: "engine \<Rightarrow> tid \<Rightarrow> Value \<Rightarrow> world \<Rightarrow> bool result" where
  [op_defs]: "WasDetached E t ab w =
     andThen (AB_ByteLength E t ab w) (\<lambda>n w.
       if n \<noteq> 0 then (Inr False, w)
       else localMethod E t ''ArrayBuffer.WasDetached'' ''gov8_array_buffer_was_detached_raw'' ab [Out] out32 w)"

definition AB_Data :: "engine \<Rightarrow> tid \<Rightarrow> Value \<Rightarrow> world \<Rightarrow> (uintptr \<times> bool) result" where
  [op_defs]: "AB_Data E t ab =
     localMethod E t ''ArrayBuffer.Data'' ''gov8_array_buffer_data'' ab [] (\<lambda>r. (r1 r, r1 r \<noteq> 0))"

definition storeOf :: "engine \<Rightarrow> tid \<Rightarrow> string \<Rightarrow> string \<Rightarrow> Value \<Rightarrow> bsys \<Rightarrow> ref bresult" where
  [op_defs]: "storeOf E t oper p v x =
     andThen (bOnBase (localMethod E t oper p v [Out] (\<lambda>r. out r 0)) x) (\<lambda>h. backingStore E t (v_iso v) h)"

definition AB_GetBackingStore :: "engine \<Rightarrow> tid \<Rightarrow> Value \<Rightarrow> bsys \<Rightarrow> ref bresult" where
  [op_defs]: "AB_GetBackingStore E t = storeOf E t ''ArrayBuffer.GetBackingStore'' ''gov8_array_buffer_get_backing_store''"

definition Detach :: "engine \<Rightarrow> tid \<Rightarrow> Value \<Rightarrow> ref option \<Rightarrow> Value \<Rightarrow> world \<Rightarrow> bool result" where
  [op_defs]: "Detach E t ab mc key w =
     andThen (IsDetachable E t ab w) (\<lambda>det w.
       if \<not> det then (Inr True, w)
       else guarded [Value_check t ab w,
                     (case mc of
                        None \<Rightarrow> Some (Foreign KContext)
                      | Some c \<Rightarrow> first_err [fail_if (c_iso (contexts w c) \<noteq> v_iso ab) (Foreign KContext), Context_check t c w])]
              (\<lambda>w. andThen (scopeHandles t (Some (v_sc ab)) w) (\<lambda>(ih, sh) w.
                   andThen (callErr E t ''ArrayBuffer.Detach'' ''gov8_array_buffer_detach''
                      [W ih, W (c_handle (contexts w (the mc))), W 0, W sh, W (v_h ab), W (v_h key), Out] w)
                     (\<lambda>r w. (Inr (out32 r), w)))) w)"

definition SetDetachKey :: "engine \<Rightarrow> tid \<Rightarrow> Value \<Rightarrow> Value \<Rightarrow> world \<Rightarrow> unit result" where
  [op_defs]: "SetDetachKey E t ab key w =
     guarded [Value_check t ab w, Value_check t key w]
       (\<lambda>w. andThen (scopeHandles t (Some (v_sc ab)) w) (\<lambda>(ih, sh).
            unitCall E t ''ArrayBuffer.SetDetachKey'' ''gov8_array_buffer_set_detach_key'' [W ih, W sh, W (v_h ab), W (v_h key)])) w"

definition SAB_ByteLength :: "engine \<Rightarrow> tid \<Rightarrow> Value \<Rightarrow> world \<Rightarrow> int result" where
  [op_defs]: "SAB_ByteLength E t sab =
     localMethod E t ''SharedArrayBuffer.ByteLength'' ''gov8_sab_byte_length'' sab [Out] (\<lambda>r. sint (out r 0))"

definition SAB_GetBackingStore :: "engine \<Rightarrow> tid \<Rightarrow> Value \<Rightarrow> bsys \<Rightarrow> ref bresult" where
  [op_defs]: "SAB_GetBackingStore E t = storeOf E t ''SharedArrayBuffer.GetBackingStore'' ''gov8_sab_get_backing_store''"

end
