(* ===== verification/TypedArrays.thy ===== *)
theory TypedArrays
  imports Buffers
begin

text \<open>
  Views: the second part of buffer.go and typed_arrays.go. The twelve kinds with their sizes, names and
  predicates, the constructors, the readers of views and the limits. The lemmas say that the tables of
  kinds agree with one another and that the name of a kind identifies it.
\<close>

section \<open>Kinds\<close>

text \<open>A kind is a Go int64, so a value need not be one of the twelve constants.\<close>

type_synonym viewKind = int

definition viewUint8 :: viewKind where "viewUint8 = 0"
definition viewInt8 :: viewKind where "viewInt8 = 1"
definition viewUint16 :: viewKind where "viewUint16 = 2"
definition viewInt16 :: viewKind where "viewInt16 = 3"
definition viewUint32 :: viewKind where "viewUint32 = 4"
definition viewInt32 :: viewKind where "viewInt32 = 5"
definition viewFloat32 :: viewKind where "viewFloat32 = 6"
definition viewFloat64 :: viewKind where "viewFloat64 = 7"
definition viewBigInt64 :: viewKind where "viewBigInt64 = 8"
definition viewBigUint64 :: viewKind where "viewBigUint64 = 9"
definition viewUint8Clamped :: viewKind where "viewUint8Clamped = 10"
definition viewFloat16 :: viewKind where "viewFloat16 = 11"

lemmas kind_defs = viewUint8_def viewInt8_def viewUint16_def viewInt16_def viewUint32_def viewInt32_def viewFloat32_def
  viewFloat64_def viewBigInt64_def viewBigUint64_def viewUint8Clamped_def viewFloat16_def

definition viewElementSize :: "viewKind \<rightharpoonup> int" where
  "viewElementSize = map_of
     [(viewUint8, 1), (viewInt8, 1), (viewUint8Clamped, 1), (viewUint16, 2), (viewInt16, 2), (viewUint32, 4), (viewInt32, 4),
      (viewFloat32, 4), (viewFloat64, 8), (viewBigInt64, 8), (viewBigUint64, 8)]"

definition TypedArrayKinds :: "viewKind list" where
  "TypedArrayKinds =
     [viewInt8, viewUint8, viewUint8Clamped, viewInt16, viewUint16, viewInt32, viewUint32, viewFloat16, viewFloat32,
      viewFloat64, viewBigInt64, viewBigUint64]"

definition IsValid :: "viewKind \<Rightarrow> bool" where
  "IsValid k \<longleftrightarrow> k \<ge> 0 \<and> k \<le> viewFloat16"

definition ElementSize :: "viewKind \<Rightarrow> int" where
  "ElementSize k =
     (if k \<in> {viewUint8, viewInt8, viewUint8Clamped} then 1
      else if k \<in> {viewUint16, viewInt16, viewFloat16} then 2
      else if k \<in> {viewUint32, viewInt32, viewFloat32} then 4
      else if k \<in> {viewFloat64, viewBigInt64, viewBigUint64} then 8
      else 0)"

text \<open>Sprintf of an integer.\<close>

fun natDigits :: "nat \<Rightarrow> string" where
  "natDigits n = (if n < 10 then [char_of (48 + n)] else natDigits (n div 10) @ [char_of (48 + n mod 10)])"

declare natDigits.simps [simp del]

definition intString :: "int \<Rightarrow> string" where
  "intString n = (if n < 0 then ''-'' @ natDigits (nat (- n)) else natDigits (nat n))"

definition kindNames :: "(viewKind \<times> string) list" where
  "kindNames =
     [(viewUint8, ''Uint8Array''), (viewInt8, ''Int8Array''), (viewUint16, ''Uint16Array''), (viewInt16, ''Int16Array''),
      (viewUint32, ''Uint32Array''), (viewInt32, ''Int32Array''), (viewFloat16, ''Float16Array''), (viewFloat32, ''Float32Array''),
      (viewFloat64, ''Float64Array''), (viewBigInt64, ''BigInt64Array''), (viewBigUint64, ''BigUint64Array''),
      (viewUint8Clamped, ''Uint8ClampedArray'')]"

definition TypedArrayKind_String :: "viewKind \<Rightarrow> string" where
  "TypedArrayKind_String k =
     (case map_of kindNames k of Some s \<Rightarrow> s | None \<Rightarrow> ''TypedArray('' @ intString k @ '')'')"

definition kindPredicates :: "(viewKind \<times> string) list" where
  "kindPredicates =
     [(viewUint8, ''gov8_is_uint8_array''), (viewInt8, ''gov8_is_int8_array''), (viewUint16, ''gov8_is_uint16_array''),
      (viewInt16, ''gov8_is_int16_array''), (viewUint32, ''gov8_is_uint32_array''), (viewInt32, ''gov8_is_int32_array''),
      (viewFloat16, ''gov8_is_float16_array''), (viewFloat32, ''gov8_is_float32_array''), (viewFloat64, ''gov8_is_float64_array''),
      (viewBigInt64, ''gov8_is_big_int64_array''), (viewBigUint64, ''gov8_is_big_uint64_array''),
      (viewUint8Clamped, ''gov8_is_uint8_clamped_array'')]"

text \<open>An index past the array of names is a panic; \<open>IsValid\<close> excludes it.\<close>

definition IsTypedArrayOfKind :: "engine \<Rightarrow> tid \<Rightarrow> viewKind \<Rightarrow> Value \<Rightarrow> world \<Rightarrow> bool result" where
  [op_defs]: "IsTypedArrayOfKind E t k v w =
     guarded [fail_if (\<not> IsValid k) (Misuse ''unknown typed array kind'')]
       (\<lambda>w. case map_of kindPredicates k of
              None \<Rightarrow> (Inl (Misuse ''panic: index out of range''), w)
            | Some p \<Rightarrow> predicate E t p v w) w"

definition IsInt8Array :: "engine \<Rightarrow> tid \<Rightarrow> Value \<Rightarrow> world \<Rightarrow> bool result" where
  [op_defs]: "IsInt8Array E t v w = predicate E t ''gov8_is_int8_array'' v w"

definition IsUint8Array :: "engine \<Rightarrow> tid \<Rightarrow> Value \<Rightarrow> world \<Rightarrow> bool result" where
  [op_defs]: "IsUint8Array E t v w = predicate E t ''gov8_is_uint8_array'' v w"

definition IsUint8ClampedArray :: "engine \<Rightarrow> tid \<Rightarrow> Value \<Rightarrow> world \<Rightarrow> bool result" where
  [op_defs]: "IsUint8ClampedArray E t v w = predicate E t ''gov8_is_uint8_clamped_array'' v w"

definition IsInt16Array :: "engine \<Rightarrow> tid \<Rightarrow> Value \<Rightarrow> world \<Rightarrow> bool result" where
  [op_defs]: "IsInt16Array E t v w = predicate E t ''gov8_is_int16_array'' v w"

definition IsUint16Array :: "engine \<Rightarrow> tid \<Rightarrow> Value \<Rightarrow> world \<Rightarrow> bool result" where
  [op_defs]: "IsUint16Array E t v w = predicate E t ''gov8_is_uint16_array'' v w"

definition IsInt32Array :: "engine \<Rightarrow> tid \<Rightarrow> Value \<Rightarrow> world \<Rightarrow> bool result" where
  [op_defs]: "IsInt32Array E t v w = predicate E t ''gov8_is_int32_array'' v w"

definition IsUint32Array :: "engine \<Rightarrow> tid \<Rightarrow> Value \<Rightarrow> world \<Rightarrow> bool result" where
  [op_defs]: "IsUint32Array E t v w = predicate E t ''gov8_is_uint32_array'' v w"

definition IsFloat16Array :: "engine \<Rightarrow> tid \<Rightarrow> Value \<Rightarrow> world \<Rightarrow> bool result" where
  [op_defs]: "IsFloat16Array E t v w = predicate E t ''gov8_is_float16_array'' v w"

definition IsFloat32Array :: "engine \<Rightarrow> tid \<Rightarrow> Value \<Rightarrow> world \<Rightarrow> bool result" where
  [op_defs]: "IsFloat32Array E t v w = predicate E t ''gov8_is_float32_array'' v w"

definition IsFloat64Array :: "engine \<Rightarrow> tid \<Rightarrow> Value \<Rightarrow> world \<Rightarrow> bool result" where
  [op_defs]: "IsFloat64Array E t v w = predicate E t ''gov8_is_float64_array'' v w"

definition IsBigInt64Array :: "engine \<Rightarrow> tid \<Rightarrow> Value \<Rightarrow> world \<Rightarrow> bool result" where
  [op_defs]: "IsBigInt64Array E t v w = predicate E t ''gov8_is_big_int64_array'' v w"

definition IsBigUint64Array :: "engine \<Rightarrow> tid \<Rightarrow> Value \<Rightarrow> world \<Rightarrow> bool result" where
  [op_defs]: "IsBigUint64Array E t v w = predicate E t ''gov8_is_big_uint64_array'' v w"

section \<open>Construction\<close>

text \<open>The buffer may be nil. \<open>newTypedArray\<close> and \<open>NewDataView\<close> refuse a buffer of another isolate.\<close>

definition viewBuffer_check :: "tid \<Rightarrow> ref \<Rightarrow> Value option \<Rightarrow> world \<Rightarrow> error option" where
  [check_defs]: "viewBuffer_check t s mab w =
     (case mab of
        None \<Rightarrow> Some (Misuse ''nil ArrayBuffer'')
      | Some ab \<Rightarrow> first_err [Value_check t ab w, fail_if (v_iso ab \<noteq> s_iso (scopes w s)) (Foreign KValue)])"

definition viewNew ::
    "engine \<Rightarrow> tid \<Rightarrow> string \<Rightarrow> string \<Rightarrow> ref option \<Rightarrow> ref option \<Rightarrow> Value option \<Rightarrow> arg list \<Rightarrow> world \<Rightarrow> Value result" where
  [op_defs]: "viewNew E t oper p ms mc mab args w =
     guarded [contextHandles t ms mc oper w]
       (\<lambda>w. andThen (scopeHandles t ms w) (\<lambda>(ih, sh) w.
            guarded [viewBuffer_check t (the ms) mab w]
              (\<lambda>w. localCall E t oper p ([W ih, W (c_handle (contexts w (the mc))), W sh, W (v_h (the mab))] @ args @ [Out])
                     (s_iso (scopes w (the ms))) (the ms) w) w)) w"

definition newTypedArray ::
    "engine \<Rightarrow> tid \<Rightarrow> ref option \<Rightarrow> ref option \<Rightarrow> Value option \<Rightarrow> viewKind \<Rightarrow> int \<Rightarrow> int \<Rightarrow> world \<Rightarrow> Value result" where
  [op_defs]: "newTypedArray E t ms mc mab k off len =
     viewNew E t ''NewTypedArray'' ''gov8_typed_array_new'' ms mc mab [W (word_of_int k), W (word_of_int off), W (word_of_int len)]"

definition NewUint8Array :: "engine \<Rightarrow> tid \<Rightarrow> ref option \<Rightarrow> ref option \<Rightarrow> Value option \<Rightarrow> int \<Rightarrow> int \<Rightarrow> world \<Rightarrow> Value result" where
  [op_defs]: "NewUint8Array E t ms mc mab = newTypedArray E t ms mc mab viewUint8"

definition NewFloat64Array :: "engine \<Rightarrow> tid \<Rightarrow> ref option \<Rightarrow> ref option \<Rightarrow> Value option \<Rightarrow> int \<Rightarrow> int \<Rightarrow> world \<Rightarrow> Value result" where
  [op_defs]: "NewFloat64Array E t ms mc mab = newTypedArray E t ms mc mab viewFloat64"

definition NewBigInt64Array :: "engine \<Rightarrow> tid \<Rightarrow> ref option \<Rightarrow> ref option \<Rightarrow> Value option \<Rightarrow> int \<Rightarrow> int \<Rightarrow> world \<Rightarrow> Value result" where
  [op_defs]: "NewBigInt64Array E t ms mc mab = newTypedArray E t ms mc mab viewBigInt64"

definition NewDataView :: "engine \<Rightarrow> tid \<Rightarrow> ref option \<Rightarrow> ref option \<Rightarrow> Value option \<Rightarrow> int \<Rightarrow> int \<Rightarrow> world \<Rightarrow> Value result" where
  [op_defs]: "NewDataView E t ms mc mab off len =
     viewNew E t ''NewDataView'' ''gov8_data_view_new'' ms mc mab [W (word_of_int off), W (word_of_int len)]"

text \<open>This constructor tests the buffer but not its isolate.\<close>

definition NewTypedArrayOfKind ::
    "engine \<Rightarrow> tid \<Rightarrow> ref option \<Rightarrow> ref option \<Rightarrow> Value option \<Rightarrow> viewKind \<Rightarrow> int \<Rightarrow> int \<Rightarrow> world \<Rightarrow> Value result" where
  [op_defs]: "NewTypedArrayOfKind E t ms mc mab k off len w =
     guarded [fail_if (\<not> IsValid k) (Misuse ''unknown typed array kind''),
              fail_if (off < 0 \<or> len < 0) (Misuse ''negative view geometry'')]
       (\<lambda>w. andThen (scopeHandles t ms w) (\<lambda>(ih, sh) w.
            guarded [(case mab of None \<Rightarrow> Some (Misuse ''nil ArrayBuffer'') | Some ab \<Rightarrow> Value_check t ab w),
                     contextHandles t ms mc ''NewTypedArrayOfKind'' w]
              (\<lambda>w. localCall E t ''NewTypedArrayOfKind'' ''gov8_typed_array_new_kind''
                     [W ih, W (c_handle (contexts w (the mc))), W sh, W (v_h (the mab)), W (word_of_int k), W (word_of_int off),
                      W (word_of_int len), Out] (s_iso (scopes w (the ms))) (the ms) w) w)) w"

definition NewInt8Array :: "engine \<Rightarrow> tid \<Rightarrow> ref option \<Rightarrow> ref option \<Rightarrow> Value option \<Rightarrow> int \<Rightarrow> int \<Rightarrow> world \<Rightarrow> Value result" where
  [op_defs]: "NewInt8Array E t ms mc mab = NewTypedArrayOfKind E t ms mc mab viewInt8"

definition NewUint8ClampedArray :: "engine \<Rightarrow> tid \<Rightarrow> ref option \<Rightarrow> ref option \<Rightarrow> Value option \<Rightarrow> int \<Rightarrow> int \<Rightarrow> world \<Rightarrow> Value result" where
  [op_defs]: "NewUint8ClampedArray E t ms mc mab = NewTypedArrayOfKind E t ms mc mab viewUint8Clamped"

definition NewInt16Array :: "engine \<Rightarrow> tid \<Rightarrow> ref option \<Rightarrow> ref option \<Rightarrow> Value option \<Rightarrow> int \<Rightarrow> int \<Rightarrow> world \<Rightarrow> Value result" where
  [op_defs]: "NewInt16Array E t ms mc mab = NewTypedArrayOfKind E t ms mc mab viewInt16"

definition NewUint16Array :: "engine \<Rightarrow> tid \<Rightarrow> ref option \<Rightarrow> ref option \<Rightarrow> Value option \<Rightarrow> int \<Rightarrow> int \<Rightarrow> world \<Rightarrow> Value result" where
  [op_defs]: "NewUint16Array E t ms mc mab = NewTypedArrayOfKind E t ms mc mab viewUint16"

definition NewInt32Array :: "engine \<Rightarrow> tid \<Rightarrow> ref option \<Rightarrow> ref option \<Rightarrow> Value option \<Rightarrow> int \<Rightarrow> int \<Rightarrow> world \<Rightarrow> Value result" where
  [op_defs]: "NewInt32Array E t ms mc mab = NewTypedArrayOfKind E t ms mc mab viewInt32"

definition NewUint32Array :: "engine \<Rightarrow> tid \<Rightarrow> ref option \<Rightarrow> ref option \<Rightarrow> Value option \<Rightarrow> int \<Rightarrow> int \<Rightarrow> world \<Rightarrow> Value result" where
  [op_defs]: "NewUint32Array E t ms mc mab = NewTypedArrayOfKind E t ms mc mab viewUint32"

definition NewFloat16Array :: "engine \<Rightarrow> tid \<Rightarrow> ref option \<Rightarrow> ref option \<Rightarrow> Value option \<Rightarrow> int \<Rightarrow> int \<Rightarrow> world \<Rightarrow> Value result" where
  [op_defs]: "NewFloat16Array E t ms mc mab = NewTypedArrayOfKind E t ms mc mab viewFloat16"

definition NewFloat32Array :: "engine \<Rightarrow> tid \<Rightarrow> ref option \<Rightarrow> ref option \<Rightarrow> Value option \<Rightarrow> int \<Rightarrow> int \<Rightarrow> world \<Rightarrow> Value result" where
  [op_defs]: "NewFloat32Array E t ms mc mab = NewTypedArrayOfKind E t ms mc mab viewFloat32"

definition NewBigUint64Array :: "engine \<Rightarrow> tid \<Rightarrow> ref option \<Rightarrow> ref option \<Rightarrow> Value option \<Rightarrow> int \<Rightarrow> int \<Rightarrow> world \<Rightarrow> Value result" where
  [op_defs]: "NewBigUint64Array E t ms mc mab = NewTypedArrayOfKind E t ms mc mab viewBigUint64"

section \<open>Reading views\<close>

text \<open>Typed arrays and DataViews are values; the methods of the two differ in their names only.\<close>

definition TA_Length :: "engine \<Rightarrow> tid \<Rightarrow> Value \<Rightarrow> world \<Rightarrow> int result" where
  [op_defs]: "TA_Length E t v = localMethod E t ''TypedArray.Length'' ''gov8_typed_array_length'' v [Out] (\<lambda>r. sint (out r 0))"

definition byteOffsetOf :: "engine \<Rightarrow> tid \<Rightarrow> string \<Rightarrow> Value \<Rightarrow> world \<Rightarrow> int result" where
  [op_defs]: "byteOffsetOf E t p v = localMethod E t p p v [Out] (\<lambda>r. sint (out r 0))"

definition View_ByteOffset :: "engine \<Rightarrow> tid \<Rightarrow> Value \<Rightarrow> world \<Rightarrow> int result" where
  [op_defs]: "View_ByteOffset E t = byteOffsetOf E t ''gov8_view_byte_offset''"

definition byteLengthOf :: "engine \<Rightarrow> tid \<Rightarrow> string \<Rightarrow> Value \<Rightarrow> world \<Rightarrow> int result" where
  [op_defs]: "byteLengthOf E t p v = localMethod E t p p v [Out] (\<lambda>r. sint (out r 0))"

definition View_ByteLength :: "engine \<Rightarrow> tid \<Rightarrow> Value \<Rightarrow> world \<Rightarrow> int result" where
  [op_defs]: "View_ByteLength E t = byteLengthOf E t ''gov8_view_byte_length''"

definition hasBuffer :: "engine \<Rightarrow> tid \<Rightarrow> Value \<Rightarrow> world \<Rightarrow> bool result" where
  [op_defs]: "hasBuffer E t v = localMethod E t ''view.HasBuffer'' ''gov8_view_has_buffer'' v [Out] out32"

definition bufferOf :: "engine \<Rightarrow> tid \<Rightarrow> Value \<Rightarrow> world \<Rightarrow> Value result" where
  [op_defs]: "bufferOf E t v =
     localMethod E t ''view.Buffer'' ''gov8_view_buffer'' v [Out] (\<lambda>r. \<lparr>v_iso = v_iso v, v_sc = v_sc v, v_h = out r 0\<rparr>)"

definition copyContents :: "engine \<Rightarrow> tid \<Rightarrow> string \<Rightarrow> Value \<Rightarrow> string \<Rightarrow> world \<Rightarrow> (int \<times> string) result" where
  [op_defs]: "copyContents E t oper v dst =
     localMethod E t oper ''gov8_view_copy_contents'' v [OutBuf (int (length dst))] (\<lambda>r. (sint (r1 r), overlay dst (data r)))"

definition TA_CopyContents :: "engine \<Rightarrow> tid \<Rightarrow> Value \<Rightarrow> string \<Rightarrow> world \<Rightarrow> (int \<times> string) result" where
  [op_defs]: "TA_CopyContents E t = copyContents E t ''TypedArray.CopyContents''"

definition DV_CopyContents :: "engine \<Rightarrow> tid \<Rightarrow> Value \<Rightarrow> string \<Rightarrow> world \<Rightarrow> (int \<times> string) result" where
  [op_defs]: "DV_CopyContents E t = copyContents E t ''DataView.CopyContents''"

definition viewDatum :: "engine \<Rightarrow> tid \<Rightarrow> Value \<Rightarrow> world \<Rightarrow> (uintptr \<times> bool) result" where
  [op_defs]: "viewDatum E t v = localMethod E t ''view.Data'' ''gov8_view_data'' v [] (\<lambda>r. (r1 r, r1 r \<noteq> 0))"

definition viewBackingStore :: "engine \<Rightarrow> tid \<Rightarrow> Value \<Rightarrow> bsys \<Rightarrow> ref bresult" where
  [op_defs]: "viewBackingStore E t = storeOf E t ''view.GetBackingStore'' ''gov8_view_get_backing_store''"

record ViewContents =
  vc_Length :: int
  vc_Source :: uintptr

definition SourceIsData :: "ViewContents \<Rightarrow> uintptr \<Rightarrow> bool" where
  "SourceIsData vc d \<longleftrightarrow> vc_Source vc \<noteq> 0 \<and> vc_Source vc = d"

definition viewGetContents :: "engine \<Rightarrow> tid \<Rightarrow> Value \<Rightarrow> string \<Rightarrow> world \<Rightarrow> (ViewContents \<times> string) result" where
  [op_defs]: "viewGetContents E t v storage =
     localMethod E t ''view.GetContents'' ''gov8_view_get_contents'' v [OutBuf (int (length storage)), Out, Out]
       (\<lambda>r. (\<lparr>vc_Length = sint (out r 0), vc_Source = out r 1\<rparr>, overlay storage (data r)))"

section \<open>Limits\<close>

record TypedArrayKindLimits =
  tl_MaxLengths :: "viewKind \<rightharpoonup> int"
  tl_MaxByteLength :: int
  tl_MaxSizeInHeap :: int

text \<open>The shim writes the twelve lengths first, then the two single limits.\<close>

definition TypedArrayKindLimitsQuery :: "engine \<Rightarrow> tid \<Rightarrow> world \<Rightarrow> TypedArrayKindLimits result" where
  [op_defs]: "TypedArrayKindLimitsQuery E t w =
     andThen (callErr E t ''TypedArrayKindLimits'' ''gov8_typed_array_limits_all'' (replicate 14 Out) w)
       (\<lambda>r w. (Inr \<lparr>tl_MaxLengths = map_of (zip TypedArrayKinds (map (\<lambda>i. sint (out r i)) [0..<12])),
                    tl_MaxByteLength = sint (out r 12), tl_MaxSizeInHeap = sint (out r 13)\<rparr>, w))"

record TypedArrayLimits =
  ta_MaxByteLength :: int
  ta_Uint8MaxLength :: int
  ta_Float64MaxLength :: int
  ta_BigInt64MaxLength :: int
  ta_MaxSizeInHeap :: int

definition TypedArrayLimitsQuery :: "engine \<Rightarrow> tid \<Rightarrow> world \<Rightarrow> TypedArrayLimits result" where
  [op_defs]: "TypedArrayLimitsQuery E t w =
     andThen (callErr E t ''TypedArrayLimits'' ''gov8_typed_array_limits'' (replicate 5 Out) w)
       (\<lambda>r w. (Inr \<lparr>ta_MaxByteLength = sint (out r 0), ta_Uint8MaxLength = sint (out r 1), ta_Float64MaxLength = sint (out r 2),
                    ta_BigInt64MaxLength = sint (out r 3), ta_MaxSizeInHeap = sint (out r 4)\<rparr>, w))"

section \<open>The kinds, checked\<close>

lemma IsValid_iff: "IsValid k \<longleftrightarrow> k \<in> {0, 1, 2, 3, 4, 5, 6, 7, 8, 9, 10, 11}"
  unfolding IsValid_def viewFloat16_def by simp presburger

lemma kinds_set: "set TypedArrayKinds = {k. IsValid k}"
  unfolding TypedArrayKinds_def IsValid_iff kind_defs by auto

lemma kinds_distinct: "distinct TypedArrayKinds" "length TypedArrayKinds = 12"
  by (simp_all add: TypedArrayKinds_def kind_defs)

lemma IsValid_ElementSize: "IsValid k \<longleftrightarrow> ElementSize k \<noteq> 0"
  unfolding IsValid_iff ElementSize_def kind_defs by auto

lemma kind_tables:
  "distinct (map fst kindNames)" "distinct (map snd kindNames)" "set (map fst kindNames) = {k. IsValid k}"
  "distinct (map fst kindPredicates)" "distinct (map snd kindPredicates)" "set (map fst kindPredicates) = {k. IsValid k}"
  by (auto simp: kindNames_def kindPredicates_def kind_defs IsValid_iff)

section \<open>Names of kinds\<close>

definition digitsValue :: "string \<Rightarrow> nat" where
  "digitsValue s = foldl (\<lambda>a c. 10 * a + (of_char c - 48)) 0 s"

lemma natDigits_value: "digitsValue (natDigits n) = n"
proof (induction n rule: natDigits.induct)
  case (1 n)
  have "of_char (char_of (48 + k) :: char) - 48 = k" if "k < 10" for k :: nat using that by (simp add: of_char_of)
  moreover have "digitsValue (natDigits n) = (if n < 10 then of_char (char_of (48 + n) :: char) - 48
      else 10 * digitsValue (natDigits (n div 10)) + (of_char (char_of (48 + n mod 10) :: char) - 48))"
    by (subst natDigits.simps) (simp add: digitsValue_def)
  ultimately show ?case using 1 by simp
qed

lemma natDigits_digits: "\<forall>c \<in> set (natDigits n). c \<noteq> CHR ''-''"
proof (induction n rule: natDigits.induct)
  case (1 n)
  have "(char_of (48 + k) :: char) \<noteq> CHR ''-''" if "k < 10" for k :: nat
  proof
    assume "char_of (48 + k) = CHR ''-''"
    then have "of_char (char_of (48 + k) :: char) = (of_char (CHR ''-'') :: nat)" by simp
    with that show False by (simp add: of_char_of)
  qed
  then show ?case using 1 by (subst natDigits.simps) auto
qed

lemma natDigits_ne: "natDigits n \<noteq> []"
  by (subst natDigits.simps) simp

lemma intString_inj: "intString m = intString n \<Longrightarrow> m = n"
proof -
  have neq: "''-'' @ natDigits k \<noteq> natDigits l" for k l
    using natDigits_digits [of l] by (metis append_Cons list.set_intros(1))
  have inj: "k = l" if "natDigits k = natDigits l" for k l using that natDigits_value by metis
  show "intString m = intString n \<Longrightarrow> m = n"
    using neq neq [symmetric] inj [of "nat (- m)" "nat (- n)"] inj [of "nat m" "nat n"]
    by (auto simp: intString_def split: if_splits)
qed

lemma map_of_inj:
  assumes "distinct (map snd xs)" "map_of xs k = Some p" "map_of xs l = Some p"
  shows "k = l"
  using assms(1) map_of_SomeD [OF assms(2)] map_of_SomeD [OF assms(3)]
  by (metis (no_types, lifting) distinct_map inj_onD prod.inject snd_conv)

lemma names_plain: "\<forall>s \<in> set (map snd kindNames). take 11 s \<noteq> ''TypedArray(''"
  by (simp add: kindNames_def)

lemma kindNames_dom: "map_of kindNames k = None \<longleftrightarrow> \<not> IsValid k"
  using kind_tables(3) by (auto simp: map_of_eq_None_iff)

lemma TypedArrayKind_String_inj: "TypedArrayKind_String k = TypedArrayKind_String l \<Longrightarrow> k = l"
proof -
  assume eq: "TypedArrayKind_String k = TypedArrayKind_String l"
  have plain: "s \<noteq> ''TypedArray('' @ r" if "map_of kindNames j = Some s" for j s r
    using names_plain map_of_SomeD [OF that] by force
  show "k = l"
  proof (cases "map_of kindNames k"; cases "map_of kindNames l")
    fix s u assume "map_of kindNames k = Some s" "map_of kindNames l = Some u"
    then show ?thesis using eq map_of_inj [OF kind_tables(2)] by (auto simp: TypedArrayKind_String_def)
  next
    assume "map_of kindNames k = None" "map_of kindNames l = None"
    then show ?thesis using eq intString_inj by (auto simp: TypedArrayKind_String_def)
  qed (use eq plain in \<open>auto simp: TypedArrayKind_String_def\<close>)
qed

end
