(* ===== verification/Stores.thy ===== *)
theory Stores
  imports TypedArrays
begin

text \<open>
  Proofs about backing stores. \<open>bstep\<close> interleaves the critical sections of any number of goroutines; its
  invariant gives that no call reaches the engine with a disposed store. \<open>buf_exec\<close> is the sequential
  system, with the calls made while a store is closed nested in Close; the locale \<open>buffer_evolution\<close> carries
  a relation through all of it.
\<close>

section \<open>Stores shared between goroutines\<close>

text \<open>
  A backing store may be used and closed by any goroutine. Its methods are taken apart at the mutex: a
  goroutine that passed \<open>beginUse\<close> calls the engine any number of times and leaves through \<open>endUse\<close>;
  one that passed \<open>closeBegin\<close> disposes of the store, and then publishes the result or gives up. The log records
  the calls of the engine on stores.
\<close>

datatype bpc = BIdle | Using ref uintptr | Disposing ref uintptr | AbandoningClose ref | PublishingClose ref

datatype bevent = Used (ev_store: ref) (ev_handle: uintptr) | Disposed (ev_store: ref) (ev_handle: uintptr) bool

record bconc =
  bst :: bsys
  bpcs :: "nat \<Rightarrow> bpc"
  blog :: "bevent list"

inductive bstep :: "bconc \<Rightarrow> bconc \<Rightarrow> bool" where
  create: "newStore i h r (bst c) = (Inr b, x) \<Longrightarrow> bstep c (c\<lparr>bst := x\<rparr>)"
| begin_use: "bpcs c g = BIdle \<Longrightarrow> beginUse (Some b) (bst c) = (Inr h, x) \<Longrightarrow>
    bstep c (c\<lparr>bst := x, bpcs := (bpcs c)(g := Using b h)\<rparr>)"
| engine_call: "bpcs c g = Using b h \<Longrightarrow> bstep c (c\<lparr>blog := blog c @ [Used b h]\<rparr>)"
| end_use: "bpcs c g = Using b h \<Longrightarrow> bstep c (c\<lparr>bst := endUse b (bst c), bpcs := (bpcs c)(g := BIdle)\<rparr>)"
| begin_close: "bpcs c g = BIdle \<Longrightarrow> closeBegin b (bst c) = (Inr h, x) \<Longrightarrow>
    bstep c (c\<lparr>bst := x, bpcs := (bpcs c)(g := Disposing b h)\<rparr>)"
| dispose: "bpcs c g = Disposing b h \<Longrightarrow>
    bstep c (c\<lparr>bpcs := (bpcs c)(g := if ok then PublishingClose b else AbandoningClose b), blog := blog c @ [Disposed b h ok]\<rparr>)"
| abandon: "bpcs c g = AbandoningClose b \<Longrightarrow> bstep c (c\<lparr>bst := closeAbandon b (bst c), bpcs := (bpcs c)(g := BIdle)\<rparr>)"
| publish: "bpcs c g = PublishingClose b \<Longrightarrow> bstep c (c\<lparr>bst := snd (closePublish b (bst c)), bpcs := (bpcs c)(g := BIdle)\<rparr>)"
| elsewhere: "stores x = stores (bst c) \<Longrightarrow> bnextStore x = bnextStore (bst c) \<Longrightarrow> bstep c (c\<lparr>bst := x\<rparr>)"

text \<open>Before the first store is made, every wrapper is closed.\<close>

definition binit :: "bconc \<Rightarrow> bool" where
  "binit c \<longleftrightarrow> (\<forall>b. b_closed (stores (bst c) b) \<and> \<not> b_closing (stores (bst c) b) \<and> b_active (stores (bst c) b) = 0)
     \<and> bpcs c = (\<lambda>_. BIdle) \<and> blog c = [] \<and> bnextStore (bst c) = 0"

definition users :: "(nat \<Rightarrow> bpc) \<Rightarrow> ref \<Rightarrow> nat set" where
  "users P b = {g. \<exists>h. P g = Using b h}"

definition closers :: "(nat \<Rightarrow> bpc) \<Rightarrow> ref \<Rightarrow> nat set" where
  "closers P b = {g. (\<exists>h. P g = Disposing b h) \<or> P g = AbandoningClose b \<or> P g = PublishingClose b}"

text \<open>What a store and the goroutines at it have to do with one another.\<close>

definition store_ok :: "BackingStore \<Rightarrow> (nat \<Rightarrow> bpc) \<Rightarrow> ref \<Rightarrow> bool" where
  "store_ok q P b \<longleftrightarrow>
     finite (users P b) \<and> b_active q = int (card (users P b))
     \<and> (b_closing q \<longleftrightarrow> closers P b \<noteq> {}) \<and> (\<forall>g g'. g \<in> closers P b \<longrightarrow> g' \<in> closers P b \<longrightarrow> g = g')
     \<and> (b_closing q \<longrightarrow> users P b = {}) \<and> (b_closed q \<longrightarrow> users P b = {} \<and> closers P b = {})
     \<and> (\<forall>g h. P g = Using b h \<or> P g = Disposing b h \<longrightarrow> h = b_handle q)"

text \<open>What the log holds of a store: no call after an accepted disposal, and one handle throughout.\<close>

definition released :: "ref \<Rightarrow> bevent list \<Rightarrow> bool" where
  "released b es \<longleftrightarrow> (\<exists>h. Disposed b h True \<in> set es)"

definition clean :: "ref \<Rightarrow> bevent list \<Rightarrow> bool" where
  "clean b es \<longleftrightarrow> (\<forall>xs h ys. es = xs @ Disposed b h True # ys \<longrightarrow> (\<forall>e \<in> set ys. ev_store e \<noteq> b))"

definition one_handle :: "ref \<Rightarrow> uintptr \<Rightarrow> bevent list \<Rightarrow> bool" where
  "one_handle b h es \<longleftrightarrow> (\<forall>e \<in> set es. ev_store e = b \<longrightarrow> ev_handle e = h)"

definition log_ok :: "BackingStore \<Rightarrow> (nat \<Rightarrow> bpc) \<Rightarrow> ref \<Rightarrow> bevent list \<Rightarrow> bool" where
  "log_ok q P b es \<longleftrightarrow>
     (released b es \<longrightarrow> b_closed q \<or> (\<exists>g. P g = PublishingClose b)) \<and> clean b es
     \<and> (\<exists>h. one_handle b h es \<and> (b_closed q \<or> h = b_handle q))"

lemma clean_snoc: "clean b (es @ [e]) \<longleftrightarrow> clean b es \<and> (ev_store e = b \<longrightarrow> \<not> released b es)"
proof
  assume c: "clean b (es @ [e])"
  have "clean b es" unfolding clean_def
  proof (intro allI impI)
    fix xs h ys assume "es = xs @ Disposed b h True # ys"
    then have "es @ [e] = xs @ Disposed b h True # (ys @ [e])" by simp
    with c have "\<forall>e' \<in> set (ys @ [e]). ev_store e' \<noteq> b" unfolding clean_def by blast
    then show "\<forall>e' \<in> set ys. ev_store e' \<noteq> b" by simp
  qed
  moreover have "\<not> released b es" if "ev_store e = b"
  proof
    assume "released b es"
    then obtain xs h ys where "es = xs @ Disposed b h True # ys" by (auto simp: released_def in_set_conv_decomp)
    then have "es @ [e] = xs @ Disposed b h True # (ys @ [e])" by simp
    with c have "\<forall>e' \<in> set (ys @ [e]). ev_store e' \<noteq> b" unfolding clean_def by blast
    with that show False by simp
  qed
  ultimately show "clean b es \<and> (ev_store e = b \<longrightarrow> \<not> released b es)" by blast
next
  assume c: "clean b es \<and> (ev_store e = b \<longrightarrow> \<not> released b es)"
  show "clean b (es @ [e])" unfolding clean_def
  proof (intro allI impI)
    fix xs h ys assume s: "es @ [e] = xs @ Disposed b h True # ys"
    show "\<forall>e' \<in> set ys. ev_store e' \<noteq> b"
    proof (cases ys rule: rev_cases)
      case (snoc zs z)
      with s have "es = xs @ Disposed b h True # zs" "z = e" by simp_all
      with c snoc show ?thesis unfolding clean_def released_def by fastforce
    qed simp
  qed
qed

lemma users_upd: "users (P(g := p)) b = (if \<exists>h. p = Using b h then insert g (users P b) else users P b - {g})"
  by (auto simp: users_def)

lemma closers_upd:
  "closers (P(g := p)) b =
     (if (\<exists>h. p = Disposing b h) \<or> p = AbandoningClose b \<or> p = PublishingClose b then insert g (closers P b) else closers P b - {g})"
  by (auto simp: closers_def)

lemma usersI: "P g = Using b h \<Longrightarrow> g \<in> users P b" by (auto simp: users_def)

lemma closersI:
  "P g = Disposing b h \<Longrightarrow> g \<in> closers P b" "P g = AbandoningClose b \<Longrightarrow> g \<in> closers P b" "P g = PublishingClose b \<Longrightarrow> g \<in> closers P b"
  by (auto simp: closers_def)

lemma idle_nowhere: "P g = BIdle \<Longrightarrow> g \<notin> users P b" "P g = BIdle \<Longrightarrow> g \<notin> closers P b"
  by (auto simp: users_def closers_def)

definition binv :: "bconc \<Rightarrow> bool" where
  "binv c \<longleftrightarrow>
     (\<forall>b. store_ok (stores (bst c) b) (bpcs c) b \<and> log_ok (stores (bst c) b) (bpcs c) b (blog c))
     \<and> (\<forall>b \<ge> bnextStore (bst c). b_closed (stores (bst c) b) \<and> (\<forall>e \<in> set (blog c). ev_store e \<noteq> b))"

primrec at_store :: "bpc \<Rightarrow> ref option" where
  "at_store BIdle = None"
| "at_store (Using b h) = Some b"
| "at_store (Disposing b h) = Some b"
| "at_store (AbandoningClose b) = Some b"
| "at_store (PublishingClose b) = Some b"

text \<open>A goroutine that enters, leaves or stays at one store does not matter for the others.\<close>

lemma store_ok_other:
  assumes "store_ok q P b'" "b' \<noteq> b" "at_store (P g) \<in> {None, Some b}" "at_store p \<in> {None, Some b}"
  shows "store_ok q (P(g := p)) b'"
proof -
  have u: "users (P(g := p)) b' = users P b'" using assms(2-4) by (cases p; cases "P g") (auto simp: users_upd users_def)
  have c: "closers (P(g := p)) b' = closers P b'" using assms(2-4) by (cases p; cases "P g") (auto simp: closers_upd closers_def)
  have "P g' = Using b' h \<or> P g' = Disposing b' h" if "(P(g := p)) g' = Using b' h \<or> (P(g := p)) g' = Disposing b' h" for g' h
    using that assms(2,4) by (cases "g' = g") auto
  then show ?thesis using assms(1) unfolding store_ok_def u c by blast
qed

lemma log_ok_other:
  assumes "log_ok q P b' es" "b' \<noteq> b" "at_store (P g) \<in> {None, Some b}" "at_store p \<in> {None, Some b}" "\<forall>e \<in> set fs. ev_store e = b" "length fs \<le> 1"
  shows "log_ok q (P(g := p)) b' (es @ fs)"
proof -
  have "(\<exists>g'. (P(g := p)) g' = PublishingClose b') \<longleftrightarrow> (\<exists>g'. P g' = PublishingClose b')" using assms(2-4) by (metis at_store.simps(1,5) fun_upd_apply insertE option.distinct(1) option.sel singletonD)
  moreover have "released b' (es @ fs) \<longleftrightarrow> released b' es" using assms(2,5) by (auto simp: released_def)
  moreover have "clean b' (es @ fs) \<longleftrightarrow> clean b' es" using assms(2,5,6) by (cases fs) (auto simp: clean_snoc)
  moreover have "one_handle b' h (es @ fs) \<longleftrightarrow> one_handle b' h es" for h using assms(2,5) by (auto simp: one_handle_def)
  ultimately show ?thesis using assms(1) by (simp add: log_ok_def)
qed

text \<open>The store itself, step by step.\<close>

lemma not_released:
  assumes "store_ok q P b" "log_ok q P b es" "P g = Using b h \<or> P g = Disposing b h"
  shows "\<not> released b es" "\<not> b_closed q"
proof -
  have c: "\<not> b_closed q" using assms(1,3) usersI [of P g b h] closersI(1) [of P g b h] unfolding store_ok_def by auto
  then show "\<not> b_closed q" .
  have "P g' \<noteq> PublishingClose b" for g'
  proof
    assume p: "P g' = PublishingClose b"
    from assms(3) show False
    proof
      assume "P g = Using b h"
      with usersI [of P g b h] closersI(3) [of P g' b] p assms(1) show False unfolding store_ok_def by auto
    next
      assume "P g = Disposing b h"
      with closersI(1) [of P g b h] closersI(3) [of P g' b] p assms(1) have "g = g'" unfolding store_ok_def by blast
      with p \<open>P g = Disposing b h\<close> show False by simp
    qed
  qed
  with c assms(2) show "\<not> released b es" by (auto simp: log_ok_def)
qed

lemma no_publisher: "store_ok q P b \<Longrightarrow> \<not> b_closing q \<Longrightarrow> P g \<noteq> PublishingClose b"
  using closersI(3) [of P g b] by (auto simp: store_ok_def)

lemma begin_use_ok:
  assumes ok: "store_ok q P b" "log_ok q P b es" and "P g = BIdle" "\<not> b_closed q" "\<not> b_closing q"
  shows "store_ok (q\<lparr>b_active := b_active q + 1\<rparr>) (P(g := Using b (b_handle q))) b
    \<and> log_ok (q\<lparr>b_active := b_active q + 1\<rparr>) (P(g := Using b (b_handle q))) b es"
proof -
  have "g \<notin> users P b" "g \<notin> closers P b" using assms(3) by (rule idle_nowhere)+
  with assms no_publisher [OF ok(1)] show ?thesis by (auto simp: store_ok_def log_ok_def users_upd closers_upd)
qed

lemma end_use_ok:
  assumes ok: "store_ok q P b" "log_ok q P b es" and "P g = Using b h"
  shows "store_ok (q\<lparr>b_active := b_active q - 1\<rparr>) (P(g := BIdle)) b \<and> log_ok (q\<lparr>b_active := b_active q - 1\<rparr>) (P(g := BIdle)) b es"
proof -
  have g: "g \<in> users P b" "g \<notin> closers P b" using assms(3) by (auto simp: users_def closers_def)
  have n: "\<not> b_closing q" "\<not> b_closed q" "finite (users P b)" using ok(1) g unfolding store_ok_def by auto
  have "int (card (users P b - {g})) = int (card (users P b)) - 1"
    using g(1) n(3) by (metis card.remove of_nat_Suc add_diff_cancel_left' plus_1_eq_Suc)
  with ok g n no_publisher [OF ok(1) n(1)] show ?thesis
    by (auto simp: store_ok_def log_ok_def users_upd closers_upd split: if_splits)
qed

lemma begin_close_ok:
  assumes ok: "store_ok q P b" "log_ok q P b es" and "P g = BIdle" "\<not> b_closed q" "\<not> b_closing q" "b_active q = 0"
  shows "store_ok (q\<lparr>b_closing := True\<rparr>) (P(g := Disposing b (b_handle q))) b
    \<and> log_ok (q\<lparr>b_closing := True\<rparr>) (P(g := Disposing b (b_handle q))) b es"
proof -
  have e: "users P b = {}" "closers P b = {}" using assms unfolding store_ok_def by auto
  with assms no_publisher [OF ok(1)] show ?thesis by (auto simp: store_ok_def log_ok_def users_upd closers_upd)
qed

lemma engine_call_ok:
  assumes ok: "store_ok q P b" "log_ok q P b es" and "P g = Using b h"
  shows "log_ok q P b (es @ [Used b h])"
proof -
  have "h = b_handle q" using ok(1) assms(3) by (auto simp: store_ok_def)
  with not_released [OF ok, of g h] assms show ?thesis
    by (auto simp: log_ok_def clean_snoc released_def one_handle_def)
qed

lemma dispose_ok:
  assumes ok: "store_ok q P b" "log_ok q P b es" and "P g = Disposing b h"
  shows "store_ok q (P(g := if k then PublishingClose b else AbandoningClose b)) b
    \<and> log_ok q (P(g := if k then PublishingClose b else AbandoningClose b)) b (es @ [Disposed b h k])"
proof -
  have g: "g \<in> closers P b" "g \<notin> users P b" using assms(3) by (auto simp: users_def closers_def)
  have h: "h = b_handle q" using ok(1) assms(3) by (auto simp: store_ok_def)
  have n: "\<not> released b es" "\<not> b_closed q" using not_released [OF ok, of g h] assms(3) by auto
  have "closers (P(g := if k then PublishingClose b else AbandoningClose b)) b = closers P b"
    "users (P(g := if k then PublishingClose b else AbandoningClose b)) b = users P b"
    using g by (auto simp: closers_upd users_upd)
  then have "store_ok q (P(g := if k then PublishingClose b else AbandoningClose b)) b"
    using ok(1) unfolding store_ok_def by auto
  moreover have "log_ok q (P(g := if k then PublishingClose b else AbandoningClose b)) b (es @ [Disposed b h k])"
    using ok(2) n h by (auto simp: log_ok_def clean_snoc released_def one_handle_def)
  ultimately show ?thesis ..
qed

lemma abandon_ok:
  assumes ok: "store_ok q P b" "log_ok q P b es" and "P g = AbandoningClose b"
  shows "store_ok (q\<lparr>b_closing := False\<rparr>) (P(g := BIdle)) b \<and> log_ok (q\<lparr>b_closing := False\<rparr>) (P(g := BIdle)) b es"
proof -
  have g: "g \<in> closers P b" "g \<notin> users P b" using assms(3) by (auto simp: users_def closers_def)
  then have c: "closers P b = {g}" "users P b = {}" "\<not> b_closed q" using ok(1) unfolding store_ok_def by auto
  have "P g' \<noteq> PublishingClose b" for g' using closersI(3) [of P g' b] c(1) assms(3) by auto
  then show ?thesis using ok g c by (auto simp: store_ok_def log_ok_def users_upd closers_upd split: if_splits)
qed

lemma publish_ok:
  assumes ok: "store_ok q P b" "log_ok q P b es" and "P g = PublishingClose b"
  shows "store_ok (q\<lparr>b_closed := True, b_handle := 0, b_arrayBufferAllocatorReference := 0, b_closing := False\<rparr>) (P(g := BIdle)) b
    \<and> log_ok (q\<lparr>b_closed := True, b_handle := 0, b_arrayBufferAllocatorReference := 0, b_closing := False\<rparr>) (P(g := BIdle)) b es"
proof -
  have g: "g \<in> closers P b" "g \<notin> users P b" using assms(3) by (auto simp: users_def closers_def)
  then have c: "closers P b = {g}" "users P b = {}" using ok(1) unfolding store_ok_def by auto
  have "(P(g := BIdle)) g' \<noteq> Using b h \<and> (P(g := BIdle)) g' \<noteq> Disposing b h" for g' h
    using c closersI(1) [of P g' b h] usersI [of P g' b h] by (cases "g' = g") auto
  then show ?thesis using ok g c by (auto simp: store_ok_def log_ok_def users_upd closers_upd)
qed

text \<open>One step at store \<open>b\<close> by goroutine \<open>g\<close>, which may add one entry to the log.\<close>

lemma binv_local:
  assumes inv: "binv c"
    and own: "store_ok q ((bpcs c)(g := p)) b \<and> log_ok q ((bpcs c)(g := p)) b (blog c @ fs)"
    and at: "at_store (bpcs c g) \<in> {None, Some b}" "at_store p \<in> {None, Some b}"
    and fs: "\<forall>e \<in> set fs. ev_store e = b" "length fs \<le> 1"
    and x: "stores x = (stores (bst c))(b := q)" "bnextStore x = bnextStore (bst c)"
    and new: "b < bnextStore (bst c) \<or> b_closed q \<and> fs = []"
  shows "binv (c\<lparr>bst := x, bpcs := (bpcs c)(g := p), blog := blog c @ fs\<rparr>)"
  unfolding binv_def
proof (intro conjI allI impI)
  fix b'
  have ok: "store_ok (stores (bst c) b') (bpcs c) b'" "log_ok (stores (bst c) b') (bpcs c) b' (blog c)"
    using inv by (auto simp: binv_def)
  let ?c = "c\<lparr>bst := x, bpcs := (bpcs c)(g := p), blog := blog c @ fs\<rparr>"
  show "store_ok (stores (bst ?c) b') (bpcs ?c) b'" "log_ok (stores (bst ?c) b') (bpcs ?c) b' (blog ?c)"
    using own store_ok_other [OF ok(1) _ at] log_ok_other [OF ok(2) _ at fs] by (cases "b' = b"; simp add: x)+
next
  fix b' assume "bnextStore (bst (c\<lparr>bst := x, bpcs := (bpcs c)(g := p), blog := blog c @ fs\<rparr>)) \<le> b'"
  then have le: "bnextStore (bst c) \<le> b'" by (simp add: x)
  then have old: "b_closed (stores (bst c) b')" "\<forall>e \<in> set (blog c). ev_store e \<noteq> b'" using inv by (auto simp: binv_def)
  show "b_closed (stores (bst (c\<lparr>bst := x, bpcs := (bpcs c)(g := p), blog := blog c @ fs\<rparr>)) b')"
    using old(1) new le by (auto simp: x)
  show "\<forall>e \<in> set (blog (c\<lparr>bst := x, bpcs := (bpcs c)(g := p), blog := blog c @ fs\<rparr>)). ev_store e \<noteq> b'"
    using old(2) new le fs(1) by auto
qed

lemma binv_live:
  assumes "binv c" "bpcs c g = Using b h \<or> bpcs c g = Disposing b h"
  shows "b < bnextStore (bst c)"
  using assms not_released(2) [of "stores (bst c) b" "bpcs c" b "blog c" g h] by (auto simp: binv_def not_less [symmetric])

lemma binv_closer:
  assumes "binv c" "g \<in> closers (bpcs c) b"
  shows "b < bnextStore (bst c)"
proof (rule ccontr)
  assume "\<not> b < bnextStore (bst c)"
  with assms(1) have "b_closed (stores (bst c) b)" "store_ok (stores (bst c) b) (bpcs c) b" by (auto simp: binv_def)
  with assms(2) show False by (auto simp: store_ok_def)
qed

lemma binv_ok: "binv c \<Longrightarrow> store_ok (stores (bst c) b) (bpcs c) b" "binv c \<Longrightarrow> log_ok (stores (bst c) b) (bpcs c) b (blog c)"
  by (simp_all add: binv_def)

lemma binv_new:
  assumes inv: "binv c"
  shows "binv (c\<lparr>bst := snd (newStore i h r (bst c))\<rparr>)"
proof -
  let ?b = "bnextStore (bst c)"
  have c: "b_closed (stores (bst c) ?b)" and l: "\<forall>e \<in> set (blog c). ev_store e \<noteq> ?b" using inv by (auto simp: binv_def)
  have ok: "store_ok (stores (bst c) ?b) (bpcs c) ?b" using inv by (rule binv_ok)
  then have e: "users (bpcs c) ?b = {}" "closers (bpcs c) ?b = {}" using c by (auto simp: store_ok_def)
  have n: "bpcs c g \<noteq> Using ?b k \<and> bpcs c g \<noteq> Disposing ?b k" for g k
    using e usersI [of "bpcs c" g ?b k] closersI(1) [of "bpcs c" g ?b k] by auto
  have "clean ?b (blog c)" "\<not> released ?b (blog c)" "one_handle ?b h (blog c)"
    using l binv_ok(2) [OF inv, of ?b] by (auto simp: log_ok_def released_def one_handle_def)
  with e n inv show ?thesis
    by (auto simp: binv_def newStore_def Let_def store_ok_def [of "\<lparr>b_iso = _, b_handle = _, b_arrayBufferAllocatorReference = _,
          b_closed = _, b_closing = _, b_active = _\<rparr>"] log_ok_def [of "\<lparr>b_iso = _, b_handle = _, b_arrayBufferAllocatorReference = _,
          b_closed = _, b_closing = _, b_active = _\<rparr>"])
qed

lemma beginUse_Inr:
  "beginUse (Some b) x = (Inr h, y) \<longleftrightarrow> loadShim (bbase x) = None \<and> \<not> b_closed (stores x b) \<and> b_handle (stores x b) \<noteq> 0
     \<and> \<not> b_closing (stores x b) \<and> h = b_handle (stores x b) \<and> y = upd_store b (\<lambda>q. q\<lparr>b_active := b_active q + 1\<rparr>) x"
  by (auto simp: beginUse_def guarded_eq_Inr)

lemma closeBegin_Inr:
  "closeBegin b x = (Inr h, y) \<longleftrightarrow> \<not> b_closed (stores x b) \<and> b_handle (stores x b) \<noteq> 0 \<and> \<not> b_closing (stores x b)
     \<and> b_active (stores x b) = 0 \<and> h = b_handle (stores x b) \<and> y = upd_store b (\<lambda>q. q\<lparr>b_closing := True\<rparr>) x"
  by (auto simp: closeBegin_def guarded_eq_Inr)

lemma open_below: "binv c \<Longrightarrow> \<not> b_closed (stores (bst c) b) \<Longrightarrow> b < bnextStore (bst c)"
  by (auto simp: binv_def not_less [symmetric])

lemma binv_step:
  assumes "bstep c c'" and inv: "binv c"
  shows "binv c'"
  using assms(1)
proof cases
  case (create i h r b x)
  then show ?thesis using binv_new [OF inv, of i h r] by simp
next
  case (begin_use g b h x)
  then show ?thesis
    using binv_local [OF inv, of "(stores (bst c) b)\<lparr>b_active := b_active (stores (bst c) b) + 1\<rparr>" g "Using b h" b "[]" x]
      begin_use_ok [OF binv_ok [OF inv, of b], of g] open_below [OF inv, of b] by (simp add: beginUse_Inr)
next
  case (engine_call g b h)
  then show ?thesis
    using binv_local [OF inv, of "stores (bst c) b" g "Using b h" b "[Used b h]" "bst c"] binv_ok(1) [OF inv, of b]
      engine_call_ok [OF binv_ok [OF inv, of b], of g h] binv_live [OF inv, of g b h] by (simp add: fun_upd_idem)
next
  case (end_use g b h)
  then show ?thesis
    using binv_local [OF inv, of "(stores (bst c) b)\<lparr>b_active := b_active (stores (bst c) b) - 1\<rparr>" g BIdle b "[]" "endUse b (bst c)"]
      end_use_ok [OF binv_ok [OF inv, of b], of g h] binv_live [OF inv, of g b h] by (simp add: endUse_def)
next
  case (begin_close g b h x)
  then show ?thesis
    using binv_local [OF inv, of "(stores (bst c) b)\<lparr>b_closing := True\<rparr>" g "Disposing b h" b "[]" x]
      begin_close_ok [OF binv_ok [OF inv, of b], of g] open_below [OF inv, of b] by (simp add: closeBegin_Inr)
next
  case (dispose g b h ok)
  then show ?thesis
    using binv_local [OF inv, of "stores (bst c) b" g "if ok then PublishingClose b else AbandoningClose b" b "[Disposed b h ok]" "bst c"]
      dispose_ok [OF binv_ok [OF inv, of b], of g h ok] binv_live [OF inv, of g b h] by (simp add: fun_upd_idem split: if_splits)
next
  case (abandon g b)
  then show ?thesis
    using binv_local [OF inv, of "(stores (bst c) b)\<lparr>b_closing := False\<rparr>" g BIdle b "[]" "closeAbandon b (bst c)"]
      abandon_ok [OF binv_ok [OF inv, of b], of g] binv_closer [OF inv closersI(2), of g b] by (simp add: closeAbandon_def)
next
  case (publish g b)
  then show ?thesis
    using binv_local [OF inv, of "(stores (bst c) b)\<lparr>b_closed := True, b_handle := 0, b_arrayBufferAllocatorReference := 0, b_closing := False\<rparr>"
        g BIdle b "[]" "snd (closePublish b (bst c))"]
      publish_ok [OF binv_ok [OF inv, of b], of g] binv_closer [OF inv closersI(3), of g b] by (simp add: closePublish_def)
next
  case (elsewhere x)
  with inv show ?thesis by (simp add: binv_def)
qed

interpretation backing_stores: invariant_system binit bstep binv
proof
  show "binv c" if "binit c" for c
    using that by (auto simp: binit_def binv_def store_ok_def log_ok_def users_def closers_def released_def clean_def one_handle_def)
qed (rule binv_step)

text \<open>The methods are sequences of these steps when no other goroutine comes in between.\<close>

lemma useStore_steps:
  assumes "bpcs c g = BIdle" "bst c = x" "useStore E t (Some b) oper p args res x = (r, y)"
  shows "\<exists>c'. bstep\<^sup>*\<^sup>* c c' \<and> bst c' = y \<and> bpcs c' = bpcs c"
proof (cases "beginUse (Some b) x")
  case (Pair r0 x1)
  show ?thesis
  proof (cases r0)
    case (Inl e)
    with assms Pair have "y = x1" "x1 = x" by (auto simp: useStore_def beginUse_def guarded_def split: option.splits)
    with assms(2) show ?thesis by blast
  next
    case (Inr h)
    let ?c1 = "c\<lparr>bst := x1, bpcs := (bpcs c)(g := Using b h)\<rparr>"
    let ?x2 = "snd (bOnBase (\<lambda>w. andThen (callErr E t oper p (args h) w) (\<lambda>r w. (Inr (res r), w))) x1)"
    have 1: "bstep c ?c1" using begin_use [of c g b h x1] assms Pair Inr by simp
    have 2: "bstep ?c1 (?c1\<lparr>bst := ?x2\<rparr>)" by (rule elsewhere) (simp_all add: bOnBase_def lift_def)
    have "y = endUse b ?x2" using assms(3) Pair Inr by (simp add: useStore_def split_def Let_def)
    then have 3: "bstep (?c1\<lparr>bst := ?x2\<rparr>) (?c1\<lparr>bst := y, bpcs := (bpcs ?c1)(g := BIdle)\<rparr>)"
      using end_use [of "?c1\<lparr>bst := ?x2\<rparr>" g b h] by simp
    have "(bpcs ?c1)(g := BIdle) = bpcs c" using assms(1) by (simp add: fun_upd_idem)
    then show ?thesis using 1 2 3
      by (intro exI [of _ "?c1\<lparr>bst := y, bpcs := (bpcs ?c1)(g := BIdle)\<rparr>"]) (auto intro: rtranclp.rtrancl_into_rtrancl)
  qed
qed

section \<open>Sequences of calls\<close>

text \<open>\<open>BDispatch\<close> is the engine calling the deleter trampoline; the deleters that run while a store is closed
  are among the calls nested in \<open>BClose\<close>.\<close>

datatype buf_op =
    BCore api
  | BNew ref int
  | BFromSlice ref string
  | BFromPtr ref uintptr int "nat option" uintptr
  | BSharedNew ref int
  | BSharedFromSlice ref string
  | BSharedFromPtr ref uintptr int "nat option" uintptr
  | BByteLength "ref option"
  | BIsShared "ref option"
  | BIsResizable "ref option"
  | BUseCount "ref option"
  | BReadAt "ref option" string int
  | BWriteAt "ref option" string int
  | BArrayBuffer "ref option" "ref option" "ref option"
  | BSharedArrayBuffer "ref option" "ref option" "ref option"
  | BStoreOfBuffer Value
  | BStoreOfShared Value
  | BStoreOfView Value
  | BDispatch uintptr
  | BClose "ref option" "buf_op list"

primrec buf_exec :: "engine \<Rightarrow> tid \<Rightarrow> uintptr \<Rightarrow> buf_op \<Rightarrow> bsys \<Rightarrow> bsys" where
  "buf_exec E t d (BCore a) = (\<lambda>x. x\<lparr>bbase := exec E t a (bbase x)\<rparr>)"
| "buf_exec E t d (BNew i n) = (\<lambda>x. snd (NewBackingStore E t i n x))"
| "buf_exec E t d (BFromSlice i b) = (\<lambda>x. snd (NewBackingStoreFromSlice E t i b x))"
| "buf_exec E t d (BFromPtr i p n fn dd) = (\<lambda>x. snd (NewBackingStoreFromPtr E t d i p n fn dd x))"
| "buf_exec E t d (BSharedNew i n) = (\<lambda>x. snd (NewSharedArrayBufferBackingStore E t i n x))"
| "buf_exec E t d (BSharedFromSlice i b) = (\<lambda>x. snd (NewSharedArrayBufferBackingStoreFromSlice E t i b x))"
| "buf_exec E t d (BSharedFromPtr i p n fn dd) = (\<lambda>x. snd (NewSharedArrayBufferBackingStoreFromPtr E t d i p n fn dd x))"
| "buf_exec E t d (BByteLength mb) = (\<lambda>x. snd (BS_ByteLength E t mb x))"
| "buf_exec E t d (BIsShared mb) = (\<lambda>x. snd (IsShared E t mb x))"
| "buf_exec E t d (BIsResizable mb) = (\<lambda>x. snd (IsResizableByUserJavaScript E t mb x))"
| "buf_exec E t d (BUseCount mb) = (\<lambda>x. snd (BS_UseCount E t mb x))"
| "buf_exec E t d (BReadAt mb b off) = (\<lambda>x. snd (ReadAt E t mb b off x))"
| "buf_exec E t d (BWriteAt mb b off) = (\<lambda>x. snd (WriteAt E t mb b off x))"
| "buf_exec E t d (BArrayBuffer ms mc mb) = (\<lambda>x. snd (NewArrayBufferWithBackingStore E t ms mc mb x))"
| "buf_exec E t d (BSharedArrayBuffer ms mc mb) = (\<lambda>x. snd (NewSharedArrayBufferWithBackingStore E t ms mc mb x))"
| "buf_exec E t d (BStoreOfBuffer v) = (\<lambda>x. snd (AB_GetBackingStore E t v x))"
| "buf_exec E t d (BStoreOfShared v) = (\<lambda>x. snd (SAB_GetBackingStore E t v x))"
| "buf_exec E t d (BStoreOfView v) = (\<lambda>x. snd (viewBackingStore E t v x))"
| "buf_exec E t d (BDispatch h) = goBsDeleterDispatch h"
| "buf_exec E t d (BClose mb as) = (\<lambda>x. snd (BS_Close E t (fold id (map (buf_exec E t d) as)) mb x))"

definition buf_runs :: "engine \<Rightarrow> uintptr \<Rightarrow> (tid \<times> buf_op) list \<Rightarrow> bsys \<Rightarrow> bsys" where
  "buf_runs E d tr x = fold (\<lambda>(t, a). buf_exec E t d a) tr x"

definition buf_boot :: "world \<Rightarrow> bsys" where
  "buf_boot w = \<lparr>bbase = w, stores = (\<lambda>_. \<lparr>b_iso = 0, b_handle = 0, b_arrayBufferAllocatorReference = 0, b_closed = True,
     b_closing = False, b_active = 0\<rparr>), bnextStore = 0, dNext = 0, dEntries = Map.empty, deleterEntryErr = None, bdeleted = []\<rparr>"

text \<open>A use of a store that no other goroutine disturbs leaves all stores as they were.\<close>

lemma useStore_state: "snd (useStore E t mb oper p args res x) = x\<lparr>bbase := bbase (snd (useStore E t mb oper p args res x))\<rparr>"
proof (cases mb)
  case (Some b)
  show ?thesis
    by (simp add: Some useStore_def beginUse_def guarded_def split_def Let_def endUse_def bOnBase_def lift_def split: option.split)
qed (simp add: useStore_def beginUse_def)

text \<open>A relation between states that the single updates and Close stay in is kept by every operation.\<close>

locale buffer_evolution =
  fixes R :: "bsys \<Rightarrow> bsys \<Rightarrow> bool"
  assumes R_refl: "R x x"
    and R_trans: "R x y \<Longrightarrow> R y z \<Longrightarrow> R x z"
    and R_base: "R x (x\<lparr>bbase := w\<rparr>)"
    and R_entry: "R x (x\<lparr>deleterEntryErr := er\<rparr>)"
    and R_newStore: "R x (snd (newStore i h r x))"
    and R_register: "R x (x\<lparr>dNext := Suc (dNext x), dEntries := (dEntries x)(Suc (dNext x) \<mapsto> e)\<rparr>)"
    and R_drop: "R x (x\<lparr>dEntries := (dEntries x)(k := None)\<rparr>)"
    and R_dispatch: "R x (goBsDeleterDispatch hw x)"
    and R_close: "(\<And>y. R y (f y)) \<Longrightarrow> R x (snd (BS_Close E t f mb x))"
begin

lemma R_onBase: "R x (snd (bOnBase f x))"
  by (simp add: bOnBase_def lift_def R_base)

lemma R_andThen: "R x (snd m) \<Longrightarrow> (\<And>v y. m = (Inr v, y) \<Longrightarrow> R y (snd (k v y))) \<Longrightarrow> R x (snd (andThen m k))"
  by (cases m; cases "fst m") (auto intro: R_trans)

lemma R_guarded: "R x (snd (k x)) \<Longrightarrow> R x (snd (guarded gs k x))"
  by (simp add: snd_guarded R_refl)

lemma R_backingStore: "R x (snd (backingStore E t i h x))"
  by (auto simp: backingStore_def split_def intro: R_trans [OF R_onBase R_newStore] R_trans [OF R_onBase R_base] split: sum.split)

lemma R_install: "R x (snd (installDeleterEntry E t d x))"
  by (auto simp: installDeleterEntry_def split_def R_refl intro: R_trans [OF R_onBase R_entry] split: option.split sum.split)

lemma R_fromPtr: "R x (snd (storeFromPtr E t d oper p i ptr n fn dd x))"
  unfolding storeFromPtr_def
proof (intro R_guarded R_andThen R_install)
  fix v and z :: bsys
  let ?k = "Suc (dNext z)"
  let ?x = "z\<lparr>dNext := ?k, dEntries := (dEntries z)(?k \<mapsto> \<lparr>de_data = ptr, de_byteLength = n, de_deleterData = dd, de_fn = the fn\<rparr>)\<rparr>"
  have x: "R z (snd (bOnBase f ?x))" for f by (rule R_trans [OF R_register R_onBase])
  have "R z ((snd (bOnBase f ?x))\<lparr>dEntries := (dEntries (snd (bOnBase f ?x)))(?k := None)\<rparr>)" for f
    by (rule R_trans [OF x R_drop])
  moreover have "R z (snd (newStore i h 0 (snd (bOnBase f ?x))))" for f h by (rule R_trans [OF x R_newStore])
  ultimately show "R z (snd (let k = Suc (dNext z);
          x1 = z\<lparr>dNext := k, dEntries := (dEntries z)(k \<mapsto> \<lparr>de_data = ptr, de_byteLength = n, de_deleterData = dd, de_fn = the fn\<rparr>)\<rparr>
      in case bOnBase (\<lambda>w. callHandle E t oper p [W (i_handle (isolates w i)), W ptr, W (word_of_int n), W (of_nat k)] w) x1 of
           (Inl e, x) \<Rightarrow> (Inl e, x\<lparr>dEntries := (dEntries x)(k := None)\<rparr>)
         | (Inr h, x) \<Rightarrow> newStore i h 0 x))"
    unfolding Let_def by (simp only: split_def) (simp only: snd_conv split: sum.split, blast)
qed

lemma R_useStore: "R x (snd (useStore E t mb oper p args res x))"
  by (subst useStore_state) (rule R_base)

lemma R_withStore: "R x (snd (bufferWithStore E t oper p ms mc mb x))"
  unfolding bufferWithStore_def by (intro R_guarded R_andThen R_onBase) (auto intro: R_guarded R_useStore R_refl split: prod.split)

lemma R_storeOf: "R x (snd (storeOf E t oper p v x))"
  unfolding storeOf_def by (intro R_andThen R_onBase R_backingStore)

lemma R_fromSlice: "R x (snd (storeFromSlice E t oper p i b x))"
  unfolding storeFromSlice_def by (intro R_guarded R_andThen R_onBase R_newStore)

lemma R_fold: "(\<And>f y. f \<in> set fs \<Longrightarrow> R y (f y)) \<Longrightarrow> R x (fold id fs x)"
  by (induction fs arbitrary: x) (auto intro: R_refl R_trans)

lemma R_exec: "R x (buf_exec E t d a x)"
proof (induction a arbitrary: x)
  case (BClose mb as)
  have "R y (fold id (map (buf_exec E t d) as) y)" for y by (rule R_fold) (use BClose in auto)
  then show ?case by (simp add: R_close)
next
  case (BNew i n)
  then show ?case unfolding buf_exec.simps NewBackingStore_def
    by (intro R_guarded) (auto simp: Let_def R_newStore R_backingStore intro!: R_andThen R_onBase)
next
  case (BSharedNew i n)
  then show ?case unfolding buf_exec.simps NewSharedArrayBufferBackingStore_def
    by (intro R_guarded R_andThen R_onBase R_backingStore)
qed (auto simp: NewBackingStoreFromSlice_def NewSharedArrayBufferBackingStoreFromSlice_def NewBackingStoreFromPtr_def
    NewSharedArrayBufferBackingStoreFromPtr_def BS_ByteLength_def IsShared_def IsResizableByUserJavaScript_def BS_UseCount_def
    ReadAt_def WriteAt_def NewArrayBufferWithBackingStore_def NewSharedArrayBufferWithBackingStore_def AB_GetBackingStore_def
    SAB_GetBackingStore_def viewBackingStore_def R_base R_fromSlice R_fromPtr R_useStore R_withStore R_storeOf R_dispatch
    intro: R_guarded R_refl)

lemma R_execs: "R x (fold id (map (buf_exec E t d) as) x)"
  by (rule R_fold) (auto simp: R_exec)

lemma R_runs: "R x (buf_runs E d tr x)"
  by (induction tr arbitrary: x) (auto simp: buf_runs_def R_refl intro: R_trans R_exec)

end

section \<open>Close, with everything that happens meanwhile\<close>

definition disposing :: "tid \<Rightarrow> ref \<Rightarrow> bsys \<Rightarrow> bsys" where
  "disposing t b x = (upd_store b (\<lambda>q. q\<lparr>b_closing := True\<rparr>) x)
     \<lparr>bbase := called t ''gov8_backing_store_dispose'' [W (b_handle (stores x b))] (bbase x)\<rparr>"

lemma BS_Close_cases:
  obtains (refused) e where "BS_Close E t f (Some b) x = (Inl e, x)"
  | (failed) y e where "y = f (disposing t b x)" "\<not> b_closing (stores x b)" "\<not> b_closed (stores x b)"
      "BS_Close E t f (Some b) x = (Inl e, closeAbandon b y)"
  | (closed) y w r where "y = f (disposing t b x)" "\<not> b_closing (stores x b)" "\<not> b_closed (stores x b)"
      "BS_Close E t f (Some b) x = (r, (snd (closePublish b y))\<lparr>bbase := w\<rparr>)"
      "b_arrayBufferAllocatorReference (stores y b) = 0 \<longrightarrow> r = Inr () \<and> w = bbase y"
      "b_arrayBufferAllocatorReference (stores y b) \<noteq> 0 \<longrightarrow>
         w = called t ''gov8_aba_dispose'' [W (b_arrayBufferAllocatorReference (stores y b))] (bbase y)"
proof (cases "loadShim (bbase x) = None \<and> (\<exists>h y. closeBegin b x = (Inr h, y))")
  case False
  show thesis
  proof (cases "loadShim (bbase x)")
    case None
    with False obtain e where "closeBegin b x = (Inl e, x)" by (auto simp: closeBegin_def guarded_def split: option.splits)
    with None have "BS_Close E t f (Some b) x = (Inl e, x)" by (simp add: BS_Close_def guarded_def)
    then show thesis by (rule refused)
  next
    case (Some e)
    then have "BS_Close E t f (Some b) x = (Inl e, x)" by (simp add: BS_Close_def guarded_def)
    then show thesis by (rule refused)
  qed
next
  case True
  then have ok: "loadShim (bbase x) = None" "\<not> b_closed (stores x b)" "\<not> b_closing (stores x b)"
    "closeBegin b x = (Inr (b_handle (stores x b)), upd_store b (\<lambda>q. q\<lparr>b_closing := True\<rparr>) x)"
    by (auto simp: closeBegin_Inr)
  let ?r = "E (calls (bbase x)) (Call t ''gov8_backing_store_dispose'' [W (b_handle (stores x b))])"
  let ?y = "f (disposing t b x)"
  show thesis
  proof (cases "sneg (r1 ?r)")
    case True
    then have "BS_Close E t f (Some b) x = (Inl (ShimError ''BackingStore.Close'' (r1 ?r)), closeAbandon b ?y)"
      by (simp add: BS_Close_def guarded_def ok shim_eq Let_def disposing_def)
    then show thesis using failed [OF refl ok(3,2)] by blast
  next
    case False
    then have "BS_Close E t f (Some b) x =
        (if b_arrayBufferAllocatorReference (stores ?y b) = 0 then (Inr (), snd (closePublish b ?y))
         else bOnBase (unitCall E t ''ArrayBufferAllocator.backing-store.Close'' ''gov8_aba_dispose''
                [W (b_arrayBufferAllocatorReference (stores ?y b))]) (snd (closePublish b ?y)))"
      by (simp add: BS_Close_def guarded_def ok shim_eq Let_def closePublish_def disposing_def)
    moreover have "bbase (snd (closePublish b ?y)) = bbase ?y" by (simp add: closePublish_def)
    ultimately show thesis
      using closed [OF refl ok(3,2), of "fst (BS_Close E t f (Some b) x)" "bbase (snd (BS_Close E t f (Some b) x))"]
      by (auto simp: bOnBase_def lift_def unitCall_def callErr_eq Let_def split: if_splits)
  qed
qed

interpretation run_once: buffer_evolution
  "\<lambda>x y. deleters_core (dNext x) (dEntries x) (map fst (bdeleted x)) \<longrightarrow> deleters_core (dNext y) (dEntries y) (map fst (bdeleted y))"
proof
  fix f :: "bsys \<Rightarrow> bsys" and E t mb and x :: bsys
  assume f: "\<And>y. deleters_core (dNext y) (dEntries y) (map fst (bdeleted y))
      \<longrightarrow> deleters_core (dNext (f y)) (dEntries (f y)) (map fst (bdeleted (f y)))"
  let ?y = "snd (BS_Close E t f mb x)"
  show "deleters_core (dNext x) (dEntries x) (map fst (bdeleted x)) \<longrightarrow> deleters_core (dNext ?y) (dEntries ?y) (map fst (bdeleted ?y))"
  proof (cases mb)
    case (Some b)
    show ?thesis unfolding Some
      by (rule BS_Close_cases [of E t f b x])
        (use f [of "disposing t b x"] in \<open>simp_all add: disposing_def closeAbandon_def closePublish_def\<close>)
  qed (simp add: BS_Close_def)
qed (auto simp: newStore_def Let_def goBsDeleterDispatch_def intro: deleters_core_insert deleters_core_run split: option.split)

text \<open>While a store is being closed, nothing that is called meanwhile touches it.\<close>

interpretation while_closing: buffer_evolution
  "\<lambda>x y. bnextStore x \<le> bnextStore y \<and> (\<forall>b < bnextStore x. b_closing (stores x b) \<longrightarrow> stores y b = stores x b)"
proof
  fix f :: "bsys \<Rightarrow> bsys" and E t mb and x :: bsys
  assume f: "\<And>y. bnextStore y \<le> bnextStore (f y) \<and> (\<forall>b < bnextStore y. b_closing (stores y b) \<longrightarrow> stores (f y) b = stores y b)"
  let ?y = "snd (BS_Close E t f mb x)"
  show "bnextStore x \<le> bnextStore ?y \<and> (\<forall>b < bnextStore x. b_closing (stores x b) \<longrightarrow> stores ?y b = stores x b)"
  proof (cases mb)
    case (Some b)
    show ?thesis unfolding Some
      by (rule BS_Close_cases [of E t f b x])
        (use f [of "disposing t b x"] in \<open>auto simp: disposing_def closeAbandon_def closePublish_def\<close>)
  qed (simp add: BS_Close_def)
qed (auto simp: newStore_def Let_def goBsDeleterDispatch_def split: option.split)

end
