(* ===== verification/CustomPlatform.thy ===== *)
theory CustomPlatform
  imports Contexts
begin

text \<open>
  Custom platforms (\<open>src/platform_custom.go\<close>): the selection of an implementation, its registration
  with the one-entry cache, the dispatcher through which the engine transfers foreground tasks to the embedder
  and announces the end of the platform, and the Task and IdleTask objects with Run, Close and the retention
  of tasks that a callback did not consume.

  Entries and tasks are objects, because the cache, the work map and the compare-and-swap work on their
  addresses. Task and IdleTask are the same structure with the same methods in the source; here one record with a
  flag serves both, and the methods take the flag. The critical sections of the mutexes are definitions of their own
  (\<open>takeLocked\<close>, \<open>armLocked\<close>, \<open>closeLocked\<close>, \<open>entry_add\<close>, \<open>entry_remove\<close>, \<open>drainLocked\<close>), so that the methods here
  and the interleavings in TaskOwnership are composed of the same parts.
\<close>

section \<open>State\<close>

record CustomPlatformOptions =
  co_ThreadPoolSize :: "32 word"
  co_IdleTaskSupport :: bool
  co_Unprotected :: bool

text \<open>The work map has the numbers and the tasks; its order has no meaning.\<close>

record customPlatformEntry =
  pe_id :: nat
  pe_impl :: nat
  pe_next :: "64 word"
  pe_work :: "(64 word \<times> ref) list"
  pe_done :: bool

record Task =
  t_idle :: bool
  t_handle :: uintptr
  t_isolate :: uintptr
  t_retention :: "(ref \<times> 64 word) option"
  t_finalizer :: bool

record psys =
  pbase :: world
  pregNext :: nat
  pentries :: "nat \<rightharpoonup> ref"
  pactive :: "ref option"
  pheap :: "ref \<Rightarrow> customPlatformEntry"
  pnextEntry :: nat
  ptasks :: "ref \<Rightarrow> Task"
  pnextTask :: nat
  pdispatcherErr :: "error option option"

type_synonym 'a presult = "(error, 'a, psys) outcome"

definition pOnBase :: "(world \<Rightarrow> 'a result) \<Rightarrow> psys \<Rightarrow> 'a presult" where
  [op_defs]: "pOnBase = lift pbase (\<lambda>w x. x\<lparr>pbase := w\<rparr>)"

definition upd_entry :: "ref \<Rightarrow> (customPlatformEntry \<Rightarrow> customPlatformEntry) \<Rightarrow> psys \<Rightarrow> psys" where
  "upd_entry e f x = x\<lparr>pheap := (pheap x)(e := f (pheap x e))\<rparr>"

definition upd_task :: "ref \<Rightarrow> (Task \<Rightarrow> Task) \<Rightarrow> psys \<Rightarrow> psys" where
  "upd_task r f x = x\<lparr>ptasks := (ptasks x)(r := f (ptasks x r))\<rparr>"

text \<open>
  An implementation of the platform: its five callbacks and, where it has one, Close. A callback is
  the embedder's code; what it does to the state is its value here, and \<open>Inl\<close> is a panic. Delays and deadlines are the
  64 bits of the floating-point number.
\<close>

record PlatformImpl =
  pi_PostTask :: "uintptr \<Rightarrow> ref \<Rightarrow> psys \<Rightarrow> unit presult"
  pi_PostNonNestableTask :: "uintptr \<Rightarrow> ref \<Rightarrow> psys \<Rightarrow> unit presult"
  pi_PostDelayedTask :: "uintptr \<Rightarrow> ref \<Rightarrow> 64 word \<Rightarrow> psys \<Rightarrow> unit presult"
  pi_PostNonNestableDelayedTask :: "uintptr \<Rightarrow> ref \<Rightarrow> 64 word \<Rightarrow> psys \<Rightarrow> unit presult"
  pi_PostIdleTask :: "uintptr \<Rightarrow> ref \<Rightarrow> psys \<Rightarrow> unit presult"
  pi_Close :: "(psys \<Rightarrow> unit presult) option"

section \<open>The registry\<close>

definition ensureCustomPlatformDispatcher :: "engine \<Rightarrow> tid \<Rightarrow> uintptr \<Rightarrow> psys \<Rightarrow> unit presult" where
  [op_defs]: "ensureCustomPlatformDispatcher E t d x =
     (case pdispatcherErr x of
        Some None \<Rightarrow> (Inr (), x)
      | Some (Some e) \<Rightarrow> (Inl e, x)
      | None \<Rightarrow>
          (case pOnBase (callErr E t ''ConfigureCustomPlatform'' ''gov8_pc_set_dispatcher'' [W d]) x of
             (Inl e, x) \<Rightarrow> (Inl e, x\<lparr>pdispatcherErr := Some (Some e)\<rparr>)
           | (Inr _, x) \<Rightarrow> (Inr (), x\<lparr>pdispatcherErr := Some None\<rparr>)))"

definition registerEntry :: "nat \<Rightarrow> psys \<Rightarrow> ref \<times> psys" where
  [op_defs]: "registerEntry impl x =
     (let n = Suc (pregNext x); e = pnextEntry x
      in (e, x\<lparr>pregNext := n, pnextEntry := Suc e,
               pheap := (pheap x)(e := \<lparr>pe_id = n, pe_impl = impl, pe_next = 0, pe_work = [], pe_done = False\<rparr>),
               pentries := (pentries x)(n \<mapsto> e)\<rparr>))"

definition ConfigureCustomPlatform ::
    "engine \<Rightarrow> tid \<Rightarrow> uintptr \<Rightarrow> CustomPlatformOptions \<Rightarrow> nat option \<Rightarrow> psys \<Rightarrow> unit presult" where
  [op_defs]: "ConfigureCustomPlatform E t d opts impl x =
     guarded
       [fail_if (impl = None) (Misuse ''custom platform implementation is required''),
        loadShim (pbase x),
        fail_if (platform (pbase x) \<noteq> stateUninitialized)
          (Misuse ''ConfigureCustomPlatform must be called before Initialize''),
        fail_if (selectedPlatform (pbase x) \<noteq> None \<or> selectedCustomPlatform (pbase x) \<noteq> None)
          (Misuse ''platform already configured'')]
       (\<lambda>x. andThen (ensureCustomPlatformDispatcher E t d x) (\<lambda>_ x.
          let threads = clampThreads (co_ThreadPoolSize opts);
              (e, x) = registerEntry (the impl) x;
              x = x\<lparr>pactive := Some e\<rparr>
          in (Inr (), x\<lparr>pbase := (pbase x)\<lparr>selectedCustomPlatform :=
                Some \<lparr>cp_idle = co_IdleTaskSupport opts, cp_unprotected = co_Unprotected opts,
                      cp_threads = threads, cp_id = pe_id (pheap x e)\<rparr>\<rparr>\<rparr>))) x"

definition loadActiveEntry :: "nat \<Rightarrow> psys \<Rightarrow> ref option" where
  [op_defs]: "loadActiveEntry n x =
     (case pactive x of None \<Rightarrow> None | Some e \<Rightarrow> if pe_id (pheap x e) = n then Some e else None)"

definition lookupCustomPlatformEntry :: "nat \<Rightarrow> psys \<Rightarrow> ref option" where
  [op_defs]: "lookupCustomPlatformEntry n x =
     (case loadActiveEntry n x of Some e \<Rightarrow> Some e | None \<Rightarrow> pentries x n)"

section \<open>The work of an entry\<close>

definition entry_add :: "ref \<Rightarrow> ref \<Rightarrow> psys \<Rightarrow> (64 word \<times> bool) \<times> psys" where
  [op_defs]: "entry_add e r x =
     (if pe_done (pheap x e) then ((0, False), x)
      else let k = pe_next (pheap x e) + 1
           in ((k, True), upd_entry e (\<lambda>q. q\<lparr>pe_next := k, pe_work := (k, r) # filter (\<lambda>p. fst p \<noteq> k) (pe_work q)\<rparr>) x))"

definition entry_remove :: "ref \<Rightarrow> 64 word \<Rightarrow> psys \<Rightarrow> psys" where
  [op_defs]: "entry_remove e k x = upd_entry e (\<lambda>q. q\<lparr>pe_work := filter (\<lambda>p. fst p \<noteq> k) (pe_work q)\<rparr>) x"

text \<open>\<open>dropCustomPlatformEntry\<close> up to the loop over the work: the compare-and-swap of the cache, the locked
  removal from the registry, the locked end of the entry.\<close>

definition dropUncache :: "ref \<Rightarrow> psys \<Rightarrow> psys" where
  [op_defs]: "dropUncache e x = (if pactive x = Some e then x\<lparr>pactive := None\<rparr> else x)"

definition dropUnregister :: "nat \<Rightarrow> ref \<Rightarrow> psys \<Rightarrow> psys" where
  [op_defs]: "dropUnregister n e x = (if pentries x n = Some e then x\<lparr>pentries := (pentries x)(n := None)\<rparr> else x)"

definition drainLocked :: "ref \<Rightarrow> psys \<Rightarrow> ref list \<times> psys" where
  [op_defs]: "drainLocked e x = (map snd (pe_work (pheap x e)), upd_entry e (\<lambda>q. q\<lparr>pe_done := True, pe_work := []\<rparr>) x)"

section \<open>Tasks\<close>

definition kindName :: "bool \<Rightarrow> string" where
  "kindName idle = (if idle then ''IdleTask'' else ''Task'')"

definition deleteProc :: "bool \<Rightarrow> string" where
  "deleteProc idle = (if idle then ''gov8_pc_idle_task_delete'' else ''gov8_pc_task_delete'')"

definition newTask :: "bool \<Rightarrow> uintptr \<Rightarrow> uintptr \<Rightarrow> psys \<Rightarrow> ref \<times> psys" where
  [op_defs]: "newTask idle isol h x =
     (let r = pnextTask x
      in (r, x\<lparr>ptasks := (ptasks x)(r := \<lparr>t_idle = idle, t_handle = h, t_isolate = isol, t_retention = None, t_finalizer = False\<rparr>),
               pnextTask := Suc r\<rparr>))"

definition newPlatformTask :: "uintptr \<Rightarrow> uintptr \<Rightarrow> psys \<Rightarrow> ref \<times> psys" where
  [op_defs]: "newPlatformTask = newTask False"

definition newPlatformIdleTask :: "uintptr \<Rightarrow> uintptr \<Rightarrow> psys \<Rightarrow> ref \<times> psys" where
  [op_defs]: "newPlatformIdleTask = newTask True"

text \<open>The section of \<open>armFinalizer\<close> under the mutex of the task; the result is the handle that is to be deleted
  because the entry refused the task.\<close>

definition armLocked :: "ref \<Rightarrow> ref \<Rightarrow> psys \<Rightarrow> uintptr option \<times> psys" where
  [op_defs]: "armLocked e r x =
     (if t_handle (ptasks x r) = 0 then (None, x)
      else let ((k, retained), x) = entry_add e r x
           in if \<not> retained
              then (Some (t_handle (ptasks x r)), upd_task r (\<lambda>q. q\<lparr>t_handle := 0\<rparr>) x)
              else (None, upd_task r (\<lambda>q. q\<lparr>t_retention := Some (e, k), t_finalizer := True\<rparr>) x))"

definition armTask :: "engine \<Rightarrow> tid \<Rightarrow> bool \<Rightarrow> ref \<Rightarrow> ref \<Rightarrow> psys \<Rightarrow> psys" where
  [op_defs]: "armTask E t idle e r x =
     (if t_handle (ptasks x r) = 0 then x
      else case armLocked e r x of
             (None, x) \<Rightarrow> x
           | (Some h, x) \<Rightarrow> x\<lparr>pbase := snd (shim E t (deleteProc idle) [W h] (pbase x))\<rparr>)"

definition Task_armFinalizer :: "engine \<Rightarrow> tid \<Rightarrow> ref \<Rightarrow> ref \<Rightarrow> psys \<Rightarrow> psys" where
  [op_defs]: "Task_armFinalizer E t = armTask E t False"

definition IdleTask_armFinalizer :: "engine \<Rightarrow> tid \<Rightarrow> ref \<Rightarrow> ref \<Rightarrow> psys \<Rightarrow> psys" where
  [op_defs]: "IdleTask_armFinalizer E t = armTask E t True"

text \<open>\<open>take\<close>: the section under the mutex of the task, and what follows it for a retained task.\<close>

definition takeLocked :: "bool \<Rightarrow> ref \<Rightarrow> psys \<Rightarrow> (uintptr \<times> (ref \<times> 64 word) option) presult" where
  [op_defs]: "takeLocked idle r x =
     (if t_handle (ptasks x r) = 0 then (Inl (Misuse (kindName idle @ '' already consumed'')), x)
      else (Inr (t_handle (ptasks x r), t_retention (ptasks x r)),
            upd_task r (\<lambda>q. q\<lparr>t_handle := 0, t_retention := None\<rparr>) x))"

definition takeRelease :: "ref \<Rightarrow> (ref \<times> 64 word) option \<Rightarrow> psys \<Rightarrow> psys" where
  [op_defs]: "takeRelease r ret x =
     (case ret of None \<Rightarrow> x | Some (e, k) \<Rightarrow> entry_remove e k (upd_task r (\<lambda>q. q\<lparr>t_finalizer := False\<rparr>) x))"

definition takeTask :: "bool \<Rightarrow> ref option \<Rightarrow> psys \<Rightarrow> uintptr presult" where
  [op_defs]: "takeTask idle mt x =
     (case mt of
        None \<Rightarrow> (Inl (Misuse (''nil '' @ kindName idle)), x)
      | Some r \<Rightarrow> andThen (takeLocked idle r x) (\<lambda>(h, ret) x. (Inr h, takeRelease r ret x)))"

definition Task_take :: "ref option \<Rightarrow> psys \<Rightarrow> uintptr presult" where
  [op_defs]: "Task_take = takeTask False"

definition IdleTask_take :: "ref option \<Rightarrow> psys \<Rightarrow> uintptr presult" where
  [op_defs]: "IdleTask_take = takeTask True"

definition Task_runTransferred :: "engine \<Rightarrow> tid \<Rightarrow> ref option \<Rightarrow> psys \<Rightarrow> unit presult" where
  [op_defs]: "Task_runTransferred E t mt x =
     andThen (Task_take mt x) (\<lambda>h. pOnBase (unitCall E t ''Task.Run'' ''gov8_pc_task_run_delete'' [W h]))"

definition IdleTask_runTransferred :: "engine \<Rightarrow> tid \<Rightarrow> ref option \<Rightarrow> 64 word \<Rightarrow> psys \<Rightarrow> unit presult" where
  [op_defs]: "IdleTask_runTransferred E t mt deadline x =
     andThen (IdleTask_take mt x) (\<lambda>h. pOnBase (unitCall E t ''IdleTask.Run'' ''gov8_pc_idle_task_run_delete'' [W h, W deadline]))"

text \<open>The tests of Run before it consumes the task.\<close>

definition run_guards :: "string \<Rightarrow> string \<Rightarrow> tid \<Rightarrow> ref option \<Rightarrow> ref option \<Rightarrow> psys \<Rightarrow> error option list" where
  [check_defs]: "run_guards name low t mt mi x =
     [fail_if (mt = None) (Misuse (''nil '' @ name)),
      fail_if (mi = None) (Misuse (name @ ''.Run requires an isolate'')),
      Isolate_check t (the mi) (pbase x),
      fail_if (i_handle (isolates (pbase x) (the mi)) \<noteq> t_isolate (ptasks x (the mt)))
        (Misuse (low @ '' belongs to a different isolate''))]"

definition Task_Run :: "engine \<Rightarrow> tid \<Rightarrow> ref option \<Rightarrow> ref option \<Rightarrow> psys \<Rightarrow> unit presult" where
  [op_defs]: "Task_Run E t mt mi x =
     guarded (run_guards ''Task'' ''task'' t mt mi x) (Task_runTransferred E t mt) x"

definition IdleTask_Run :: "engine \<Rightarrow> tid \<Rightarrow> ref option \<Rightarrow> ref option \<Rightarrow> 64 word \<Rightarrow> psys \<Rightarrow> unit presult" where
  [op_defs]: "IdleTask_Run E t mt mi deadline x =
     guarded (run_guards ''IdleTask'' ''idle task'' t mt mi x) (IdleTask_runTransferred E t mt deadline) x"

definition Task_Close :: "engine \<Rightarrow> tid \<Rightarrow> ref option \<Rightarrow> psys \<Rightarrow> unit presult" where
  [op_defs]: "Task_Close E t mt x =
     andThen (Task_take mt x) (\<lambda>h. pOnBase (unitCall E t ''Task.Close'' ''gov8_pc_task_delete'' [W h]))"

definition IdleTask_Close :: "engine \<Rightarrow> tid \<Rightarrow> ref option \<Rightarrow> psys \<Rightarrow> unit presult" where
  [op_defs]: "IdleTask_Close E t mt x =
     andThen (IdleTask_take mt x) (\<lambda>h. pOnBase (unitCall E t ''IdleTask.Close'' ''gov8_pc_idle_task_delete'' [W h]))"

text \<open>\<open>closeFromPlatform\<close>: as Close, but it does not touch the work map, which is already empty.\<close>

definition closeLocked :: "ref \<Rightarrow> psys \<Rightarrow> (uintptr \<times> (ref \<times> 64 word) option) option \<times> psys" where
  [op_defs]: "closeLocked r x =
     (if t_handle (ptasks x r) = 0 then (None, x)
      else (Some (t_handle (ptasks x r), t_retention (ptasks x r)), upd_task r (\<lambda>q. q\<lparr>t_handle := 0, t_retention := None\<rparr>) x))"

definition clearFinalizer :: "ref \<Rightarrow> (ref \<times> 64 word) option \<Rightarrow> psys \<Rightarrow> psys" where
  [op_defs]: "clearFinalizer r ret x = (if ret = None then x else upd_task r (\<lambda>q. q\<lparr>t_finalizer := False\<rparr>) x)"

definition closeTask :: "engine \<Rightarrow> tid \<Rightarrow> bool \<Rightarrow> ref \<Rightarrow> psys \<Rightarrow> psys" where
  [op_defs]: "closeTask E t idle r x =
     (case closeLocked r x of
        (None, x) \<Rightarrow> x
      | (Some (h, ret), x) \<Rightarrow>
          let x = clearFinalizer r ret x in x\<lparr>pbase := snd (shim E t (deleteProc idle) [W h] (pbase x))\<rparr>)"

definition Task_closeFromPlatform :: "engine \<Rightarrow> tid \<Rightarrow> ref option \<Rightarrow> psys \<Rightarrow> psys" where
  [op_defs]: "Task_closeFromPlatform E t mt x = (case mt of None \<Rightarrow> x | Some r \<Rightarrow> closeTask E t False r x)"

definition IdleTask_closeFromPlatform :: "engine \<Rightarrow> tid \<Rightarrow> ref option \<Rightarrow> psys \<Rightarrow> psys" where
  [op_defs]: "IdleTask_closeFromPlatform E t mt x = (case mt of None \<Rightarrow> x | Some r \<Rightarrow> closeTask E t True r x)"

text \<open>The interface value of the work map: the method of the dynamic type.\<close>

definition closeFromPlatform :: "engine \<Rightarrow> tid \<Rightarrow> ref \<Rightarrow> psys \<Rightarrow> psys" where
  [op_defs]: "closeFromPlatform E t r x =
     (if t_idle (ptasks x r) then IdleTask_closeFromPlatform E t (Some r) x else Task_closeFromPlatform E t (Some r) x)"

section \<open>Ready-made implementations\<close>

text \<open>The result of \<open>runTransferred\<close> and Close is dropped.\<close>

definition dropResult :: "'a presult \<Rightarrow> unit presult" where
  [op_defs]: "dropResult m = (Inr (), snd m)"

definition PlatformImplDefaults :: "engine \<Rightarrow> tid \<Rightarrow> PlatformImpl" where
  [op_defs]: "PlatformImplDefaults E t =
     \<lparr>pi_PostTask = (\<lambda>_ r x. dropResult (Task_runTransferred E t (Some r) x)),
      pi_PostNonNestableTask = (\<lambda>_ r x. dropResult (Task_runTransferred E t (Some r) x)),
      pi_PostDelayedTask = (\<lambda>_ r _ x. dropResult (Task_runTransferred E t (Some r) x)),
      pi_PostNonNestableDelayedTask = (\<lambda>_ r _ x. dropResult (Task_runTransferred E t (Some r) x)),
      pi_PostIdleTask = (\<lambda>_ r x. dropResult (IdleTask_runTransferred E t (Some r) 0 x)),
      pi_Close = None\<rparr>"

record PlatformImplFuncs =
  pf_Task :: "(uintptr \<Rightarrow> ref \<Rightarrow> psys \<Rightarrow> unit presult) option"
  pf_NonNestableTask :: "(uintptr \<Rightarrow> ref \<Rightarrow> psys \<Rightarrow> unit presult) option"
  pf_DelayedTask :: "(uintptr \<Rightarrow> ref \<Rightarrow> 64 word \<Rightarrow> psys \<Rightarrow> unit presult) option"
  pf_NonNestableDelayedTask :: "(uintptr \<Rightarrow> ref \<Rightarrow> 64 word \<Rightarrow> psys \<Rightarrow> unit presult) option"
  pf_IdleTask :: "(uintptr \<Rightarrow> ref \<Rightarrow> psys \<Rightarrow> unit presult) option"

definition PlatformImplOf :: "engine \<Rightarrow> tid \<Rightarrow> PlatformImplFuncs \<Rightarrow> PlatformImpl" where
  [op_defs]: "PlatformImplOf E t f =
     \<lparr>pi_PostTask = (\<lambda>i r x. case pf_Task f of Some g \<Rightarrow> g i r x | None \<Rightarrow> dropResult (Task_Close E t (Some r) x)),
      pi_PostNonNestableTask = (\<lambda>i r x. case pf_NonNestableTask f of Some g \<Rightarrow> g i r x | None \<Rightarrow> dropResult (Task_Close E t (Some r) x)),
      pi_PostDelayedTask = (\<lambda>i r d x. case pf_DelayedTask f of Some g \<Rightarrow> g i r d x | None \<Rightarrow> dropResult (Task_Close E t (Some r) x)),
      pi_PostNonNestableDelayedTask =
        (\<lambda>i r d x. case pf_NonNestableDelayedTask f of Some g \<Rightarrow> g i r d x | None \<Rightarrow> dropResult (Task_Close E t (Some r) x)),
      pi_PostIdleTask = (\<lambda>i r x. case pf_IdleTask f of Some g \<Rightarrow> g i r x | None \<Rightarrow> dropResult (IdleTask_Close E t (Some r) x)),
      pi_Close = None\<rparr>"

section \<open>The dispatcher\<close>

datatype dispatchKind =
    platformDispatchTask | platformDispatchNonNestable | platformDispatchDelayed
  | platformDispatchNonNestableDelayed | platformDispatchIdle | platformDispatchDrop

definition dispatch_kind :: "32 word \<Rightarrow> dispatchKind option" where
  "dispatch_kind k =
     (if k = 0 then Some platformDispatchTask else if k = 1 then Some platformDispatchNonNestable
      else if k = 2 then Some platformDispatchDelayed else if k = 3 then Some platformDispatchNonNestableDelayed
      else if k = 4 then Some platformDispatchIdle else if k = 5 then Some platformDispatchDrop else None)"

record customPlatformFrame =
  cf_kind :: "32 word"
  cf_id :: nat
  cf_isolate :: uintptr
  cf_task :: uintptr
  cf_delay :: "64 word"

text \<open>
  The loop over the drained work runs in an order that Go leaves open: the parameter \<open>ord\<close> permutes it.
  A panic of a callback ends the process through \<open>gov8_host_panic_abort\<close>, as does \<open>fatalHostMisuse\<close>; both are errors here.
\<close>

definition dropCustomPlatformEntry ::
    "engine \<Rightarrow> tid \<Rightarrow> (nat \<Rightarrow> PlatformImpl) \<Rightarrow> (ref list \<Rightarrow> ref list) \<Rightarrow> nat \<Rightarrow> ref \<Rightarrow> psys \<Rightarrow> unit presult" where
  [op_defs]: "dropCustomPlatformEntry E t I ord n e x =
     (let x = dropUnregister n e (dropUncache e x);
          (work, x) = drainLocked e x;
          x = fold (closeFromPlatform E t) (ord work) x
      in case pi_Close (I (pe_impl (pheap x e))) of None \<Rightarrow> (Inr (), x) | Some close \<Rightarrow> close x)"

definition panicAbort :: "engine \<Rightarrow> tid \<Rightarrow> 'a presult \<Rightarrow> 'a presult" where
  [op_defs]: "panicAbort E t m =
     (case m of (Inl e, x) \<Rightarrow> (Inl e, x\<lparr>pbase := snd (shim E t ''gov8_host_panic_abort'' [] (pbase x))\<rparr>) | (Inr v, x) \<Rightarrow> (Inr v, x))"

text \<open>A task is made, handed to the callback, and armed when the callback returns.\<close>

definition dispatchTask ::
    "engine \<Rightarrow> tid \<Rightarrow> bool \<Rightarrow> ref \<Rightarrow> (uintptr \<Rightarrow> ref \<Rightarrow> psys \<Rightarrow> unit presult) \<Rightarrow> uintptr \<Rightarrow> uintptr \<Rightarrow> psys \<Rightarrow> unit presult" where
  [op_defs]: "dispatchTask E t idle e post isol h x =
     (let (r, x) = (if idle then newPlatformIdleTask isol h x else newPlatformTask isol h x)
      in andThen (post isol r x) (\<lambda>_ x. (Inr (), if idle then IdleTask_armFinalizer E t e r x else Task_armFinalizer E t e r x)))"

definition customPlatformDispatch ::
    "engine \<Rightarrow> tid \<Rightarrow> (nat \<Rightarrow> PlatformImpl) \<Rightarrow> (ref list \<Rightarrow> ref list) \<Rightarrow> customPlatformFrame option \<Rightarrow> psys \<Rightarrow> unit presult" where
  [op_defs]: "customPlatformDispatch E t I ord mf x =
     (case mf of
        None \<Rightarrow> (Inl (Misuse ''fatal: custom platform dispatch received a nil frame''), x)
      | Some f \<Rightarrow>
          (case lookupCustomPlatformEntry (cf_id f) x of
             None \<Rightarrow> (Inl (MisuseCount ''fatal: custom platform dispatch for unknown handle'' (cf_id f)), x)
           | Some e \<Rightarrow>
               let impl = I (pe_impl (pheap x e)); isol = cf_isolate f; h = cf_task f;
                   null = isol = 0 \<or> h = 0;
                   post = (\<lambda>p. if null then (Inl (Misuse ''fatal: custom platform task dispatch received a null native handle''), x)
                               else panicAbort E t (dispatchTask E t False e p isol h x))
               in (case dispatch_kind (cf_kind f) of
                     None \<Rightarrow> (Inl (MisuseCount ''fatal: custom platform dispatch for unknown kind'' (unat (cf_kind f))), x)
                   | Some platformDispatchTask \<Rightarrow> post (pi_PostTask impl)
                   | Some platformDispatchNonNestable \<Rightarrow> post (pi_PostNonNestableTask impl)
                   | Some platformDispatchDelayed \<Rightarrow> post (\<lambda>i r. pi_PostDelayedTask impl i r (cf_delay f))
                   | Some platformDispatchNonNestableDelayed \<Rightarrow> post (\<lambda>i r. pi_PostNonNestableDelayedTask impl i r (cf_delay f))
                   | Some platformDispatchIdle \<Rightarrow>
                       if null then (Inl (Misuse ''fatal: custom platform idle dispatch received a null native handle''), x)
                       else panicAbort E t (dispatchTask E t True e (pi_PostIdleTask impl) isol h x)
                   | Some platformDispatchDrop \<Rightarrow> panicAbort E t (dropCustomPlatformEntry E t I ord (cf_id f) e x))))"

section \<open>Consuming a task\<close>

lemma takeTask_Some:
  "takeTask idle (Some r) x =
     (if t_handle (ptasks x r) = 0 then (Inl (Misuse (kindName idle @ '' already consumed'')), x)
      else (Inr (t_handle (ptasks x r)), takeRelease r (t_retention (ptasks x r)) (upd_task r (\<lambda>q. q\<lparr>t_handle := 0, t_retention := None\<rparr>) x)))"
  by (simp add: takeTask_def takeLocked_def)

lemma pOnBase_unitCall:
  "snd (pOnBase (unitCall E t oper p args) x) = x\<lparr>pbase := called t p args (pbase x)\<rparr>"
  by (simp add: pOnBase_def lift_def unitCall_def callErr_eq Let_def snd_andThen)

lemma takeRelease_simps [simp]:
  "pbase (takeRelease r ret x) = pbase x" "t_handle (ptasks (takeRelease r ret x) r') = t_handle (ptasks x r')"
  "pnextTask (takeRelease r ret x) = pnextTask x"
  by (auto simp: takeRelease_def entry_remove_def upd_entry_def upd_task_def split: option.split)

lemma upd_task_simps [simp]:
  "pbase (upd_task r f x) = pbase x" "pheap (upd_task r f x) = pheap x" "pnextTask (upd_task r f x) = pnextTask x"
  "ptasks (upd_task r f x) = (ptasks x)(r := f (ptasks x r))"
  by (simp_all add: upd_task_def)

text \<open>A callback that takes the task it is given and passes the handle to the engine.\<close>

definition consuming :: "engine \<Rightarrow> tid \<Rightarrow> bool \<Rightarrow> string \<Rightarrow> string \<Rightarrow> arg list \<Rightarrow> ref \<Rightarrow> psys \<Rightarrow> unit presult" where
  "consuming E t idle oper p extra r x =
     dropResult (andThen (takeTask idle (Some r) x) (\<lambda>h. pOnBase (unitCall E t oper p (W h # extra))))"

lemma dispatch_consuming:
  assumes "h \<noteq> 0"
  shows "\<exists>y. panicAbort E t (dispatchTask E t idle e (\<lambda>_. consuming E t idle oper p extra) isol h x) = (Inr (), y)
    \<and> pheap y = pheap x \<and> t_handle (ptasks y (pnextTask x)) = 0 \<and> calls (pbase y) = calls (pbase x) @ [Call t p (W h # extra)]"
  using assms
  by (simp add: dispatchTask_def newPlatformTask_def newPlatformIdleTask_def newTask_def Let_def consuming_def dropResult_def
      takeTask_Some snd_andThen pOnBase_unitCall takeRelease_def Task_armFinalizer_def IdleTask_armFinalizer_def armTask_def panicAbort_def)

abbreviation no_callbacks :: PlatformImplFuncs where
  "no_callbacks \<equiv> \<lparr>pf_Task = None, pf_NonNestableTask = None, pf_DelayedTask = None, pf_NonNestableDelayedTask = None, pf_IdleTask = None\<rparr>"

lemma ready_made:
  "pi_PostTask (PlatformImplDefaults E t) = (\<lambda>_. consuming E t False ''Task.Run'' ''gov8_pc_task_run_delete'' [])"
  "pi_PostNonNestableTask (PlatformImplDefaults E t) = (\<lambda>_. consuming E t False ''Task.Run'' ''gov8_pc_task_run_delete'' [])"
  "(\<lambda>i r. pi_PostDelayedTask (PlatformImplDefaults E t) i r d) = (\<lambda>_. consuming E t False ''Task.Run'' ''gov8_pc_task_run_delete'' [])"
  "(\<lambda>i r. pi_PostNonNestableDelayedTask (PlatformImplDefaults E t) i r d) = (\<lambda>_. consuming E t False ''Task.Run'' ''gov8_pc_task_run_delete'' [])"
  "pi_PostIdleTask (PlatformImplDefaults E t) = (\<lambda>_. consuming E t True ''IdleTask.Run'' ''gov8_pc_idle_task_run_delete'' [W 0])"
  "pi_PostTask (PlatformImplOf E t no_callbacks) = (\<lambda>_. consuming E t False ''Task.Close'' ''gov8_pc_task_delete'' [])"
  "pi_PostNonNestableTask (PlatformImplOf E t no_callbacks) = (\<lambda>_. consuming E t False ''Task.Close'' ''gov8_pc_task_delete'' [])"
  "(\<lambda>i r. pi_PostDelayedTask (PlatformImplOf E t no_callbacks) i r d) = (\<lambda>_. consuming E t False ''Task.Close'' ''gov8_pc_task_delete'' [])"
  "(\<lambda>i r. pi_PostNonNestableDelayedTask (PlatformImplOf E t no_callbacks) i r d) = (\<lambda>_. consuming E t False ''Task.Close'' ''gov8_pc_task_delete'' [])"
  "pi_PostIdleTask (PlatformImplOf E t no_callbacks) = (\<lambda>_. consuming E t True ''IdleTask.Close'' ''gov8_pc_idle_task_delete'' [])"
  by (simp_all add: PlatformImplDefaults_def PlatformImplOf_def consuming_def Task_runTransferred_def IdleTask_runTransferred_def
      Task_Close_def IdleTask_Close_def Task_take_def IdleTask_take_def fun_eq_iff)

section \<open>Configuration\<close>

lemma clampThreads_le: "clampThreads n \<le> 16"
  by (simp add: clampThreads_def not_less)

lemma configured:
  assumes "ConfigureCustomPlatform E t d opts impl x = (Inr (), y)"
  obtains z where "impl \<noteq> None" "y = (let (e, z) = registerEntry (the impl) z; z = z\<lparr>pactive := Some e\<rparr>
          in z\<lparr>pbase := (pbase z)\<lparr>selectedCustomPlatform :=
                Some \<lparr>cp_idle = co_IdleTaskSupport opts, cp_unprotected = co_Unprotected opts,
                      cp_threads = clampThreads (co_ThreadPoolSize opts), cp_id = pe_id (pheap z e)\<rparr>\<rparr>\<rparr>)"
  using assms unfolding ConfigureCustomPlatform_def guarded_eq_Inr andThen_eq_Inr Let_def split_def by auto

text \<open>Before any configuration.\<close>

definition pcustom :: "world \<Rightarrow> psys" where
  "pcustom w = \<lparr>pbase = w, pregNext = 0, pentries = Map.empty, pactive = None,
     pheap = (\<lambda>_. \<lparr>pe_id = 0, pe_impl = 0, pe_next = 0, pe_work = [], pe_done = False\<rparr>), pnextEntry = 0,
     ptasks = (\<lambda>_. \<lparr>t_idle = False, t_handle = 0, t_isolate = 0, t_retention = None, t_finalizer = False\<rparr>), pnextTask = 0,
     pdispatcherErr = None\<rparr>"

end
