(* ===== verification/TaskOwnership.thy ===== *)
theory TaskOwnership
  imports CustomPlatform
begin

text \<open>
  Tasks of a custom platform under concurrency. The engine posts tasks and announces the end of the platform on
  arbitrary threads, and any goroutine may run or close a task it was given. \<open>pstep\<close> takes the dispatcher, Run, Close,
  \<open>armFinalizer\<close> and \<open>dropCustomPlatformEntry\<close> apart at their mutexes and atomic operations; a thread carries what it has
  still to do in its \<open>ppc\<close>. The interpretation \<open>task_ownership\<close> shows that whatever the interleaving, the calls of the engine on
  native tasks follow a specification in which a task is posted once and consumed at most once.
\<close>

section \<open>Interleavings\<close>

text \<open>A request of the engine: a post (idle or not, isolate, native task) or the end of the platform.\<close>

datatype preq = RPost bool uintptr uintptr | RDrop

datatype ppc =
    PIdle
  | Finding nat preq
  | Posting ref ref
  | Arming ref ref
  | Releasing ref uintptr "(ref \<times> 64 word) option" bool
  | Consuming ref uintptr bool
  | Dropping nat ref
  | Uncached nat ref
  | Unregistered ref
  | Draining ref "ref list"
  | DrainClosing ref "ref list" ref uintptr "(ref \<times> 64 word) option"

datatype pevent =
    Posted ref ref uintptr
  | Retained ref ref
  | Consumed ref uintptr bool
  | ImplClosed ref

record pconc =
  pst :: psys
  ppcs :: "nat \<Rightarrow> ppc"
  porigin :: "ref \<Rightarrow> ref \<times> uintptr"
  padds :: "ref \<Rightarrow> nat"

datatype pact =
    AStart nat nat preq
  | ATake nat ref bool
  | ANext nat nat

text \<open>
  \<open>AStart\<close> is a call of the dispatcher, \<open>ATake\<close> the first part of Run or Close by an idle goroutine, \<open>ANext\<close> the next
  atomic part of what a thread is doing, its number choosing the item of a loop over a map. The calls that a callback makes on its task are
  those of another goroutine, so that they may end before or after it. Events are the calls of the engine that matter for
  a task; \<open>porigin\<close> and \<open>padds\<close> record for the proofs what was posted and how many tasks an entry has retained.
\<close>

text \<open>What the dispatcher does once it has the entry. A null handle ends the process.\<close>

fun enter :: "preq \<Rightarrow> nat \<Rightarrow> ref \<Rightarrow> psys \<Rightarrow> pevent list \<times> ppc \<times> psys" where
  "enter (RPost idle isol h) n e x =
     (if isol = 0 \<or> h = 0 then ([], PIdle, x)
      else let (r, x) = newTask idle isol h x in ([Posted e r h], Posting e r, x))"
| "enter RDrop n e x = ([], Dropping n e, x)"

fun pnext :: "nat \<Rightarrow> ppc \<Rightarrow> psys \<Rightarrow> pevent list \<times> ppc \<times> psys" where
  "pnext i PIdle x = ([], PIdle, x)"
| "pnext i (Finding n q) x = (case pentries x n of None \<Rightarrow> ([], PIdle, x) | Some e \<Rightarrow> enter q n e x)"
| "pnext i (Posting e r) x = ([], if t_handle (ptasks x r) = 0 then PIdle else Arming e r, x)"
| "pnext i (Arming e r) x =
     (if t_handle (ptasks x r) = 0 then ([], PIdle, x)
      else case armLocked e r x of
             (None, x) \<Rightarrow> ([Retained e r], PIdle, x)
           | (Some h, x) \<Rightarrow> ([], Consuming r h False, x))"
| "pnext i (Releasing r h ret run) x = ([], Consuming r h run, takeRelease r ret x)"
| "pnext i (Consuming r h run) x = ([Consumed r h run], PIdle, x)"
| "pnext i (Dropping n e) x = ([], Uncached n e, dropUncache e x)"
| "pnext i (Uncached n e) x = ([], Unregistered e, dropUnregister n e x)"
| "pnext i (Unregistered e) x = (let (work, x) = drainLocked e x in ([], Draining e work, x))"
| "pnext i (Draining e items) x =
     (if items = [] then ([ImplClosed e], PIdle, x)
      else let j = i mod length items; r = items ! j; rest = take j items @ drop (Suc j) items
           in case closeLocked r x of
                (None, x) \<Rightarrow> ([], Draining e rest, x)
              | (Some (h, ret), x) \<Rightarrow> ([], DrainClosing e rest r h ret, x))"
| "pnext i (DrainClosing e rest r h ret) x = ([Consumed r h False], Draining e rest, clearFinalizer r ret x)"

fun note_event :: "pevent \<Rightarrow> pconc \<Rightarrow> pconc" where
  "note_event (Posted e r h) c = c\<lparr>porigin := (porigin c)(r := (e, h))\<rparr>"
| "note_event (Retained e r) c = c\<lparr>padds := (padds c)(e := Suc (padds c e))\<rparr>"
| "note_event _ c = c"

definition advance :: "nat \<Rightarrow> pevent list \<times> ppc \<times> psys \<Rightarrow> pconc \<Rightarrow> pevent list \<times> pconc" where
  "advance g res c =
     (case res of (es, p, x) \<Rightarrow> (es, fold note_event es (c\<lparr>pst := x, ppcs := (ppcs c)(g := p)\<rparr>)))"

fun pstep :: "pact \<Rightarrow> pconc \<Rightarrow> pevent list \<times> pconc" where
  "pstep (AStart g n q) c =
     (if ppcs c g \<noteq> PIdle then ([], c)
      else advance g (case loadActiveEntry n (pst c) of Some e \<Rightarrow> enter q n e (pst c) | None \<Rightarrow> ([], Finding n q, pst c)) c)"
| "pstep (ATake g r run) c =
     (if ppcs c g \<noteq> PIdle \<or> r \<ge> pnextTask (pst c) then ([], c)
      else case takeLocked (t_idle (ptasks (pst c) r)) r (pst c) of
             (Inl _, x) \<Rightarrow> ([], c)
           | (Inr (h, ret), x) \<Rightarrow> advance g ([], Releasing r h ret run, x) c)"
| "pstep (ANext g i) c = advance g (pnext i (ppcs c g) (pst c)) c"

section \<open>The specification\<close>

text \<open>A task belongs to the entry it was posted to, with its native handle, until it is consumed.\<close>

datatype tstat = Absent | Owned ref uintptr | Gone

fun task_accepts :: "pevent \<Rightarrow> (ref \<Rightarrow> tstat) \<Rightarrow> (ref \<Rightarrow> tstat) option" where
  "task_accepts (Posted e r h) s = (if s r = Absent \<and> h \<noteq> 0 then Some (s(r := Owned e h)) else None)"
| "task_accepts (Retained e r) s = (if \<exists>h. s r = Owned e h then Some s else None)"
| "task_accepts (Consumed r h run) s = (if \<exists>e. s r = Owned e h then Some (s(r := Gone)) else None)"
| "task_accepts (ImplClosed e) s = Some s"

fun holds :: "ppc \<Rightarrow> (ref \<times> uintptr) option" where
  "holds (Releasing r h ret run) = Some (r, h)"
| "holds (Consuming r h run) = Some (r, h)"
| "holds (DrainClosing e rest r h ret) = Some (r, h)"
| "holds _ = None"

fun posts :: "ppc \<Rightarrow> (ref \<times> ref) option" where
  "posts (Posting e r) = Some (e, r)"
| "posts (Arming e r) = Some (e, r)"
| "posts _ = None"

fun drains :: "ppc \<Rightarrow> (ref \<times> ref list) option" where
  "drains (Draining e rs) = Some (e, rs)"
| "drains (DrainClosing e rs r h ret) = Some (e, rs)"
| "drains _ = None"

definition held :: "pconc \<Rightarrow> ref \<Rightarrow> bool" where
  "held c r \<longleftrightarrow> (\<exists>g h. holds (ppcs c g) = Some (r, h))"

definition task_states :: "pconc \<Rightarrow> ref \<Rightarrow> tstat" where
  "task_states c r =
     (if pnextTask (pst c) \<le> r then Absent
      else if t_handle (ptasks (pst c) r) \<noteq> 0 \<or> held c r then Owned (fst (porigin c r)) (snd (porigin c r)) else Gone)"

definition own_inv :: "pconc \<Rightarrow> bool" where
  "own_inv c \<longleftrightarrow>
     (\<forall>r < pnextTask (pst c). t_handle (ptasks (pst c) r) \<noteq> 0 \<longrightarrow> snd (porigin c r) = t_handle (ptasks (pst c) r))
     \<and> (\<forall>g r h. holds (ppcs c g) = Some (r, h) \<longrightarrow>
          r < pnextTask (pst c) \<and> t_handle (ptasks (pst c) r) = 0 \<and> snd (porigin c r) = h)
     \<and> (\<forall>g g' r h h'. holds (ppcs c g) = Some (r, h) \<longrightarrow> holds (ppcs c g') = Some (r, h') \<longrightarrow> g = g')
     \<and> (\<forall>g e r. posts (ppcs c g) = Some (e, r) \<longrightarrow> r < pnextTask (pst c) \<and> fst (porigin c r) = e)
     \<and> (\<forall>e k r. (k, r) \<in> set (pe_work (pheap (pst c) e)) \<longrightarrow> r < pnextTask (pst c))
     \<and> (\<forall>g e rs r. drains (ppcs c g) = Some (e, rs) \<longrightarrow> r \<in> set rs \<longrightarrow> r < pnextTask (pst c))"

lemma own_invI:
  assumes "\<And>r. r < pnextTask (pst c) \<Longrightarrow> t_handle (ptasks (pst c) r) \<noteq> 0 \<Longrightarrow> snd (porigin c r) = t_handle (ptasks (pst c) r)"
    and "\<And>g r h. holds (ppcs c g) = Some (r, h) \<Longrightarrow>
          r < pnextTask (pst c) \<and> t_handle (ptasks (pst c) r) = 0 \<and> snd (porigin c r) = h"
    and "\<And>g g' r h h'. holds (ppcs c g) = Some (r, h) \<Longrightarrow> holds (ppcs c g') = Some (r, h') \<Longrightarrow> g = g'"
    and "\<And>g e r. posts (ppcs c g) = Some (e, r) \<Longrightarrow> r < pnextTask (pst c) \<and> fst (porigin c r) = e"
    and "\<And>e k r. (k, r) \<in> set (pe_work (pheap (pst c) e)) \<Longrightarrow> r < pnextTask (pst c)"
    and "\<And>g e rs r. drains (ppcs c g) = Some (e, rs) \<Longrightarrow> r \<in> set rs \<Longrightarrow> r < pnextTask (pst c)"
  shows "own_inv c"
  using assms unfolding own_inv_def by blast

lemma own_invD:
  assumes "own_inv c"
  shows "r < pnextTask (pst c) \<Longrightarrow> t_handle (ptasks (pst c) r) \<noteq> 0 \<Longrightarrow> snd (porigin c r) = t_handle (ptasks (pst c) r)"
    and "holds (ppcs c g) = Some (r, h) \<Longrightarrow> r < pnextTask (pst c)"
    and "holds (ppcs c g) = Some (r, h) \<Longrightarrow> t_handle (ptasks (pst c) r) = 0"
    and "holds (ppcs c g) = Some (r, h) \<Longrightarrow> snd (porigin c r) = h"
    and "holds (ppcs c g) = Some (r, h) \<Longrightarrow> holds (ppcs c g') = Some (r, h') \<Longrightarrow> g = g'"
    and "posts (ppcs c g) = Some (e, r) \<Longrightarrow> r < pnextTask (pst c)"
    and "posts (ppcs c g) = Some (e, r) \<Longrightarrow> fst (porigin c r) = e"
    and "(k, r) \<in> set (pe_work (pheap (pst c) e)) \<Longrightarrow> r < pnextTask (pst c)"
    and "drains (ppcs c g) = Some (e, rs) \<Longrightarrow> r \<in> set rs \<Longrightarrow> r < pnextTask (pst c)"
  using assms unfolding own_inv_def by blast+

lemma own_inv_padds [simp]: "own_inv (c\<lparr>padds := a\<rparr>) = own_inv c" "task_states (c\<lparr>padds := a\<rparr>) = task_states c"
  by (simp_all add: own_inv_def task_states_def held_def fun_eq_iff)

text \<open>Four kinds of moves of a thread: nothing changes hands, a task appears, a handle is taken, and it is consumed.\<close>

lemma own_quiet:
  assumes c: "own_inv c" and p: "holds p = holds (ppcs c g)" "posts p = None \<or> posts p = posts (ppcs c g)"
    and "\<And>e rs r. drains p = Some (e, rs) \<Longrightarrow> r \<in> set rs \<Longrightarrow> r < pnextTask (pst c)"
    and x: "pnextTask x = pnextTask (pst c)" "\<And>r. t_handle (ptasks x r) = t_handle (ptasks (pst c) r)"
    and w: "\<And>e k r. (k, r) \<in> set (pe_work (pheap x e)) \<Longrightarrow> r < pnextTask (pst c)"
  shows "own_inv (c\<lparr>pst := x, ppcs := (ppcs c)(g := p)\<rparr>) \<and> task_states (c\<lparr>pst := x, ppcs := (ppcs c)(g := p)\<rparr>) = task_states c"
proof
  have h: "holds (((ppcs c)(g := p)) g') = holds (ppcs c g')" for g' using p(1) by simp
  have q: "posts (ppcs c g') = Some er" if "posts (((ppcs c)(g := p)) g') = Some er" for g' er
    using that p(2) by (auto split: if_splits)
  show "own_inv (c\<lparr>pst := x, ppcs := (ppcs c)(g := p)\<rparr>)"
  proof (rule own_invI, goal_cases)
    case (1 r)
    then show ?case using own_invD(1) [OF c, of r] by (simp add: x)
  next
    case (2 g' r k)
    then have "holds (ppcs c g') = Some (r, k)" using h by (simp del: fun_upd_apply)
    from own_invD(2-4) [OF c this] show ?case by (simp add: x)
  next
    case (3 g' g'' r k k')
    then have "holds (ppcs c g') = Some (r, k)" "holds (ppcs c g'') = Some (r, k')" using h by (simp_all del: fun_upd_apply)
    then show ?case by (rule own_invD(5) [OF c])
  next
    case (4 g' e r)
    then have "posts (ppcs c g') = Some (e, r)" using q by (simp del: fun_upd_apply)
    from own_invD(6,7) [OF c this] show ?case by (simp add: x)
  next
    case (5 e k r)
    then show ?case using w [of k r e] x(1) by simp
  next
    case (6 g' e rs r)
    then show ?case using assms(4) [of e rs r] own_invD(9) [OF c, of g' e rs r] x(1) by (simp split: if_splits)
  qed
  show "task_states (c\<lparr>pst := x, ppcs := (ppcs c)(g := p)\<rparr>) = task_states c"
    by (auto simp: task_states_def x held_def h fun_eq_iff simp del: fun_upd_apply)
qed

lemma own_post:
  assumes c: "own_inv c" and "holds (ppcs c g) = None" "h \<noteq> 0" "newTask idle isol h (pst c) = (r, x)"
  shows "own_inv (c\<lparr>pst := x, ppcs := (ppcs c)(g := Posting e r), porigin := (porigin c)(r := (e, h))\<rparr>)
    \<and> task_states c r = Absent
    \<and> task_states (c\<lparr>pst := x, ppcs := (ppcs c)(g := Posting e r), porigin := (porigin c)(r := (e, h))\<rparr>) = (task_states c)(r := Owned e h)"
    (is "own_inv ?c \<and> _ \<and> _")
proof (intro conjI)
  have r: "r = pnextTask (pst c)" "pnextTask x = Suc r" "pheap x = pheap (pst c)"
    "ptasks x = (ptasks (pst c))(r := \<lparr>t_idle = idle, t_handle = h, t_isolate = isol, t_retention = None, t_finalizer = False\<rparr>)"
    using assms(4) by (auto simp: newTask_def Let_def)
  show "own_inv ?c"
  proof (rule own_invI, goal_cases)
    case (1 r')
    then show ?case using own_invD(1) [OF c, of r'] by (auto simp: r(1,2,4) less_Suc_eq)
  next
    case (2 g' r' k)
    then have "holds (ppcs c g') = Some (r', k)" by (simp split: if_splits)
    from own_invD(2-4) [OF c this] show ?case by (simp add: r)
  next
    case (3 g' g'' r' k k')
    then have "holds (ppcs c g') = Some (r', k)" "holds (ppcs c g'') = Some (r', k')" by (simp_all split: if_splits)
    then show ?case by (rule own_invD(5) [OF c])
  next
    case (4 g' e' r')
    show ?case
    proof (cases "g' = g")
      case False
      with 4 have "posts (ppcs c g') = Some (e', r')" by simp
      from own_invD(6,7) [OF c this] show ?thesis by (simp add: r)
    qed (use 4 r in simp)
  next
    case (5 e' k r')
    then show ?case using own_invD(8) [OF c, of k r' e'] by (simp add: r)
  next
    case (6 g' e' rs r')
    then show ?case using own_invD(9) [OF c, of g' e' rs r'] by (simp add: r split: if_splits)
  qed
  show "task_states c r = Absent" by (simp add: task_states_def r)
  have "held ?c r' = held c r'" for r' using assms(2) by (auto simp: held_def) (metis option.distinct(1))
  then show "task_states ?c = (task_states c)(r := Owned e h)"
    using assms(3) by (auto simp: task_states_def fun_eq_iff r less_Suc_eq_le)
qed

lemma own_grab:
  assumes c: "own_inv c" and p: "holds (ppcs c g) = None" "posts p = None"
    and r: "r < pnextTask (pst c)" "t_handle (ptasks (pst c) r) = h" "h \<noteq> 0" "holds p = Some (r, h)"
    and "\<And>e rs r. drains p = Some (e, rs) \<Longrightarrow> r \<in> set rs \<Longrightarrow> r < pnextTask (pst c)"
    and x: "pnextTask x = pnextTask (pst c)"
      "\<And>r'. t_handle (ptasks x r') = (if r' = r then 0 else t_handle (ptasks (pst c) r'))" "pheap x = pheap (pst c)"
  shows "own_inv (c\<lparr>pst := x, ppcs := (ppcs c)(g := p)\<rparr>) \<and> task_states (c\<lparr>pst := x, ppcs := (ppcs c)(g := p)\<rparr>) = task_states c"
    (is "own_inv ?c \<and> _")
proof
  have no: "holds (ppcs c g') \<noteq> Some (r, h')" for g' h' using own_invD(3) [OF c, of g' r h'] r by auto
  show "own_inv ?c"
  proof (rule own_invI, goal_cases)
    case (1 r')
    then show ?case using own_invD(1) [OF c, of r'] by (simp add: x split: if_splits)
  next
    case (2 g' r' k)
    then show ?case using own_invD(2-4) [OF c, of g' r' k] own_invD(1) [OF c r(1)] r by (auto simp: x split: if_splits)
  next
    case (3 g' g'' r' k k')
    then show ?case using own_invD(5) [OF c, of g' r' k g'' k'] no r(4) by (auto split: if_splits)
  next
    case (4 g' e' r')
    then show ?case using own_invD(6,7) [OF c, of g' e' r'] p(2) by (simp add: x split: if_splits)
  next
    case (5 e' k r')
    then show ?case using own_invD(8) [OF c, of k r' e'] by (simp add: x)
  next
    case (6 g' e' rs r')
    then show ?case using own_invD(9) [OF c, of g' e' rs r'] assms(8) [of e' rs r'] by (simp add: x split: if_splits)
  qed
  have "(\<exists>k. holds (((ppcs c)(g := p)) g') = Some (r', k)) \<longleftrightarrow> g' = g \<and> r' = r \<or> (\<exists>k. holds (ppcs c g') = Some (r', k))" for g' r'
    using p(1) r(4) by (cases "g' = g") auto
  then have h: "held ?c r' = (r' = r \<or> held c r')" for r' by (auto simp: held_def simp del: fun_upd_apply)
  show "task_states ?c = task_states c"
  proof
    fix r'
    show "task_states ?c r' = task_states c r'" using r(1-3) h [of r'] by (cases "r' = r") (simp_all add: task_states_def x)
  qed
qed

lemma own_consume:
  assumes c: "own_inv c" and p: "holds (ppcs c g) = Some (r, h)" "holds p = None" "posts p = None"
    and "\<And>e rs r. drains p = Some (e, rs) \<Longrightarrow> r \<in> set rs \<Longrightarrow> r < pnextTask (pst c)"
    and x: "pnextTask x = pnextTask (pst c)" "\<And>r. t_handle (ptasks x r) = t_handle (ptasks (pst c) r)" "pheap x = pheap (pst c)"
  shows "own_inv (c\<lparr>pst := x, ppcs := (ppcs c)(g := p)\<rparr>)
    \<and> task_states c r = Owned (fst (porigin c r)) h
    \<and> task_states (c\<lparr>pst := x, ppcs := (ppcs c)(g := p)\<rparr>) = (task_states c)(r := Gone)"
    (is "own_inv ?c \<and> _ \<and> _")
proof (intro conjI)
  show "own_inv ?c"
  proof (rule own_invI, goal_cases)
    case (1 r')
    then show ?case using own_invD(1) [OF c, of r'] by (simp add: x)
  next
    case (2 g' r' k)
    then show ?case using own_invD(2-4) [OF c, of g' r' k] p(2) by (simp add: x split: if_splits)
  next
    case (3 g' g'' r' k k')
    then show ?case using own_invD(5) [OF c, of g' r' k g'' k'] p(2) by (simp split: if_splits)
  next
    case (4 g' e' r')
    then show ?case using own_invD(6,7) [OF c, of g' e' r'] p(3) by (simp add: x split: if_splits)
  next
    case (5 e' k r')
    then show ?case using own_invD(8) [OF c, of k r' e'] by (simp add: x)
  next
    case (6 g' e' rs r')
    then show ?case using own_invD(9) [OF c, of g' e' rs r'] assms(5) [of e' rs r'] by (simp add: x split: if_splits)
  qed
  have "held c r" using p by (auto simp: held_def)
  with own_invD(2,4) [OF c p(1)] show "task_states c r = Owned (fst (porigin c r)) h" by (simp add: task_states_def)
  have "(\<exists>k. holds (((ppcs c)(g := p)) g') = Some (r', k)) \<longleftrightarrow> r' \<noteq> r \<and> (\<exists>k. holds (ppcs c g') = Some (r', k))" for g' r'
    using own_invD(5) [OF c p(1), of g'] p by (cases "g' = g") auto
  then have "held ?c r' = (r' \<noteq> r \<and> held c r')" for r' by (simp add: held_def del: fun_upd_apply)
  moreover have "r < pnextTask (pst c)" "t_handle (ptasks (pst c) r) = 0" using own_invD(2,3) [OF c p(1)] by auto
  ultimately show "task_states ?c = (task_states c)(r := Gone)"
    by (auto simp: task_states_def x fun_eq_iff)
qed


lemma closeLocked_cases:
  obtains "t_handle (ptasks x r) = 0" "closeLocked r x = (None, x)"
  | "t_handle (ptasks x r) \<noteq> 0"
    "closeLocked r x = (Some (t_handle (ptasks x r), t_retention (ptasks x r)), upd_task r (\<lambda>q. q\<lparr>t_handle := 0, t_retention := None\<rparr>) x)"
  by (auto simp: closeLocked_def)

lemma armLocked_cases:
  assumes "t_handle (ptasks x r) \<noteq> 0"
  obtains "pe_done (pheap x e)" "armLocked e r x = (Some (t_handle (ptasks x r)), upd_task r (\<lambda>q. q\<lparr>t_handle := 0\<rparr>) x)"
  | k where "\<not> pe_done (pheap x e)" "k = pe_next (pheap x e) + 1"
    "armLocked e r x = (None, upd_task r (\<lambda>q. q\<lparr>t_retention := Some (e, k), t_finalizer := True\<rparr>)
       (upd_entry e (\<lambda>q. q\<lparr>pe_next := k, pe_work := (k, r) # filter (\<lambda>p. fst p \<noteq> k) (pe_work q)\<rparr>) x))"
  using assms by (auto simp: armLocked_def entry_add_def Let_def)

lemma rest_subset: "set (take j xs @ drop (Suc j) xs) \<subseteq> set xs"
  by (auto dest: in_set_takeD in_set_dropD)

lemma enter_ok:
  assumes c: "own_inv c" and p: "holds (ppcs c g) = None"
  shows "own_inv (snd (advance g (enter q n e (pst c)) c))
    \<and> replay task_accepts (fst (advance g (enter q n e (pst c)) c)) (task_states c) = Some (task_states (snd (advance g (enter q n e (pst c)) c)))"
proof (cases q)
  case (RPost idle isol h)
  show ?thesis
  proof (cases "isol = 0 \<or> h = 0")
    case True
    with own_quiet [OF c, of PIdle g "pst c"] own_invD(8) [OF c] p RPost show ?thesis by (auto simp: advance_def)
  next
    case False
    obtain r x where "newTask idle isol h (pst c) = (r, x)" by fastforce
    with own_post [OF c p _ this, of e] False RPost show ?thesis by (simp add: advance_def)
  qed
next
  case RDrop
  with own_quiet [OF c, of "Dropping n e" g "pst c"] own_invD(8) [OF c] p show ?thesis by (auto simp: advance_def)
qed

lemma pnext_ok:
  assumes c: "own_inv c"
  shows "own_inv (snd (advance g (pnext i (ppcs c g) (pst c)) c))
    \<and> replay task_accepts (fst (advance g (pnext i (ppcs c g) (pst c)) c)) (task_states c)
      = Some (task_states (snd (advance g (pnext i (ppcs c g) (pst c)) c)))"
proof (cases "ppcs c g")
  case PIdle
  with own_quiet [OF c, of PIdle g "pst c"] own_invD(8) [OF c] show ?thesis by (auto simp: advance_def)
next
  case (Finding n q)
  then show ?thesis
    using enter_ok [OF c, of g q n] own_quiet [OF c, of PIdle g "pst c"] own_invD(8) [OF c]
    by (auto simp: advance_def split: option.split)
next
  case (Posting e r)
  then show ?thesis
    using own_quiet [OF c, of "if t_handle (ptasks (pst c) r) = 0 then PIdle else Arming e r" g "pst c"] own_invD(8) [OF c]
    by (auto simp: advance_def)
next
  case (Arming e r)
  show ?thesis
  proof (cases "t_handle (ptasks (pst c) r) = 0")
    case True
    with Arming own_quiet [OF c, of PIdle g "pst c"] own_invD(8) [OF c] show ?thesis by (auto simp: advance_def)
  next
    case False
    have r: "r < pnextTask (pst c)" "fst (porigin c r) = e" using own_invD(6,7) [OF c, of g e r] Arming by auto
    from False show ?thesis
    proof (rule armLocked_cases [where e = e])
      assume a: "armLocked e r (pst c) = (Some (t_handle (ptasks (pst c) r)), upd_task r (\<lambda>q. q\<lparr>t_handle := 0\<rparr>) (pst c))"
      have "own_inv (c\<lparr>pst := upd_task r (\<lambda>q. q\<lparr>t_handle := 0\<rparr>) (pst c), ppcs := (ppcs c)(g := Consuming r (t_handle (ptasks (pst c) r)) False)\<rparr>)
        \<and> task_states (c\<lparr>pst := upd_task r (\<lambda>q. q\<lparr>t_handle := 0\<rparr>) (pst c), ppcs := (ppcs c)(g := Consuming r (t_handle (ptasks (pst c) r)) False)\<rparr>) = task_states c"
        by (rule own_grab [OF c, where r = r and h = "t_handle (ptasks (pst c) r)"]) (use Arming False r in \<open>auto simp: upd_task_def\<close>)
      with Arming False a show ?thesis by (simp add: advance_def)
    next
      fix k
      let ?x = "upd_task r (\<lambda>q. q\<lparr>t_retention := Some (e, k), t_finalizer := True\<rparr>)
       (upd_entry e (\<lambda>q. q\<lparr>pe_next := k, pe_work := (k, r) # filter (\<lambda>p. fst p \<noteq> k) (pe_work q)\<rparr>) (pst c))"
      assume a: "armLocked e r (pst c) = (None, ?x)"
      have "own_inv (c\<lparr>pst := ?x, ppcs := (ppcs c)(g := PIdle)\<rparr>) \<and> task_states (c\<lparr>pst := ?x, ppcs := (ppcs c)(g := PIdle)\<rparr>) = task_states c"
        by (rule own_quiet [OF c]) (use Arming r own_invD(8) [OF c] in \<open>auto simp: upd_task_def upd_entry_def split: if_splits\<close>)
      moreover have "task_states c r = Owned e (snd (porigin c r))" using False r by (simp add: task_states_def)
      ultimately show ?thesis using Arming False a by (simp add: advance_def)
    qed
  qed
next
  case (Releasing r h ret run)
  have "own_inv (c\<lparr>pst := takeRelease r ret (pst c), ppcs := (ppcs c)(g := Consuming r h run)\<rparr>)
    \<and> task_states (c\<lparr>pst := takeRelease r ret (pst c), ppcs := (ppcs c)(g := Consuming r h run)\<rparr>) = task_states c"
    by (rule own_quiet [OF c]) (use Releasing own_invD(8) [OF c] in
      \<open>auto simp: takeRelease_def entry_remove_def upd_task_def upd_entry_def split: option.splits if_splits\<close>)
  with Releasing show ?thesis by (simp add: advance_def)
next
  case (Consuming r h run)
  with own_consume [OF c, of g r h PIdle "pst c"] show ?thesis by (simp add: advance_def)
next
  case (Dropping n e)
  with own_quiet [OF c, of "Uncached n e" g "dropUncache e (pst c)"] own_invD(8) [OF c] show ?thesis
    by (auto simp: advance_def dropUncache_def split: if_splits)
next
  case (Uncached n e)
  with own_quiet [OF c, of "Unregistered e" g "dropUnregister n e (pst c)"] own_invD(8) [OF c] show ?thesis
    by (auto simp: advance_def dropUnregister_def split: if_splits)
next
  case (Unregistered e)
  let ?x = "snd (drainLocked e (pst c))" and ?p = "Draining e (fst (drainLocked e (pst c)))"
  have "own_inv (c\<lparr>pst := ?x, ppcs := (ppcs c)(g := ?p)\<rparr>) \<and> task_states (c\<lparr>pst := ?x, ppcs := (ppcs c)(g := ?p)\<rparr>) = task_states c"
    by (rule own_quiet [OF c]) (use Unregistered own_invD(8) [OF c] in \<open>auto simp: drainLocked_def upd_entry_def split: if_splits\<close>)
  with Unregistered show ?thesis by (simp add: advance_def drainLocked_def)
next
  case (Draining e items)
  show ?thesis
  proof (cases "items = []")
    case True
    with Draining own_quiet [OF c, of PIdle g "pst c"] own_invD(8) [OF c] show ?thesis by (auto simp: advance_def)
  next
    case False
    let ?j = "i mod length items"
    let ?r = "items ! ?j" and ?rest = "take ?j items @ drop (Suc ?j) items"
    have "?r \<in> set items" using False by simp
    then have r: "?r < pnextTask (pst c)" and rest: "\<forall>r' \<in> set ?rest. r' < pnextTask (pst c)"
      using own_invD(9) [OF c, of g e items] Draining rest_subset [of ?j items] by auto
    show ?thesis
    proof (rule closeLocked_cases [of "pst c" ?r])
      assume "closeLocked ?r (pst c) = (None, pst c)"
      with Draining False own_quiet [OF c, of "Draining e ?rest" g "pst c"] rest own_invD(8) [OF c] show ?thesis
        by (auto simp: advance_def Let_def)
    next
      let ?h = "t_handle (ptasks (pst c) ?r)" and ?ret = "t_retention (ptasks (pst c) ?r)"
      let ?x = "upd_task ?r (\<lambda>q. q\<lparr>t_handle := 0, t_retention := None\<rparr>) (pst c)" and ?p = "DrainClosing e ?rest ?r ?h ?ret"
      assume a: "?h \<noteq> 0" "closeLocked ?r (pst c) = (Some (?h, ?ret), ?x)"
      have "own_inv (c\<lparr>pst := ?x, ppcs := (ppcs c)(g := ?p)\<rparr>) \<and> task_states (c\<lparr>pst := ?x, ppcs := (ppcs c)(g := ?p)\<rparr>) = task_states c"
        by (rule own_grab [OF c _ _ r refl a(1)]) (use Draining rest in \<open>auto simp: upd_task_def\<close>)
      with Draining False a show ?thesis by (simp add: advance_def Let_def)
    qed
  qed
next
  case (DrainClosing e rest r h ret)
  have "own_inv (c\<lparr>pst := clearFinalizer r ret (pst c), ppcs := (ppcs c)(g := Draining e rest)\<rparr>)
    \<and> task_states c r = Owned (fst (porigin c r)) h
    \<and> task_states (c\<lparr>pst := clearFinalizer r ret (pst c), ppcs := (ppcs c)(g := Draining e rest)\<rparr>) = (task_states c)(r := Gone)"
    by (rule own_consume [OF c]) (use DrainClosing own_invD(9) [OF c, of g e rest] in \<open>auto simp: clearFinalizer_def upd_task_def\<close>)
  with DrainClosing show ?thesis by (simp add: advance_def)
qed

lemma pstep_ok:
  assumes c: "own_inv c"
  shows "own_inv (snd (pstep a c)) \<and> replay task_accepts (fst (pstep a c)) (task_states c) = Some (task_states (snd (pstep a c)))"
proof (cases a)
  case (AStart g n q)
  then show ?thesis
    using c enter_ok [OF c, of g q n] own_quiet [OF c, of "Finding n q" g "pst c"] own_invD(8) [OF c]
    by (auto simp: advance_def split: option.split)
next
  case (ATake g r run)
  show ?thesis
  proof (cases "ppcs c g = PIdle \<and> r < pnextTask (pst c) \<and> t_handle (ptasks (pst c) r) \<noteq> 0")
    case True
    let ?h = "t_handle (ptasks (pst c) r)" and ?ret = "t_retention (ptasks (pst c) r)"
    let ?x = "upd_task r (\<lambda>q. q\<lparr>t_handle := 0, t_retention := None\<rparr>) (pst c)" and ?p = "Releasing r ?h ?ret run"
    have "own_inv (c\<lparr>pst := ?x, ppcs := (ppcs c)(g := ?p)\<rparr>) \<and> task_states (c\<lparr>pst := ?x, ppcs := (ppcs c)(g := ?p)\<rparr>) = task_states c"
      by (rule own_grab [OF c, where r = r and h = ?h]) (use True in \<open>auto simp: upd_task_def\<close>)
    with True ATake show ?thesis by (simp add: advance_def takeLocked_def)
  next
    case False
    then have "pstep a c = ([], c)" using ATake by (auto simp: takeLocked_def)
    with c show ?thesis by simp
  qed
next
  case (ANext g i)
  then show ?thesis using pnext_ok [OF c, of g i] by simp
qed

interpretation task_ownership: trace_refinement pstep task_accepts task_states own_inv
  by unfold_locales (simp_all add: pstep_ok)

end
