(* ===== verification/TaskRetention.thy ===== *)
theory TaskRetention
  imports TaskOwnership
begin

text \<open>
  No task of a custom platform is lost. A native task that is not yet consumed is with the dispatcher that posts it, in the
  work map of its entry under its number, or with the thread that drops the entry; \<open>keep\<close> says so. Numbers of the work map
  are 64-bit words, so \<open>keep\<close> holds as long as no entry has retained \<open>2 ^ 64\<close> tasks (\<open>bounded\<close>).
\<close>

section \<open>Where a task is\<close>

definition somewhere :: "(nat \<Rightarrow> ppc) \<Rightarrow> (ppc \<Rightarrow> bool) \<Rightarrow> bool" where
  "somewhere P Q \<longleftrightarrow> (\<exists>g. Q (P g))"

lemma somewhere_keep: "somewhere P Q \<Longrightarrow> (Q (P g) \<Longrightarrow> Q p) \<Longrightarrow> somewhere (P(g := p)) Q"
  unfolding somewhere_def by (metis fun_upd_apply)

lemma somewhere_upd: "Q p \<Longrightarrow> somewhere (P(g := p)) Q"
  by (auto simp: somewhere_def)

abbreviation postedBy :: "(nat \<Rightarrow> ppc) \<Rightarrow> ref \<Rightarrow> ref \<Rightarrow> bool" where
  "postedBy P e r \<equiv> somewhere P (\<lambda>p. posts p = Some (e, r))"

abbreviation drainedBy :: "(nat \<Rightarrow> ppc) \<Rightarrow> ref \<Rightarrow> ref \<Rightarrow> bool" where
  "drainedBy P e r \<equiv> somewhere P (\<lambda>p. \<exists>rs. drains p = Some (e, rs) \<and> r \<in> set rs)"

fun clears :: "ppc \<Rightarrow> ref option" where
  "clears (Releasing r h (Some ek) run) = Some r"
| "clears (DrainClosing e rs r h (Some ek)) = Some r"
| "clears _ = None"

abbreviation clearedBy :: "(nat \<Rightarrow> ppc) \<Rightarrow> ref \<Rightarrow> bool" where
  "clearedBy P r \<equiv> somewhere P (\<lambda>p. clears p = Some r)"

definition keep :: "psys \<Rightarrow> (nat \<Rightarrow> ppc) \<Rightarrow> (ref \<Rightarrow> ref \<times> uintptr) \<Rightarrow> (ref \<Rightarrow> nat) \<Rightarrow> bool" where
  "keep x P orig adds \<longleftrightarrow>
     (\<forall>e. pe_next (pheap x e) = of_nat (adds e))
     \<and> (\<forall>e k r. (k, r) \<in> set (pe_work (pheap x e)) \<longrightarrow> unat k \<le> adds e)
     \<and> (\<forall>e k r r'. t_retention (ptasks x r) = Some (e, k) \<longrightarrow> unat k \<le> adds e \<and> ((k, r') \<in> set (pe_work (pheap x e)) \<longrightarrow> r' = r))
     \<and> (\<forall>g e k r r' h run. P g = Releasing r h (Some (e, k)) run \<longrightarrow> unat k \<le> adds e \<and> ((k, r') \<in> set (pe_work (pheap x e)) \<longrightarrow> r' = r))
     \<and> (\<forall>e. pe_done (pheap x e) \<longrightarrow> pe_work (pheap x e) = [])
     \<and> (\<forall>r < pnextTask x. t_handle (ptasks x r) \<noteq> 0 \<longrightarrow> t_retention (ptasks x r) = None \<longrightarrow> postedBy P (fst (orig r)) r)
     \<and> (\<forall>e k r. t_retention (ptasks x r) = Some (e, k) \<longrightarrow> r < pnextTask x \<and> t_handle (ptasks x r) \<noteq> 0 \<and> fst (orig r) = e)
     \<and> (\<forall>e k r. t_retention (ptasks x r) = Some (e, k) \<longrightarrow> (k, r) \<in> set (pe_work (pheap x e)) \<or> drainedBy P e r)
     \<and> (\<forall>g e r. posts (P g) = Some (e, r) \<longrightarrow> t_retention (ptasks x r) = None \<and> \<not> t_finalizer (ptasks x r))
     \<and> (\<forall>g g' e e' r. posts (P g) = Some (e, r) \<longrightarrow> posts (P g') = Some (e', r) \<longrightarrow> g = g')
     \<and> (\<forall>r. t_finalizer (ptasks x r) \<longrightarrow> r < pnextTask x \<and> (t_retention (ptasks x r) \<noteq> None \<or> clearedBy P r))"

lemma keepI:
  assumes "\<And>e. pe_next (pheap x e) = of_nat (adds e)"
    "\<And>e k r. (k, r) \<in> set (pe_work (pheap x e)) \<Longrightarrow> unat k \<le> adds e"
    "\<And>e k r r'. t_retention (ptasks x r) = Some (e, k) \<Longrightarrow> unat k \<le> adds e \<and> ((k, r') \<in> set (pe_work (pheap x e)) \<longrightarrow> r' = r)"
    "\<And>g e k r r' h run. P g = Releasing r h (Some (e, k)) run \<Longrightarrow> unat k \<le> adds e \<and> ((k, r') \<in> set (pe_work (pheap x e)) \<longrightarrow> r' = r)"
    "\<And>e. pe_done (pheap x e) \<Longrightarrow> pe_work (pheap x e) = []"
    "\<And>r. r < pnextTask x \<Longrightarrow> t_handle (ptasks x r) \<noteq> 0 \<Longrightarrow> t_retention (ptasks x r) = None \<Longrightarrow> postedBy P (fst (orig r)) r"
    "\<And>e k r. t_retention (ptasks x r) = Some (e, k) \<Longrightarrow> r < pnextTask x \<and> t_handle (ptasks x r) \<noteq> 0 \<and> fst (orig r) = e"
    "\<And>e k r. t_retention (ptasks x r) = Some (e, k) \<Longrightarrow> (k, r) \<in> set (pe_work (pheap x e)) \<or> drainedBy P e r"
    "\<And>g e r. posts (P g) = Some (e, r) \<Longrightarrow> t_retention (ptasks x r) = None \<and> \<not> t_finalizer (ptasks x r)"
    "\<And>g g' e e' r. posts (P g) = Some (e, r) \<Longrightarrow> posts (P g') = Some (e', r) \<Longrightarrow> g = g'"
    "\<And>r. t_finalizer (ptasks x r) \<Longrightarrow> r < pnextTask x \<and> (t_retention (ptasks x r) \<noteq> None \<or> clearedBy P r)"
  shows "keep x P orig adds"
  unfolding keep_def
  by (intro conjI allI impI) (auto intro: assms(1,5,6,10) dest: assms(2,3,4,7,8,9,11) simp del: not_None_eq)

lemmas keepD =
  keep_def [THEN iffD1, THEN conjunct1, rule_format]
  keep_def [THEN iffD1, THEN conjunct2, THEN conjunct1, rule_format]
  keep_def [THEN iffD1, THEN conjunct2, THEN conjunct2, THEN conjunct1, rule_format]
  keep_def [THEN iffD1, THEN conjunct2, THEN conjunct2, THEN conjunct2, THEN conjunct1, rule_format]
  keep_def [THEN iffD1, THEN conjunct2, THEN conjunct2, THEN conjunct2, THEN conjunct2, THEN conjunct1, rule_format]
  keep_def [THEN iffD1, THEN conjunct2, THEN conjunct2, THEN conjunct2, THEN conjunct2, THEN conjunct2, THEN conjunct1, rule_format]
  keep_def [THEN iffD1, THEN conjunct2, THEN conjunct2, THEN conjunct2, THEN conjunct2, THEN conjunct2, THEN conjunct2, THEN conjunct1, rule_format]
  keep_def [THEN iffD1, THEN conjunct2, THEN conjunct2, THEN conjunct2, THEN conjunct2, THEN conjunct2, THEN conjunct2, THEN conjunct2, THEN conjunct1, rule_format]
  keep_def [THEN iffD1, THEN conjunct2, THEN conjunct2, THEN conjunct2, THEN conjunct2, THEN conjunct2, THEN conjunct2, THEN conjunct2, THEN conjunct2, THEN conjunct1, rule_format]
  keep_def [THEN iffD1, THEN conjunct2, THEN conjunct2, THEN conjunct2, THEN conjunct2, THEN conjunct2, THEN conjunct2, THEN conjunct2, THEN conjunct2, THEN conjunct2, THEN conjunct1, rule_format]
  keep_def [THEN iffD1, THEN conjunct2, THEN conjunct2, THEN conjunct2, THEN conjunct2, THEN conjunct2, THEN conjunct2, THEN conjunct2, THEN conjunct2, THEN conjunct2, THEN conjunct2, rule_format]

text \<open>A thread that moves without touching tasks or work.\<close>

lemma keep_quiet:
  assumes k: "keep x P orig adds"
    and y: "ptasks y = ptasks x" "pheap y = pheap x" "pnextTask y = pnextTask x"
    and p: "posts p = posts (P g) \<or> posts p = None \<and> (\<forall>e r. posts (P g) = Some (e, r) \<longrightarrow> t_handle (ptasks x r) = 0)"
      "drains (P g) = None \<or> drains p = drains (P g) \<or> (\<exists>e. drains (P g) = Some (e, []))"
      "clears (P g) = None" "clears p = None"
  shows "keep y (P(g := p)) orig adds"
proof (rule keepI, goal_cases)
  case (4 g' e k r r' h run)
  then show ?case using keepD(4) [OF k, of g' r h e k run r'] p(4) by (cases "g' = g") (auto simp: y)
next
  case (6 r)
  then have "postedBy P (fst (orig r)) r" using keepD(6) [OF k, of r] by (simp add: y)
  then show ?case by (rule somewhere_keep) (use 6(2) p(1) in \<open>auto simp: y\<close>)
next
  case (8 e k r)
  then have "(k, r) \<in> set (pe_work (pheap x e)) \<or> drainedBy P e r" using keepD(8) [OF k, of r e k] by (simp add: y)
  then show ?case
  proof
    assume "drainedBy P e r"
    then have "drainedBy (P(g := p)) e r" by (rule somewhere_keep) (use p(2) in auto)
    then show ?thesis ..
  qed (simp add: y)
next
  case (9 g' e r)
  then show ?case using keepD(9) [OF k, of g' e r] keepD(9) [OF k, of g e r] p(1) by (auto simp: y split: if_splits)
next
  case (10 g' g'' e e' r)
  then show ?case using keepD(10) [OF k, of _ e r _ e'] p(1) by (auto split: if_splits)
next
  case (11 r)
  then show ?case using keepD(11) [OF k, of r] p(3) somewhere_keep [of P "\<lambda>p. clears p = Some r" g p] by (auto simp: y)
qed (use keepD [OF k] in \<open>simp_all add: y\<close>)


lemma keep_post:
  assumes k: "keep x P orig adds" and p: "posts (P g) = None" "drains (P g) = None" "clears (P g) = None"
    and new: "newTask idle isol h x = (r, y)"
    and old: "\<And>g' e' r'. posts (P g') = Some (e', r') \<Longrightarrow> r' < pnextTask x"
  shows "keep y (P(g := Posting e r)) (orig(r := (e, h))) adds"
proof -
  have r: "r = pnextTask x" "pnextTask y = Suc r" "pheap y = pheap x"
    "ptasks y = (ptasks x)(r := \<lparr>t_idle = idle, t_handle = h, t_isolate = isol, t_retention = None, t_finalizer = False\<rparr>)"
    using new by (auto simp: newTask_def Let_def)
  show ?thesis
  proof (rule keepI, goal_cases)
    case (3 e' n r1 r2)
    then show ?case using keepD(3) [OF k, of r1 e' n r2] by (auto simp: r split: if_splits)
  next
    case (4 g' e' n r1 r2 h' run)
    then show ?case using keepD(4) [OF k, of g' r1 h' e' n run r2] by (auto simp: r split: if_splits)
  next
    case (6 r')
    show ?case
    proof (cases "r' = r")
      case False
      with 6 keepD(6) [OF k, of r'] have "postedBy P (fst (orig r')) r'" by (auto simp: r less_Suc_eq)
      then have "postedBy (P(g := Posting e r)) (fst (orig r')) r'" by (rule somewhere_keep) (simp add: p)
      with False show ?thesis by simp
    qed (simp add: somewhere_upd)
  next
    case (7 e' n r')
    then show ?case using keepD(7) [OF k, of r' e' n] by (auto simp: r split: if_splits)
  next
    case (8 e' n r')
    then have "(n, r') \<in> set (pe_work (pheap x e')) \<or> drainedBy P e' r'"
      using keepD(8) [OF k, of r' e' n] by (auto simp: r split: if_splits)
    then show ?case by (auto simp: r intro: somewhere_keep simp del: fun_upd_apply) (use p(2) somewhere_keep in fastforce)
  next
    case (9 g' e' r')
    then show ?case using keepD(9) [OF k, of g' e' r'] old [of g' e' r'] by (auto simp: r split: if_splits)
  next
    case (10 g' g'' e1 e2 r')
    then show ?case using keepD(10) [OF k, of g' e1 r' g'' e2] old [of g' e1 r'] old [of g'' e2 r'] by (auto simp: r split: if_splits)
  next
    case (11 r')
    then show ?case using keepD(11) [OF k, of r'] somewhere_keep [of P "\<lambda>p. clears p = Some r'" g "Posting e r"]
      by (auto simp: r p split: if_splits)
  qed (use keepD(1,2,5) [OF k] in \<open>simp_all add: r\<close>)
qed

text \<open>The handle of a task is taken: a retention goes with it.\<close>

lemma keep_grab:
  assumes k: "keep x P orig adds"
    and y: "y = upd_task r (\<lambda>q. q\<lparr>t_handle := 0, t_retention := None\<rparr>) x"
    and p: "posts (P g) = None \<or> (\<exists>e. posts (P g) = Some (e, r))" "posts p = None"
      "\<And>e r'. r' \<noteq> r \<Longrightarrow> \<exists>rs. drains (P g) = Some (e, rs) \<and> r' \<in> set rs \<Longrightarrow> \<exists>rs. drains p = Some (e, rs) \<and> r' \<in> set rs"
      "clears (P g) = None" "t_retention (ptasks x r) \<noteq> None \<Longrightarrow> clears p = Some r"
      "\<And>h e n run r'. p = Releasing r' h (Some (e, n)) run \<Longrightarrow> r' = r \<and> t_retention (ptasks x r) = Some (e, n)"
  shows "keep y (P(g := p)) orig adds"
proof -
  have t: "pnextTask y = pnextTask x" "pheap y = pheap x"
    "ptasks y = (ptasks x)(r := (ptasks x r)\<lparr>t_handle := 0, t_retention := None\<rparr>)" by (simp_all add: y upd_task_def)
  show ?thesis
  proof (rule keepI, goal_cases)
    case (3 e' n r1 r2)
    then show ?case using keepD(3) [OF k, of r1 e' n r2] by (auto simp: t split: if_splits)
  next
    case (4 g' e' n r1 r2 h' run)
    then show ?case
      using keepD(4) [OF k, of g' r1 h' e' n run r2] p(6) [of r1 h' e' n run] keepD(3) [OF k, of r1 e' n r2]
      by (auto simp: t split: if_splits)
  next
    case (6 r')
    then have "r' \<noteq> r" "postedBy P (fst (orig r')) r'" using keepD(6) [OF k, of r'] by (auto simp: t split: if_splits)
    then show ?case using p(1) by (auto intro!: somewhere_keep)
  next
    case (7 e' n r')
    then show ?case using keepD(7) [OF k, of r' e' n] by (auto simp: t split: if_splits)
  next
    case (8 e' n r')
    then have r': "r' \<noteq> r" "(n, r') \<in> set (pe_work (pheap x e')) \<or> drainedBy P e' r'"
      using keepD(8) [OF k, of r' e' n] by (auto simp: t split: if_splits)
    have "drainedBy P e' r' \<Longrightarrow> drainedBy (P(g := p)) e' r'" by (rule somewhere_keep) (use p(3) r' in auto)
    with r'(2) show ?case by (auto simp: t)
  next
    case (9 g' e' r')
    then show ?case using keepD(9) [OF k, of g' e' r'] p(2) by (auto simp: t split: if_splits)
  next
    case (10 g' g'' e1 e2 r')
    then show ?case using keepD(10) [OF k, of g' e1 r' g'' e2] p(2) by (auto simp: t split: if_splits)
  next
    case (11 r')
    then have f: "t_finalizer (ptasks x r')" by (simp add: t split: if_splits)
    show ?case
    proof (cases "r' = r \<and> t_retention (ptasks x r) \<noteq> None")
      case True
      then have "clearedBy (P(g := p)) r'" using p(5) by (intro somewhere_upd) auto
      with keepD(11) [OF k f] show ?thesis by (simp add: t)
    next
      case False
      have "clearedBy P r' \<Longrightarrow> clearedBy (P(g := p)) r'" by (rule somewhere_keep) (use p(4) in auto)
      with keepD(11) [OF k f] False show ?thesis by (auto simp: t split: if_splits)
    qed
  qed (use keepD(1,2,5) [OF k] in \<open>simp_all add: t\<close>)
qed

lemma keep_retain:
  assumes k: "keep x P orig adds" and p: "P g = Arming e r" "r < pnextTask x" "fst (orig r) = e" "t_handle (ptasks x r) \<noteq> 0"
    and d: "\<not> pe_done (pheap x e)" "n = pe_next (pheap x e) + 1" "Suc (adds e) < 2 ^ 64"
    and y: "y = upd_task r (\<lambda>q. q\<lparr>t_retention := Some (e, n), t_finalizer := True\<rparr>)
       (upd_entry e (\<lambda>q. q\<lparr>pe_next := n, pe_work := (n, r) # filter (\<lambda>p. fst p \<noteq> n) (pe_work q)\<rparr>) x)"
  shows "keep y (P(g := PIdle)) orig (adds(e := Suc (adds e)))"
proof -
  have n: "n = of_nat (Suc (adds e))" using keepD(1) [OF k, of e] d(2) by simp
  then have u: "unat n = Suc (adds e)" using d(3) by (simp add: unsigned_of_nat take_bit_nat_eq_self del: of_nat_Suc)
  have work: "pe_work (pheap y e') = (if e' = e then (n, r) # pe_work (pheap x e) else pe_work (pheap x e'))" for e'
    using keepD(2) [OF k, of n _ e] u by (fastforce simp: y upd_task_def upd_entry_def filter_id_conv)
  have t: "pnextTask y = pnextTask x" "pe_next (pheap y e') = (if e' = e then n else pe_next (pheap x e'))"
    "pe_done (pheap y e') = pe_done (pheap x e')"
    "ptasks y = (ptasks x)(r := (ptasks x r)\<lparr>t_retention := Some (e, n), t_finalizer := True\<rparr>)" for e'
    by (simp_all add: y upd_task_def upd_entry_def)
  have r: "t_retention (ptasks x r) = None" using keepD(9) [OF k, of g e r] p(1) by simp
  show ?thesis
  proof (rule keepI, goal_cases)
    case (1 e')
    then show ?case using keepD(1) [OF k, of e'] n by (simp add: t)
  next
    case (2 e' k' r')
    then show ?case using keepD(2) [OF k, of k' r' e'] u by (auto simp: work split: if_splits)
  next
    case (3 e' k' r1 r2)
    show ?case
    proof (cases "r1 = r")
      case True
      with 3 have "e' = e" "k' = n" by (auto simp: t)
      with True u keepD(2) [OF k, of n r2 e] show ?thesis by (auto simp: work)
    next
      case False
      with 3 have "t_retention (ptasks x r1) = Some (e', k')" by (simp add: t)
      from keepD(3) [OF k this, of r2] u show ?thesis by (auto simp: work)
    qed
  next
    case (4 g' e' k' r1 r2 h' run)
    then have "P g' = Releasing r1 h' (Some (e', k')) run" by (simp split: if_splits)
    from keepD(4) [OF k this, of r2] u show ?case by (auto simp: work)
  next
    case (5 e')
    then show ?case using keepD(5) [OF k, of e'] d(1) by (auto simp: t work)
  next
    case (6 r')
    then have "r' \<noteq> r" "postedBy P (fst (orig r')) r'" using keepD(6) [OF k, of r'] by (auto simp: t split: if_splits)
    then show ?case using p(1) by (auto intro!: somewhere_keep)
  next
    case (7 e' k' r')
    then show ?case using keepD(7) [OF k, of r' e' k'] p by (auto simp: t split: if_splits)
  next
    case (8 e' k' r')
    have "drainedBy P e' r' \<Longrightarrow> drainedBy (P(g := PIdle)) e' r'" by (rule somewhere_keep) (use p(1) in auto)
    with 8 keepD(8) [OF k, of r' e' k'] show ?case by (auto simp: t work split: if_splits)
  next
    case (9 g' e' r')
    then have "g' \<noteq> g" "posts (P g') = Some (e', r')" by (auto split: if_splits)
    moreover from this have "r' \<noteq> r" using keepD(10) [OF k, of g' e' r' g e] p(1) by auto
    ultimately show ?case using keepD(9) [OF k, of g' e' r'] by (simp add: t)
  next
    case (10 g' g'' e1 e2 r')
    then show ?case using keepD(10) [OF k, of g' e1 r' g'' e2] by (auto split: if_splits)
  next
    case (11 r')
    have "clearedBy P r' \<Longrightarrow> clearedBy (P(g := PIdle)) r'" by (rule somewhere_keep) (use p(1) in auto)
    with 11 keepD(11) [OF k, of r'] p(2) show ?case by (auto simp: t split: if_splits)
  qed
qed


text \<open>A released task leaves the work map; nothing else does.\<close>

lemma keep_release:
  assumes k: "keep x P orig adds" and p: "P g = Releasing r h ret run"
    and r: "t_retention (ptasks x r) = None"
  shows "keep (takeRelease r ret x) (P(g := Consuming r h run)) orig adds"
proof (cases ret)
  case None
  with keep_quiet [OF k, of x "Consuming r h run" g] p show ?thesis by (simp add: takeRelease_def)
next
  case (Some en)
  obtain e n where en: "en = (e, n)" by fastforce
  let ?y = "takeRelease r ret x"
  have t: "pnextTask ?y = pnextTask x" "pe_next (pheap ?y e') = pe_next (pheap x e')" "pe_done (pheap ?y e') = pe_done (pheap x e')"
    "ptasks ?y = (ptasks x)(r := (ptasks x r)\<lparr>t_finalizer := False\<rparr>)"
    "pe_work (pheap ?y e') = (if e' = e then filter (\<lambda>p. fst p \<noteq> n) (pe_work (pheap x e)) else pe_work (pheap x e'))" for e'
    by (simp_all add: takeRelease_def Some en entry_remove_def upd_task_def upd_entry_def)
  have mine: "(n, r') \<in> set (pe_work (pheap x e)) \<Longrightarrow> r' = r" for r' using keepD(4) [OF k, of g r h e n run r'] p Some en by simp
  show ?thesis
  proof (rule keepI, goal_cases)
    case (2 e' k' r')
    then show ?case using keepD(2) [OF k, of k' r' e'] by (auto simp: t split: if_splits)
  next
    case (3 e' k' r1 r2)
    then show ?case using keepD(3) [OF k, of r1 e' k' r2] by (auto simp: t split: if_splits)
  next
    case (4 g' e' k' r1 r2 h' run')
    then show ?case using keepD(4) [OF k, of g' r1 h' e' k' run' r2] by (auto simp: t split: if_splits)
  next
    case (5 e')
    then show ?case using keepD(5) [OF k, of e'] by (auto simp: t)
  next
    case (6 r')
    then have "postedBy P (fst (orig r')) r'" using keepD(6) [OF k, of r'] by (auto simp: t split: if_splits)
    then show ?case by (rule somewhere_keep) (simp add: p)
  next
    case (7 e' k' r')
    then show ?case using keepD(7) [OF k, of r' e' k'] by (auto simp: t split: if_splits)
  next
    case (8 e' k' r')
    then have r': "t_retention (ptasks x r') = Some (e', k')" "r' \<noteq> r" using r by (auto simp: t split: if_splits)
    have "drainedBy P e' r' \<Longrightarrow> drainedBy (P(g := Consuming r h run)) e' r'" by (rule somewhere_keep) (use p in auto)
    with keepD(8) [OF k r'(1)] mine [of r'] r'(2) show ?case by (auto simp: t)
  next
    case (9 g' e' r')
    then show ?case using keepD(9) [OF k, of g' e' r'] by (auto simp: t split: if_splits)
  next
    case (10 g' g'' e1 e2 r')
    then show ?case using keepD(10) [OF k, of g' e1 r' g'' e2] by (auto split: if_splits)
  next
    case (11 r')
    then have r': "r' \<noteq> r" "t_finalizer (ptasks x r')" by (auto simp: t split: if_splits)
    have "clearedBy P r' \<Longrightarrow> clearedBy (P(g := Consuming r h run)) r'" by (rule somewhere_keep) (use p r' Some in auto)
    with keepD(11) [OF k r'(2)] r'(1) show ?case by (auto simp: t)
  qed (use keepD(1) [OF k] in \<open>simp add: t\<close>)
qed

text \<open>The end of an entry moves its work to the thread that drops it.\<close>

lemma keep_drain:
  assumes k: "keep x P orig adds" and p: "P g = Unregistered e"
  shows "keep (snd (drainLocked e x)) (P(g := Draining e (fst (drainLocked e x)))) orig adds"
proof -
  let ?y = "snd (drainLocked e x)" and ?p = "Draining e (map snd (pe_work (pheap x e)))"
  have t: "pnextTask ?y = pnextTask x" "pe_next (pheap ?y e') = pe_next (pheap x e')" "ptasks ?y = ptasks x"
    "pe_work (pheap ?y e') = (if e' = e then [] else pe_work (pheap x e'))"
    "fst (drainLocked e x) = map snd (pe_work (pheap x e))" for e'
    by (simp_all add: drainLocked_def upd_entry_def)
  have d: "pe_done (pheap ?y e') \<Longrightarrow> e' = e \<or> pe_done (pheap x e')" for e' by (simp add: drainLocked_def upd_entry_def split: if_splits)
  show ?thesis
  proof (rule keepI, goal_cases)
    case (4 g' e' k' r1 r2 h' run')
    then show ?case using keepD(4) [OF k, of g' r1 h' e' k' run' r2] by (auto simp: t split: if_splits)
  next
    case (5 e')
    then show ?case using keepD(5) [OF k, of e'] d [of e'] by (auto simp: t)
  next
    case (6 r')
    then have "postedBy P (fst (orig r')) r'" using keepD(6) [OF k, of r'] by (auto simp: t split: if_splits)
    then show ?case by (rule somewhere_keep) (simp add: p)
  next
    case (8 e' k' r')
    then have r': "t_retention (ptasks x r') = Some (e', k')" by (simp add: t)
    have "drainedBy P e' r' \<Longrightarrow> drainedBy (P(g := ?p)) e' r'" by (rule somewhere_keep) (use p in auto)
    moreover have "(k', r') \<in> set (pe_work (pheap x e)) \<Longrightarrow> drainedBy (P(g := ?p)) e r'" by (rule somewhere_upd) force
    ultimately show ?case using keepD(8) [OF k r'] by (auto simp: t)
  next
    case (11 r')
    then have r': "t_finalizer (ptasks x r')" by (simp add: t)
    have "clearedBy P r' \<Longrightarrow> clearedBy (P(g := Draining e (fst (drainLocked e x)))) r'" by (rule somewhere_keep) (use p in auto)
    with keepD(11) [OF k r'] show ?case by (auto simp: t(1,3))
  qed (use keepD(1,2,3,7,9,10) [OF k] in \<open>auto simp: t split: if_splits\<close>)
qed

lemma set_rest: "j < length xs \<Longrightarrow> set xs = insert (xs ! j) (set (take j xs @ drop (Suc j) xs))"
  by (subst id_take_nth_drop [of j xs]) auto

text \<open>An item that is already consumed.\<close>

lemma keep_skip:
  assumes k: "keep x P orig adds" and p: "P g = Draining e items" "j < length items" "t_handle (ptasks x (items ! j)) = 0"
  shows "keep x (P(g := Draining e (take j items @ drop (Suc j) items))) orig adds" (is "keep x (P(g := ?p)) orig adds")
proof (rule keepI, goal_cases)
  case (4 g' e' k' r1 r2 h' run')
  then show ?case using keepD(4) [OF k, of g' r1 h' e' k' run' r2] by (auto split: if_splits)
next
  case (6 r')
  then have "postedBy P (fst (orig r')) r'" by (rule keepD(6) [OF k])
  then show ?case by (rule somewhere_keep) (simp add: p)
next
  case (8 e' k' r')
  then have "r' \<noteq> items ! j" using keepD(7) [OF k, of r' e' k'] p(3) by auto
  then have "drainedBy P e' r' \<Longrightarrow> drainedBy (P(g := ?p)) e' r'"
    by (intro somewhere_keep) (use p set_rest [OF p(2)] in auto)
  with keepD(8) [OF k 8] show ?case by blast
next
  case (11 r')
  have "clearedBy P r' \<Longrightarrow> clearedBy (P(g := ?p)) r'" by (rule somewhere_keep) (use p in auto)
  with keepD(11) [OF k 11] show ?case by blast
qed (use keepD(1,2,3,5,7,9,10) [OF k] in \<open>auto split: if_splits\<close>)

lemma keep_clear:
  assumes k: "keep x P orig adds" and p: "P g = DrainClosing e rest r h ret" and r: "t_retention (ptasks x r) = None"
  shows "keep (clearFinalizer r ret x) (P(g := Draining e rest)) orig adds"
proof (cases ret)
  case None
  with keep_quiet [OF k, of x "Draining e rest" g] p show ?thesis by (simp add: clearFinalizer_def)
next
  case (Some en)
  let ?y = "clearFinalizer r ret x"
  have t: "pnextTask ?y = pnextTask x" "pheap ?y = pheap x" "ptasks ?y = (ptasks x)(r := (ptasks x r)\<lparr>t_finalizer := False\<rparr>)"
    by (simp_all add: clearFinalizer_def Some upd_task_def)
  show ?thesis
  proof (rule keepI, goal_cases)
    case (3 e' k' r1 r2)
    then show ?case using keepD(3) [OF k, of r1 e' k' r2] by (auto simp: t split: if_splits)
  next
    case (4 g' e' k' r1 r2 h' run')
    then show ?case using keepD(4) [OF k, of g' r1 h' e' k' run' r2] by (auto simp: t split: if_splits)
  next
    case (6 r')
    then have "postedBy P (fst (orig r')) r'" using keepD(6) [OF k, of r'] by (auto simp: t split: if_splits)
    then show ?case by (rule somewhere_keep) (simp add: p)
  next
    case (7 e' k' r')
    then show ?case using keepD(7) [OF k, of r' e' k'] by (auto simp: t split: if_splits)
  next
    case (8 e' k' r')
    then have r': "t_retention (ptasks x r') = Some (e', k')" by (auto simp: t split: if_splits)
    have "drainedBy P e' r' \<Longrightarrow> drainedBy (P(g := Draining e rest)) e' r'" by (rule somewhere_keep) (use p in auto)
    with keepD(8) [OF k r'] show ?case by (auto simp: t)
  next
    case (9 g' e' r')
    then show ?case using keepD(9) [OF k, of g' e' r'] by (auto simp: t split: if_splits)
  next
    case (10 g' g'' e1 e2 r')
    then show ?case using keepD(10) [OF k, of g' e1 r' g'' e2] by (auto split: if_splits)
  next
    case (11 r')
    then have r': "r' \<noteq> r" "t_finalizer (ptasks x r')" by (auto simp: t split: if_splits)
    have "clearedBy P r' \<Longrightarrow> clearedBy (P(g := Draining e rest)) r'" by (rule somewhere_keep) (use p r' Some in auto)
    with keepD(11) [OF k r'(2)] r'(1) show ?case by (auto simp: t)
  qed (use keepD(1,2,5) [OF k] in \<open>simp_all add: t\<close>)
qed


section \<open>Every interleaving\<close>

definition bounded :: "pconc \<Rightarrow> bool" where
  "bounded c \<longleftrightarrow> (\<forall>e. padds c e < 2 ^ 64)"

abbreviation kept :: "pconc \<Rightarrow> bool" where
  "kept c \<equiv> keep (pst c) (ppcs c) (porigin c) (padds c)"

lemma enter_keep:
  assumes c: "own_inv c" "kept c" and p: "posts (ppcs c g) = None" "drains (ppcs c g) = None" "clears (ppcs c g) = None"
  shows "kept (snd (advance g (enter q n e (pst c)) c))"
proof (cases q)
  case (RPost idle isol h)
  show ?thesis
  proof (cases "isol = 0 \<or> h = 0")
    case True
    with RPost keep_quiet [OF c(2), of "pst c" PIdle g] p show ?thesis by (simp add: advance_def)
  next
    case False
    obtain r x where "newTask idle isol h (pst c) = (r, x)" by fastforce
    with keep_post [OF c(2) p this own_invD(6) [OF c(1)], where e = e] False RPost show ?thesis by (simp add: advance_def)
  qed
next
  case RDrop
  with keep_quiet [OF c(2), of "pst c" "Dropping n e" g] p show ?thesis by (simp add: advance_def)
qed

lemma retention_dead:
  assumes "own_inv c" "kept c" "holds (ppcs c g) = Some (r, h)"
  shows "t_retention (ptasks (pst c) r) = None"
  using own_invD(3) [OF assms(1,3)] keepD(7) [OF assms(2), of r] by (cases "t_retention (ptasks (pst c) r)") auto

lemma pnext_keep:
  assumes c: "own_inv c" "kept c" and b: "bounded (snd (advance g (pnext i (ppcs c g) (pst c)) c))"
  shows "kept (snd (advance g (pnext i (ppcs c g) (pst c)) c))"
proof (cases "ppcs c g")
  case (Finding n q)
  then show ?thesis
    using enter_keep [OF c, of g q n] keep_quiet [OF c(2), of "pst c" PIdle g]
    by (auto simp: advance_def split: option.split)
next
  case (Posting e r)
  then show ?thesis
    using keep_quiet [OF c(2), of "pst c" "if t_handle (ptasks (pst c) r) = 0 then PIdle else Arming e r" g]
    by (auto simp: advance_def)
next
  case (Arming e r)
  show ?thesis
  proof (cases "t_handle (ptasks (pst c) r) = 0")
    case True
    with Arming keep_quiet [OF c(2), of "pst c" PIdle g] show ?thesis by (auto simp: advance_def)
  next
    case False
    have r: "r < pnextTask (pst c)" "fst (porigin c r) = e" using own_invD(6,7) [OF c(1), of g e r] Arming by auto
    have n: "t_retention (ptasks (pst c) r) = None" using keepD(9) [OF c(2), of g e r] Arming by simp
    from False show ?thesis
    proof (rule armLocked_cases [where e = e])
      assume a: "armLocked e r (pst c) = (Some (t_handle (ptasks (pst c) r)), upd_task r (\<lambda>q. q\<lparr>t_handle := 0\<rparr>) (pst c))"
      have "upd_task r (\<lambda>q. q\<lparr>t_handle := 0\<rparr>) (pst c) = upd_task r (\<lambda>q. q\<lparr>t_handle := 0, t_retention := None\<rparr>) (pst c)"
        using n by (cases "ptasks (pst c) r") (simp add: upd_task_def)
      then have "keep (upd_task r (\<lambda>q. q\<lparr>t_handle := 0\<rparr>) (pst c)) ((ppcs c)(g := Consuming r (t_handle (ptasks (pst c) r)) False)) (porigin c) (padds c)"
        by (rule keep_grab [OF c(2)]) (use Arming n in auto)
      with Arming False a show ?thesis by (simp add: advance_def)
    next
      fix k
      let ?x = "upd_task r (\<lambda>q. q\<lparr>t_retention := Some (e, k), t_finalizer := True\<rparr>)
       (upd_entry e (\<lambda>q. q\<lparr>pe_next := k, pe_work := (k, r) # filter (\<lambda>p. fst p \<noteq> k) (pe_work q)\<rparr>) (pst c))"
      assume a: "\<not> pe_done (pheap (pst c) e)" "k = pe_next (pheap (pst c) e) + 1" "armLocked e r (pst c) = (None, ?x)"
      have "Suc (padds c e) < 2 ^ 64" using b a Arming False by (auto simp: bounded_def advance_def split: if_splits dest: spec [of _ e])
      with keep_retain [OF c(2) Arming r(1,2) False a(1,2) _ refl] Arming False a(3) show ?thesis by (simp add: advance_def)
    qed
  qed
next
  case (Releasing r h ret run)
  with keep_release [OF c(2), of g r h ret run] retention_dead [OF c, of g r h] show ?thesis by (simp add: advance_def)
next
  case (Dropping n e)
  with keep_quiet [OF c(2), of "dropUncache e (pst c)" "Uncached n e" g] show ?thesis by (simp add: advance_def dropUncache_def)
next
  case (Uncached n e)
  with keep_quiet [OF c(2), of "dropUnregister n e (pst c)" "Unregistered e" g] show ?thesis by (simp add: advance_def dropUnregister_def)
next
  case (Unregistered e)
  with keep_drain [OF c(2), of g e] show ?thesis by (simp add: advance_def split_def Let_def)
next
  case (Draining e items)
  show ?thesis
  proof (cases "items = []")
    case True
    with Draining keep_quiet [OF c(2), of "pst c" PIdle g] show ?thesis by (simp add: advance_def)
  next
    case False
    let ?j = "i mod length items"
    let ?r = "items ! ?j" and ?rest = "take ?j items @ drop (Suc ?j) items"
    have j: "?j < length items" using False by simp
    show ?thesis
    proof (rule closeLocked_cases [of "pst c" ?r])
      assume "t_handle (ptasks (pst c) ?r) = 0" "closeLocked ?r (pst c) = (None, pst c)"
      with Draining False keep_skip [OF c(2) Draining j] show ?thesis by (simp add: advance_def Let_def)
    next
      let ?h = "t_handle (ptasks (pst c) ?r)" and ?ret = "t_retention (ptasks (pst c) ?r)"
      let ?x = "upd_task ?r (\<lambda>q. q\<lparr>t_handle := 0, t_retention := None\<rparr>) (pst c)" and ?p = "DrainClosing e ?rest ?r ?h ?ret"
      assume a: "closeLocked ?r (pst c) = (Some (?h, ?ret), ?x)"
      have "keep ?x ((ppcs c)(g := ?p)) (porigin c) (padds c)"
        by (rule keep_grab [OF c(2) refl]) (use Draining set_rest [OF j] in auto)
      with Draining False a show ?thesis by (simp add: advance_def Let_def)
    qed
  qed
next
  case (DrainClosing e rest r h ret)
  with keep_clear [OF c(2), of g e rest r h ret] retention_dead [OF c, of g r h] show ?thesis by (simp add: advance_def)
qed (use keep_quiet [OF c(2), of "pst c" PIdle g] in \<open>simp_all add: advance_def\<close>)

lemma pstep_keep:
  assumes c: "own_inv c" "kept c" and b: "bounded (snd (pstep a c))"
  shows "kept (snd (pstep a c))"
proof (cases a)
  case (AStart g n q)
  then show ?thesis
    using c(2) enter_keep [OF c, of g q n] keep_quiet [OF c(2), of "pst c" "Finding n q" g]
    by (auto simp: advance_def split: option.split)
next
  case (ATake g r run)
  show ?thesis
  proof (cases "ppcs c g = PIdle \<and> r < pnextTask (pst c) \<and> t_handle (ptasks (pst c) r) \<noteq> 0")
    case True
    let ?h = "t_handle (ptasks (pst c) r)" and ?ret = "t_retention (ptasks (pst c) r)"
    have "keep (upd_task r (\<lambda>q. q\<lparr>t_handle := 0, t_retention := None\<rparr>) (pst c)) ((ppcs c)(g := Releasing r ?h ?ret run)) (porigin c) (padds c)"
      by (rule keep_grab [OF c(2) refl]) (use True in auto)
    with True ATake show ?thesis by (simp add: advance_def takeLocked_def)
  next
    case False
    then have "pstep a c = ([], c)" using ATake by (auto simp: takeLocked_def)
    with c show ?thesis by simp
  qed
next
  case (ANext g i)
  then show ?thesis using pnext_keep [OF c, of g i] b by simp
qed

lemma padds_note: "padds c e \<le> padds (fold note_event es c) e"
proof (induction es arbitrary: c)
  case (Cons ev es)
  have "padds c e \<le> padds (note_event ev c) e" by (cases ev) auto
  with Cons.IH [of "note_event ev c"] show ?case by simp
qed simp

lemma padds_step: "padds c e \<le> padds (snd (pstep a c)) e"
proof -
  have "padds c e \<le> padds (snd (advance g res c)) e" for g res
    using padds_note [of "c\<lparr>pst := snd (snd res), ppcs := (ppcs c)(g := fst (snd res))\<rparr>" e "fst res"]
    by (simp add: advance_def split_def)
  then show ?thesis by (cases a) (auto split: option.split sum.split prod.split)
qed

definition task_inv :: "pconc \<Rightarrow> bool" where
  "task_inv c \<longleftrightarrow> own_inv c \<and> (bounded c \<longrightarrow> kept c)"

text \<open>Nothing has been posted yet.\<close>

definition pfresh :: "pconc \<Rightarrow> bool" where
  "pfresh c \<longleftrightarrow> pnextTask (pst c) = 0 \<and> (\<forall>g. ppcs c g = PIdle) \<and> (\<forall>e. padds c e = 0)
     \<and> (\<forall>e. pe_next (pheap (pst c) e) = 0 \<and> pe_work (pheap (pst c) e) = [])
     \<and> (\<forall>r. t_retention (ptasks (pst c) r) = None \<and> \<not> t_finalizer (ptasks (pst c) r))"

interpretation tasks: invariant_system pfresh "\<lambda>c c'. \<exists>a. c' = snd (pstep a c)" task_inv
proof
  fix c assume "pfresh c"
  then show "task_inv c" by (auto simp: task_inv_def pfresh_def own_inv_def keep_def)
next
  fix c c' assume "\<exists>a. c' = snd (pstep a c)" and i: "task_inv c"
  then obtain a where a: "c' = snd (pstep a c)" by blast
  have "bounded c' \<Longrightarrow> bounded c" using padds_step [of c _ a] a by (meson bounded_def le_less_trans)
  with i a pstep_ok [of c a] pstep_keep [of c a] show "task_inv c'" by (auto simp: task_inv_def)
qed

lemma emits_reach: "(\<lambda>c c'. \<exists>a. c' = snd (pstep a c))\<^sup>*\<^sup>* c (snd (emits pstep acts c))"
proof (induction acts arbitrary: c)
  case (Cons a acts)
  have "(\<lambda>c c'. \<exists>a. c' = snd (pstep a c)) c (snd (pstep a c))" by blast
  with Cons.IH [of "snd (pstep a c)"] show ?case by (simp add: split_def Let_def converse_rtranclp_into_rtranclp)
qed simp

lemma emits_inv: "pfresh c \<Longrightarrow> task_inv (snd (emits pstep acts c))"
  by (rule tasks.rtranclp_inv [OF emits_reach]) (rule tasks.inv_init)

section \<open>What the specification says of a log\<close>

fun consumes :: "ref \<Rightarrow> pevent \<Rightarrow> bool" where
  "consumes r (Consumed r' h run) \<longleftrightarrow> r' = r"
| "consumes r _ \<longleftrightarrow> False"

lemma accepted_snoc:
  assumes "replay task_accepts (es @ [ev]) s0 = Some s"
  obtains s1 where "replay task_accepts es s0 = Some s1" "task_accepts ev s1 = Some s"
  using assms by (auto simp: replay_append bind_eq_Some_conv)

lemma consumed_once:
  "replay task_accepts es (\<lambda>_. Absent) = Some s \<Longrightarrow> length (filter (consumes r) es) = (if s r = Gone then 1 else 0)"
proof (induction es arbitrary: s rule: rev_induct)
  case (snoc ev es)
  obtain s1 where s1: "replay task_accepts es (\<lambda>_. Absent) = Some s1" "task_accepts ev s1 = Some s"
    using snoc.prems by (rule accepted_snoc)
  from snoc.IH [OF s1(1)] s1(2) show ?case by (cases ev) (auto split: if_splits)
qed simp

lemma posted_state:
  "replay task_accepts es (\<lambda>_. Absent) = Some s \<Longrightarrow> Posted e r h \<in> set es \<Longrightarrow>
     s r = Owned e h \<or> s r = Gone \<and> (\<exists>run. Consumed r h run \<in> set es)"
proof (induction es arbitrary: s rule: rev_induct)
  case (snoc ev es)
  obtain s1 where s1: "replay task_accepts es (\<lambda>_. Absent) = Some s1" "task_accepts ev s1 = Some s"
    using snoc.prems(1) by (rule accepted_snoc)
  show ?case
  proof (cases "Posted e r h \<in> set es")
    case True
    from snoc.IH [OF s1(1) this] s1(2) show ?thesis by (cases ev) (auto split: if_splits)
  next
    case False
    with snoc.prems(2) s1(2) show ?thesis by (auto split: if_splits)
  qed
qed simp

lemma fresh_states: "pfresh c \<Longrightarrow> task_states c = (\<lambda>_. Absent)"
  by (auto simp: pfresh_def task_states_def fun_eq_iff)

lemma tasks_accepted:
  assumes "pfresh c"
  shows "replay task_accepts (fst (emits pstep acts c)) (\<lambda>_. Absent) = Some (task_states (snd (emits pstep acts c)))"
  using task_ownership.emits_refine [of c acts] tasks.inv_init [OF assms] by (simp add: task_inv_def fresh_states [OF assms])

lemma gone_at_rest:
  assumes i: "task_inv c" "bounded c" and q: "\<And>g. ppcs c g = PIdle" and d: "pe_done (pheap (pst c) (fst (porigin c r)))"
    and r: "r < pnextTask (pst c)"
  shows "task_states c r = Gone"
proof -
  have k: "kept c" using i by (simp add: task_inv_def)
  have no: "\<not> somewhere (ppcs c) Q" if "\<not> Q PIdle" for Q using q that by (simp add: somewhere_def)
  have "t_handle (ptasks (pst c) r) = 0"
  proof (rule ccontr)
    assume h: "t_handle (ptasks (pst c) r) \<noteq> 0"
    show False
    proof (cases "t_retention (ptasks (pst c) r)")
      case None
      with keepD(6) [OF k r h] no show False by fastforce
    next
      case (Some en)
      obtain e n where en: "en = (e, n)" by fastforce
      with Some keepD(7) [OF k, of r e n] d have "pe_work (pheap (pst c) e) = []" by (intro keepD(5) [OF k]) simp
      with Some en keepD(8) [OF k, of r e n] no show False by fastforce
    qed
  qed
  moreover have "\<not> held c r" using q by (simp add: held_def)
  ultimately show ?thesis using r by (simp add: task_states_def)
qed

text \<open>A configured platform to which nothing has been posted.\<close>

definition pconfigured :: "world \<Rightarrow> pconc" where
  "pconfigured w = \<lparr>pst = (let (e, x) = registerEntry 0 (pcustom w) in x\<lparr>pactive := Some e\<rparr>), ppcs = (\<lambda>_. PIdle),
     porigin = (\<lambda>_. (0, 0)), padds = (\<lambda>_. 0)\<rparr>"

lemma pfresh_configured: "pfresh (pconfigured w)"
  by (simp add: pfresh_def pconfigured_def registerEntry_def pcustom_def)

lemmas platform_eval = pconfigured_def registerEntry_def pcustom_def advance_def newTask_def loadActiveEntry_def takeLocked_def takeRelease_def
  armLocked_def entry_add_def entry_remove_def drainLocked_def closeLocked_def clearFinalizer_def dropUncache_def dropUnregister_def
  upd_task_def upd_entry_def Let_def

end
