(* ===== verification/Inspectors.thy ===== *)
theory Inspectors
  imports Api
begin

text \<open>
  The inspector: \<open>src/inspector_transport.go\<close> (string views, inspectors, sessions, channels and the lifecycle counts that
  Isolate.Close and Context.Close consult), \<open>src/inspector_session_controls.go\<close> (clients and the calls on a session) and
  the client callbacks of \<open>src/inspector_client_callbacks.go\<close> and \<open>src/inspector_client_values.go\<close>.

  Registries of their own are fields of \<open>isys\<close>, a record above \<open>world\<close>; the lifecycle counts are fields of \<open>world\<close>
  already. While the engine executes a call it may call back; what is called meanwhile is the argument \<open>f\<close>.
\<close>

section \<open>String views\<close>

text \<open>A nil slice is \<open>None\<close>: the encoding of a view depends on it.\<close>

record InspectorStringView =
  v_bytes :: "8 word list option"
  v_units :: "16 word list option"

definition NewInspectorStringView8 :: "8 word list \<Rightarrow> InspectorStringView" where
  "NewInspectorStringView8 value = \<lparr>v_bytes = Some value, v_units = None\<rparr>"

definition NewInspectorStringView16 :: "16 word list \<Rightarrow> InspectorStringView" where
  "NewInspectorStringView16 value = \<lparr>v_bytes = None, v_units = Some value\<rparr>"

definition EmptyInspectorStringView :: InspectorStringView where
  "EmptyInspectorStringView = \<lparr>v_bytes = Some [], v_units = None\<rparr>"

definition Is8Bit :: "InspectorStringView \<Rightarrow> bool" where
  "Is8Bit v \<longleftrightarrow> v_units v = None"

definition slice :: "'a list option \<Rightarrow> 'a list" where
  "slice s = (case s of None \<Rightarrow> [] | Some xs \<Rightarrow> xs)"

definition View_Len :: "InspectorStringView \<Rightarrow> nat" where
  "View_Len v = (if v_units v \<noteq> None then length (slice (v_units v)) else length (slice (v_bytes v)))"

definition Characters8 :: "InspectorStringView \<Rightarrow> 8 word list option" where
  "Characters8 v = (if \<not> Is8Bit v then None else Some (slice (v_bytes v)))"

definition Characters16 :: "InspectorStringView \<Rightarrow> 16 word list option" where
  "Characters16 v = (if Is8Bit v then None else Some (slice (v_units v)))"

definition View_IsEmpty :: "InspectorStringView \<Rightarrow> bool" where
  "View_IsEmpty v \<longleftrightarrow> View_Len v = 0"

text \<open>\<open>String\<close>, as the list of its code points; \<open>utf16Decode\<close> is Go's \<open>utf16.Decode\<close>.\<close>

fun utf16Decode :: "16 word list \<Rightarrow> nat list" where
  "utf16Decode [] = []"
| "utf16Decode [u] = [if u < 0xD800 \<or> 0xE000 \<le> u then unat u else 0xFFFD]"
| "utf16Decode (u # v # us) =
     (if u < 0xD800 \<or> 0xE000 \<le> u then unat u # utf16Decode (v # us)
      else if u < 0xDC00 \<and> 0xDC00 \<le> v \<and> v < 0xE000
           then ((unat u - 0xD800) * 0x400 + (unat v - 0xDC00) + 0x10000) # utf16Decode us
      else 0xFFFD # utf16Decode (v # us))"

definition View_String :: "InspectorStringView \<Rightarrow> nat list" where
  "View_String v = (if v_units v \<noteq> None then utf16Decode (slice (v_units v)) else map unat (slice (v_bytes v)))"

text \<open>What the engine gets: the encoding, the memory of the characters (units in little-endian order) and their number.\<close>

definition byteChar :: "8 word \<Rightarrow> char" where
  "byteChar b = char_of (unat b)"

definition unitBytes :: "16 word \<Rightarrow> 8 word list" where
  "unitBytes u = [ucast u, ucast (drop_bit 8 u)]"

definition native :: "InspectorStringView \<Rightarrow> arg list" where
  "native v =
     (if v_units v \<noteq> None
      then [W 0, Buf (map byteChar (concat (map unitBytes (slice (v_units v))))), W (of_nat (length (slice (v_units v))))]
      else [W 1, Buf (map byteChar (slice (v_bytes v))), W (of_nat (length (slice (v_bytes v))))])"

type_synonym InspectorStringBuffer = InspectorStringView

definition NewInspectorStringBuffer :: "InspectorStringView \<Rightarrow> InspectorStringBuffer" where
  "NewInspectorStringBuffer source =
     (if Is8Bit source then NewInspectorStringView8 (slice (Characters8 source))
      else NewInspectorStringView16 (slice (Characters16 source)))"

definition Buffer_StringView :: "InspectorStringBuffer option \<Rightarrow> InspectorStringView" where
  "Buffer_StringView mb = (case mb of None \<Rightarrow> EmptyInspectorStringView | Some b \<Rightarrow> NewInspectorStringBuffer b)"

section \<open>State\<close>

record Inspector =
  n_iso :: ref
  n_handle :: uintptr
  n_closed :: bool
  n_sessions :: int
  n_contexts :: "ref set"

record InspectorSession =
  ss_inspector :: ref
  ss_handle :: uintptr
  ss_channelID :: nat
  ss_closed :: bool
  ss_active :: int

record inspectorChannelEntry =
  ch_iso :: ref
  ch_session :: "ref option"
  ch_channel :: nat
  ch_active :: int

record inspectorClientEntry =
  cl_iso :: "ref option"
  cl_inspector :: "ref option"
  cl_client :: nat
  cl_active :: int

text \<open>A call of the embedder's channel or client.\<close>

datatype icallback =
    SendResponse nat "32 word" InspectorStringBuffer
  | SendNotification nat InspectorStringBuffer
  | FlushProtocolNotifications nat
  | RunMessageLoopOnPause nat "32 word"
  | QuitMessageLoopOnPause nat
  | GenerateUniqueID nat
  | RunIfWaitingForDebugger nat "32 word"
  | ResourceNameToURL nat InspectorStringView
  | ConsoleAPIMessage nat "32 word" "32 word" InspectorStringView InspectorStringView "32 word" "32 word" bool
  | ValueSubtype nat ref uintptr
  | DescriptionForValueSubtype nat ref uintptr
  | EnsureDefaultContextInGroup nat "32 word"

record isys =
  ibase :: world
  inspectors :: "ref \<Rightarrow> Inspector"
  inextInspector :: nat
  isessions :: "ref \<Rightarrow> InspectorSession"
  inextSession :: nat
  ichannels :: "nat \<rightharpoonup> inspectorChannelEntry"
  ichannelNext :: nat
  iclients :: "nat \<rightharpoonup> inspectorClientEntry"
  iclientNext :: nat
  iclientOf :: "ref \<rightharpoonup> nat"
  idispatchErr :: "error option option"
  iclientDispatchErr :: "error option option"
  icallbacks :: "icallback list"

type_synonym 'a iresult = "(error, 'a, isys) outcome"

definition iOnBase :: "(world \<Rightarrow> 'a result) \<Rightarrow> isys \<Rightarrow> 'a iresult" where
  [op_defs]: "iOnBase = lift ibase (\<lambda>w x. x\<lparr>ibase := w\<rparr>)"

definition upd_inspector :: "ref \<Rightarrow> (Inspector \<Rightarrow> Inspector) \<Rightarrow> isys \<Rightarrow> isys" where
  "upd_inspector n f x = x\<lparr>inspectors := (inspectors x)(n := f (inspectors x n))\<rparr>"

definition upd_session :: "ref \<Rightarrow> (InspectorSession \<Rightarrow> InspectorSession) \<Rightarrow> isys \<Rightarrow> isys" where
  "upd_session s f x = x\<lparr>isessions := (isessions x)(s := f (isessions x s))\<rparr>"

text \<open>A call of the engine during which it may call back.\<close>

definition icall :: "engine \<Rightarrow> tid \<Rightarrow> string \<Rightarrow> arg list \<Rightarrow> (isys \<Rightarrow> isys) \<Rightarrow> isys \<Rightarrow> resp \<times> isys" where
  [op_defs]: "icall E t p args f x = (let (r, w) = shim E t p args (ibase x) in (r, f (x\<lparr>ibase := w\<rparr>)))"

section \<open>Lifecycle counts\<close>

definition inspectorLifecycleForUpdate :: "ref \<Rightarrow> world \<Rightarrow> inspectorLifecycle" where
  [op_defs]: "inspectorLifecycleForUpdate i w =
     (case inspectorIsolates w i of None \<Rightarrow> \<lparr>il_inspectors = 0, il_sessions = 0, il_contexts = []\<rparr> | Some s \<Rightarrow> s)"

definition pruneInspectorLifecycleLocked :: "ref \<Rightarrow> inspectorLifecycle \<Rightarrow> world \<Rightarrow> world" where
  [op_defs]: "pruneInspectorLifecycleLocked i s w =
     w\<lparr>inspectorIsolates := (inspectorIsolates w)
        (i := if il_inspectors s = 0 \<and> il_sessions s = 0 \<and> il_contexts s = [] then None else Some s)\<rparr>"

definition registerInspectorLifecycle :: "ref \<Rightarrow> world \<Rightarrow> world" where
  [op_defs]: "registerInspectorLifecycle i w =
     (let s = inspectorLifecycleForUpdate i w
      in w\<lparr>inspectorIsolates := (inspectorIsolates w)(i \<mapsto> s\<lparr>il_inspectors := il_inspectors s + 1\<rparr>)\<rparr>)"

definition unregisterInspectorLifecycle :: "ref \<Rightarrow> world \<Rightarrow> world" where
  [op_defs]: "unregisterInspectorLifecycle i w =
     (case inspectorIsolates w i of
        None \<Rightarrow> w
      | Some s \<Rightarrow> if il_inspectors s > 0 then pruneInspectorLifecycleLocked i (s\<lparr>il_inspectors := il_inspectors s - 1\<rparr>) w else w)"

definition registerInspectorSessionLifecycle :: "ref \<Rightarrow> world \<Rightarrow> world" where
  [op_defs]: "registerInspectorSessionLifecycle i w =
     (let s = inspectorLifecycleForUpdate i w
      in w\<lparr>inspectorIsolates := (inspectorIsolates w)(i \<mapsto> s\<lparr>il_sessions := il_sessions s + 1\<rparr>)\<rparr>)"

definition unregisterInspectorSessionLifecycle :: "ref \<Rightarrow> world \<Rightarrow> world" where
  [op_defs]: "unregisterInspectorSessionLifecycle i w =
     (case inspectorIsolates w i of
        None \<Rightarrow> w
      | Some s \<Rightarrow> if il_sessions s > 0 then pruneInspectorLifecycleLocked i (s\<lparr>il_sessions := il_sessions s - 1\<rparr>) w else w)"

text \<open>The map of context registrations, as an association list: an absent context counts zero.\<close>

definition ctxCount :: "(ref \<times> nat) list \<Rightarrow> ref \<Rightarrow> nat" where
  "ctxCount m c = (case map_of m c of None \<Rightarrow> 0 | Some n \<Rightarrow> n)"

definition ctxPut :: "ref \<Rightarrow> nat \<Rightarrow> (ref \<times> nat) list \<Rightarrow> (ref \<times> nat) list" where
  "ctxPut c n m = (c, n) # filter (\<lambda>p. fst p \<noteq> c) m"

definition registerInspectorContextLifecycle :: "ref \<Rightarrow> ref \<Rightarrow> world \<Rightarrow> world" where
  [op_defs]: "registerInspectorContextLifecycle i c w =
     (let s = inspectorLifecycleForUpdate i w
      in w\<lparr>inspectorIsolates := (inspectorIsolates w)
            (i \<mapsto> s\<lparr>il_contexts := ctxPut c (ctxCount (il_contexts s) c + 1) (il_contexts s)\<rparr>)\<rparr>)"

definition unregisterInspectorContextLifecycle :: "ref \<Rightarrow> ref \<Rightarrow> world \<Rightarrow> world" where
  [op_defs]: "unregisterInspectorContextLifecycle i c w =
     (case inspectorIsolates w i of
        None \<Rightarrow> w
      | Some s \<Rightarrow>
          pruneInspectorLifecycleLocked i
            (if ctxCount (il_contexts s) c \<le> 1 then s\<lparr>il_contexts := filter (\<lambda>p. fst p \<noteq> c) (il_contexts s)\<rparr>
             else s\<lparr>il_contexts := ctxPut c (ctxCount (il_contexts s) c - 1) (il_contexts s)\<rparr>) w)"

section \<open>Clients\<close>

definition clientEntryOf :: "ref \<Rightarrow> isys \<Rightarrow> inspectorClientEntry option" where
  [check_defs]: "clientEntryOf n x = iclients x (case iclientOf x n of None \<Rightarrow> 0 | Some k \<Rightarrow> k)"

definition inspectorClientCallbackActive :: "ref \<Rightarrow> isys \<Rightarrow> bool" where
  [check_defs]: "inspectorClientCallbackActive n x =
     (case clientEntryOf n x of None \<Rightarrow> False | Some e \<Rightarrow> cl_active e \<noteq> 0)"

definition inspectorClientCloseError :: "ref \<Rightarrow> isys \<Rightarrow> error option" where
  [check_defs]: "inspectorClientCloseError n x =
     fail_if (inspectorClientCallbackActive n x) (Misuse ''inspector client callback is active'')"

definition dropInspectorClient :: "ref \<Rightarrow> isys \<Rightarrow> isys" where
  [op_defs]: "dropInspectorClient n x =
     (let k = (case iclientOf x n of None \<Rightarrow> 0 | Some k \<Rightarrow> k);
          x = x\<lparr>iclientOf := (iclientOf x)(n := None)\<rparr>
      in case iclients x k of
           Some e \<Rightarrow> if cl_inspector e = Some n then x\<lparr>iclients := (iclients x)(k := None)\<rparr> else x
         | None \<Rightarrow> x)"

definition ensureInspectorDispatch :: "engine \<Rightarrow> tid \<Rightarrow> uintptr \<Rightarrow> isys \<Rightarrow> unit iresult" where
  [op_defs]: "ensureInspectorDispatch E t d x =
     (case idispatchErr x of
        Some None \<Rightarrow> (Inr (), x)
      | Some (Some e) \<Rightarrow> (Inl e, x)
      | None \<Rightarrow>
          (case iOnBase (callErr E t ''Inspector.ChannelDispatch'' ''gov8_inspector_set_channel_dispatch'' [W d]) x of
             (Inl e, x) \<Rightarrow> (Inl e, x\<lparr>idispatchErr := Some (Some e)\<rparr>)
           | (Inr _, x) \<Rightarrow> (Inr (), x\<lparr>idispatchErr := Some None\<rparr>)))"

definition ensureInspectorExtendedClientDispatch :: "engine \<Rightarrow> tid \<Rightarrow> uintptr \<Rightarrow> isys \<Rightarrow> unit iresult" where
  [op_defs]: "ensureInspectorExtendedClientDispatch E t d x =
     iOnBase (unitCall E t ''Inspector.ExtendedClientDispatch'' ''gov8_icc_set_dispatch'' [W d]) x"

definition ensureInspectorClientDispatch :: "engine \<Rightarrow> tid \<Rightarrow> uintptr \<Rightarrow> uintptr \<Rightarrow> isys \<Rightarrow> unit iresult" where
  [op_defs]: "ensureInspectorClientDispatch E t d d' x =
     (case iclientDispatchErr x of
        Some None \<Rightarrow> (Inr (), x)
      | Some (Some e) \<Rightarrow> (Inl e, x)
      | None \<Rightarrow>
          (case andThen (iOnBase (unitCall E t ''Inspector.ClientDispatch'' ''gov8_isc_set_client_dispatch'' [W d]) x)
                  (\<lambda>_. ensureInspectorExtendedClientDispatch E t d') of
             (Inl e, x) \<Rightarrow> (Inl e, x\<lparr>iclientDispatchErr := Some (Some e)\<rparr>)
           | (Inr _, x) \<Rightarrow> (Inr (), x\<lparr>iclientDispatchErr := Some None\<rparr>)))"

section \<open>Inspectors\<close>

definition maxUint64 :: nat where "maxUint64 = 2 ^ 64 - 1"

definition newInspector :: "engine \<Rightarrow> tid \<Rightarrow> uintptr \<Rightarrow> (isys \<Rightarrow> isys) \<Rightarrow> ref option \<Rightarrow> nat \<Rightarrow> isys \<Rightarrow> ref iresult" where
  [op_defs]: "newInspector E t d f mi clientID x =
     guarded [fail_if (mi = None) (Misuse ''nil isolate''), Isolate_check t (the mi) (ibase x)]
       (\<lambda>x. andThen (ensureInspectorDispatch E t d x) (\<lambda>_ x.
          let i = the mi;
              (r, x) = icall E t ''gov8_inspector_create'' [W (handleAssumingCheck i (ibase x)), W (of_nat clientID), Out] f x
          in if sneg (r1 r) then (Inl (ShimError ''Inspector.New'' (r1 r)), x)
             else let n = inextInspector x
                  in (Inr n, x\<lparr>inspectors := (inspectors x)
                               (n := \<lparr>n_iso = i, n_handle = out r 0, n_closed = False, n_sessions = 0, n_contexts = {}\<rparr>),
                             inextInspector := Suc n, ibase := registerInspectorLifecycle i (ibase x)\<rparr>))) x"

definition NewInspector :: "engine \<Rightarrow> tid \<Rightarrow> uintptr \<Rightarrow> (isys \<Rightarrow> isys) \<Rightarrow> ref option \<Rightarrow> isys \<Rightarrow> ref iresult" where
  [op_defs]: "NewInspector E t d f mi x = newInspector E t d f mi 0 x"

definition NewInspectorWithClient ::
    "engine \<Rightarrow> tid \<Rightarrow> uintptr \<Rightarrow> uintptr \<Rightarrow> uintptr \<Rightarrow> (isys \<Rightarrow> isys) \<Rightarrow> ref option \<Rightarrow> nat option \<Rightarrow> isys \<Rightarrow> ref iresult" where
  [op_defs]: "NewInspectorWithClient E t d d1 d2 f mi mclient x =
     guarded [fail_if (mclient = None) (Misuse ''nil inspector client'')]
       (\<lambda>x. andThen (ensureInspectorClientDispatch E t d1 d2 x) (\<lambda>_ x.
          guarded [fail_if (iclientNext x = maxUint64) (Misuse ''inspector client registry exhausted'')]
            (\<lambda>x. let k = Suc (iclientNext x);
                     entry = \<lparr>cl_iso = mi, cl_inspector = None, cl_client = the mclient, cl_active = 0\<rparr>
                 in case newInspector E t d f mi k (x\<lparr>iclientNext := k, iclients := (iclients x)(k \<mapsto> entry)\<rparr>) of
                      (Inl e, x) \<Rightarrow> (Inl e, x\<lparr>iclients := (iclients x)(k := None)\<rparr>)
                    | (Inr n, x) \<Rightarrow>
                        (Inr n, x\<lparr>iclients := (iclients x)(k := map_option (\<lambda>e. e\<lparr>cl_inspector := Some n\<rparr>) (iclients x k)),
                                  iclientOf := (iclientOf x)(n \<mapsto> k)\<rparr>)) x)) x"

definition Inspector_check :: "tid \<Rightarrow> ref option \<Rightarrow> isys \<Rightarrow> error option" where
  [check_defs]: "Inspector_check t mn x =
     (case mn of
        None \<Rightarrow> Some (Misuse ''nil inspector'')
      | Some n \<Rightarrow> first_err [Isolate_check t (n_iso (inspectors x n)) (ibase x),
                    fail_if (n_closed (inspectors x n)) (Misuse ''inspector used after Close'')])"

definition foreign_context :: "ref option \<Rightarrow> ref \<Rightarrow> isys \<Rightarrow> bool" where
  [check_defs]: "foreign_context mc n x =
     (case mc of None \<Rightarrow> True | Some c \<Rightarrow> c_iso (contexts (ibase x) c) \<noteq> n_iso (inspectors x n))"

definition ContextCreated ::
    "engine \<Rightarrow> tid \<Rightarrow> (isys \<Rightarrow> isys) \<Rightarrow> ref option \<Rightarrow> ref option \<Rightarrow> int \<Rightarrow> InspectorStringView \<Rightarrow> InspectorStringView \<Rightarrow> isys \<Rightarrow> unit iresult" where
  [op_defs]: "ContextCreated E t f mn mc grp name aux x =
     guarded
       [Inspector_check t mn x,
        fail_if (foreign_context mc (the mn) x) (Foreign KContext),
        Context_checkAssumingIsolate (the mc) (ibase x),
        fail_if (grp \<le> 0) (Misuse ''inspector context group must be positive''),
        fail_if (the mc \<in> n_contexts (inspectors x (the mn))) (Misuse ''inspector context is already registered'')]
       (\<lambda>x. let n = the mn; c = the mc;
                (r, x) = icall E t ''gov8_inspector_context_created''
                  ([W (n_handle (inspectors x n)), W (c_handle (contexts (ibase x) c)), W (word_of_int grp)] @ native name @ native aux) f x
            in if sneg (r1 r) then (Inl (ShimError ''Inspector.ContextCreated'' (r1 r)), x)
               else let x = upd_inspector n (\<lambda>q. q\<lparr>n_contexts := insert c (n_contexts q)\<rparr>) x
                    in (Inr (), x\<lparr>ibase := registerInspectorContextLifecycle (n_iso (inspectors x n)) c (ibase x)\<rparr>)) x"

text \<open>The test of \<open>inspector_inspected_object.go\<close> for a running callback in the context is an argument.\<close>

definition ContextDestroyed ::
    "engine \<Rightarrow> tid \<Rightarrow> (isys \<Rightarrow> isys) \<Rightarrow> bool \<Rightarrow> ref option \<Rightarrow> ref option \<Rightarrow> isys \<Rightarrow> unit iresult" where
  [op_defs]: "ContextDestroyed E t f inspected mn mc x =
     guarded
       [Inspector_check t mn x,
        fail_if (foreign_context mc (the mn) x) (Foreign KContext),
        fail_if (the mc \<notin> n_contexts (inspectors x (the mn))) (Misuse ''inspector context was not registered''),
        fail_if (inspectorClientCallbackActive (the mn) x) (Misuse ''Inspector client callback is active''),
        fail_if inspected (Misuse ''Inspector Inspectable callback is active in this context''),
        Context_checkAssumingIsolate (the mc) (ibase x)]
       (\<lambda>x. let n = the mn; c = the mc;
                (r, x) = icall E t ''gov8_inspector_context_destroyed''
                  [W (n_handle (inspectors x n)), W (c_handle (contexts (ibase x) c))] f x
            in if sneg (r1 r) then (Inl (ShimError ''Inspector.ContextDestroyed'' (r1 r)), x)
               else let x = upd_inspector n (\<lambda>q. q\<lparr>n_contexts := n_contexts q - {c}\<rparr>) x
                    in (Inr (), x\<lparr>ibase := unregisterInspectorContextLifecycle (n_iso (inspectors x n)) c (ibase x)\<rparr>)) x"

section \<open>Sessions\<close>

definition Connect ::
    "engine \<Rightarrow> tid \<Rightarrow> (isys \<Rightarrow> isys) \<Rightarrow> ref option \<Rightarrow> int \<Rightarrow> nat option \<Rightarrow> InspectorStringView \<Rightarrow> int \<Rightarrow> isys \<Rightarrow> ref iresult" where
  [op_defs]: "Connect E t f mn grp mchannel st trust x =
     guarded
       [Inspector_check t mn x,
        fail_if (mchannel = None) (Misuse ''nil inspector channel''),
        fail_if (grp \<le> 0) (Misuse ''inspector context group must be positive''),
        fail_if (trust < 0 \<or> trust > 1) (Misuse ''invalid inspector trust level''),
        fail_if (ichannelNext x = maxUint64) (Misuse ''inspector channel registry exhausted'')]
       (\<lambda>x. let n = the mn; k = Suc (ichannelNext x);
                entry = \<lparr>ch_iso = n_iso (inspectors x n), ch_session = None, ch_channel = the mchannel, ch_active = 0\<rparr>;
                x = x\<lparr>ichannelNext := k, ichannels := (ichannels x)(k \<mapsto> entry)\<rparr>;
                (r, x) = icall E t ''gov8_inspector_connect''
                  ([W (n_handle (inspectors x n)), W (word_of_int grp), W (of_nat k)] @ native st @ [W (word_of_int trust), Out]) f x
            in if sneg (r1 r) then (Inl (ShimError ''Inspector.Connect'' (r1 r)), x\<lparr>ichannels := (ichannels x)(k := None)\<rparr>)
               else let s = inextSession x;
                        x = x\<lparr>isessions := (isessions x)
                                (s := \<lparr>ss_inspector = n, ss_handle = out r 0, ss_channelID = k, ss_closed = False, ss_active = 0\<rparr>),
                              inextSession := Suc s,
                              ichannels := (ichannels x)(k := map_option (\<lambda>e. e\<lparr>ch_session := Some s\<rparr>) (ichannels x k))\<rparr>;
                        x = upd_inspector n (\<lambda>q. q\<lparr>n_sessions := n_sessions q + 1\<rparr>) x
                    in (Inr s, x\<lparr>ibase := registerInspectorSessionLifecycle (n_iso (inspectors x n)) (ibase x)\<rparr>)) x"

definition Session_check :: "tid \<Rightarrow> ref option \<Rightarrow> isys \<Rightarrow> error option" where
  [check_defs]: "Session_check t ms x =
     (case ms of
        None \<Rightarrow> Some (Misuse ''nil inspector session'')
      | Some s \<Rightarrow> first_err [Inspector_check t (Some (ss_inspector (isessions x s))) x,
                    fail_if (ss_closed (isessions x s)) (Misuse ''inspector session used after Close'')])"

text \<open>Calls on a session that do not change Go state; the engine may call back.\<close>

definition sessionCall :: "engine \<Rightarrow> tid \<Rightarrow> string \<Rightarrow> string \<Rightarrow> arg list \<Rightarrow> (isys \<Rightarrow> isys) \<Rightarrow> ref option \<Rightarrow> isys \<Rightarrow> unit iresult" where
  [op_defs]: "sessionCall E t oper p args f ms x =
     (let (r, x) = icall E t p (W (ss_handle (isessions x (the ms))) # args) f x
      in if sneg (r1 r) then (Inl (ShimError oper (r1 r)), x) else (Inr (), x))"

definition DispatchProtocolMessage ::
    "engine \<Rightarrow> tid \<Rightarrow> (isys \<Rightarrow> isys) \<Rightarrow> bool \<Rightarrow> ref option \<Rightarrow> InspectorStringView \<Rightarrow> isys \<Rightarrow> unit iresult" where
  [op_defs]: "DispatchProtocolMessage E t f inspected ms message x =
     guarded [Session_check t ms x,
              fail_if inspected (Misuse ''cannot dispatch an Inspector protocol message during an Inspectable callback'')]
       (sessionCall E t ''InspectorSession.DispatchProtocolMessage'' ''gov8_inspector_session_dispatch'' (native message) f ms) x"

definition ReleaseObjectGroup :: "engine \<Rightarrow> tid \<Rightarrow> (isys \<Rightarrow> isys) \<Rightarrow> ref option \<Rightarrow> InspectorStringView \<Rightarrow> isys \<Rightarrow> unit iresult" where
  [op_defs]: "ReleaseObjectGroup E t f ms grp x =
     guarded [Session_check t ms x]
       (sessionCall E t ''InspectorSession.ReleaseObjectGroup'' ''gov8_isc_release_object_group'' (native grp) f ms) x"

definition SchedulePauseOnNextStatement ::
    "engine \<Rightarrow> tid \<Rightarrow> (isys \<Rightarrow> isys) \<Rightarrow> ref option \<Rightarrow> InspectorStringView \<Rightarrow> InspectorStringView \<Rightarrow> isys \<Rightarrow> unit iresult" where
  [op_defs]: "SchedulePauseOnNextStatement E t f ms reason detail x =
     guarded [Session_check t ms x]
       (sessionCall E t ''InspectorSession.SchedulePauseOnNextStatement'' ''gov8_isc_schedule_pause'' (native reason @ native detail) f ms) x"

definition CancelPauseOnNextStatement :: "engine \<Rightarrow> tid \<Rightarrow> (isys \<Rightarrow> isys) \<Rightarrow> ref option \<Rightarrow> isys \<Rightarrow> unit iresult" where
  [op_defs]: "CancelPauseOnNextStatement E t f ms x =
     guarded [Session_check t ms x]
       (sessionCall E t ''InspectorSession.CancelPauseOnNextStatement'' ''gov8_isc_cancel_pause'' [] f ms) x"

definition InspectorCanDispatchMethod :: "engine \<Rightarrow> tid \<Rightarrow> InspectorStringView \<Rightarrow> isys \<Rightarrow> bool iresult" where
  [op_defs]: "InspectorCanDispatchMethod E t m x =
     guarded [requireInitialized (ibase x)]
       (\<lambda>x. andThen (iOnBase (callErr E t ''Inspector.CanDispatchMethod'' ''gov8_isc_can_dispatch_method'' (native m @ [Out])) x)
             (\<lambda>r x. (Inr (out r 0 \<noteq> 0), x))) x"

definition channel_active :: "nat \<Rightarrow> isys \<Rightarrow> bool" where
  [check_defs]: "channel_active k x = (case ichannels x k of None \<Rightarrow> False | Some e \<Rightarrow> ch_active e \<noteq> 0)"

definition Session_Close :: "engine \<Rightarrow> tid \<Rightarrow> (isys \<Rightarrow> isys) \<Rightarrow> bool \<Rightarrow> ref option \<Rightarrow> isys \<Rightarrow> unit iresult" where
  [op_defs]: "Session_Close E t f inspected ms x =
     guarded
       [Session_check t ms x,
        fail_if inspected (Misuse ''Inspector Inspectable callback is active''),
        inspectorClientCloseError (ss_inspector (isessions x (the ms))) x,
        fail_if (channel_active (ss_channelID (isessions x (the ms))) x) (Misuse ''inspector channel callback is active'')]
       (\<lambda>x. let s = the ms;
                (r, x) = icall E t ''gov8_inspector_session_dispose'' [W (ss_handle (isessions x s))] f x
            in if sneg (r1 r) then (Inl (ShimError ''InspectorSession.Close'' (r1 r)), x)
               else let x = x\<lparr>ichannels := (ichannels x)(ss_channelID (isessions x s) := None)\<rparr>;
                        n = ss_inspector (isessions x s);
                        x = upd_inspector n (\<lambda>q. q\<lparr>n_sessions := n_sessions q - 1\<rparr>) x;
                        x = x\<lparr>ibase := unregisterInspectorSessionLifecycle (n_iso (inspectors x n)) (ibase x)\<rparr>
                    in (Inr (), upd_session s (\<lambda>q. q\<lparr>ss_closed := True, ss_handle := 0\<rparr>) x)) x"

definition Inspector_Close :: "engine \<Rightarrow> tid \<Rightarrow> (isys \<Rightarrow> isys) \<Rightarrow> ref option \<Rightarrow> isys \<Rightarrow> unit iresult" where
  [op_defs]: "Inspector_Close E t f mn x =
     guarded
       [Inspector_check t mn x,
        fail_if (n_sessions (inspectors x (the mn)) \<noteq> 0) (Misuse ''inspector has live sessions''),
        fail_if (n_contexts (inspectors x (the mn)) \<noteq> {}) (Misuse ''inspector has registered contexts''),
        inspectorClientCloseError (the mn) x]
       (\<lambda>x. let n = the mn; (r, x) = icall E t ''gov8_inspector_dispose'' [W (n_handle (inspectors x n))] f x
            in if sneg (r1 r) then (Inl (ShimError ''Inspector.Close'' (r1 r)), x)
               else let x = upd_inspector n (\<lambda>q. q\<lparr>n_closed := True, n_handle := 0\<rparr>) x;
                        x = dropInspectorClient n x
                    in (Inr (), x\<lparr>ibase := unregisterInspectorLifecycle (n_iso (inspectors x n)) (ibase x)\<rparr>)) x"

section \<open>Dispatchers\<close>

text \<open>
  The engine calls a channel or a client. The counts of running callbacks go up before the embedder's method \<open>f\<close> runs and down
  after it. The memory of a message is the argument \<open>content\<close>. \<open>fatalHostMisuse\<close> ends the process; it is an error here.
\<close>

definition bump_channel :: "nat \<Rightarrow> int \<Rightarrow> isys \<Rightarrow> isys" where
  [op_defs]: "bump_channel k n x =
     (case ichannels x k of
        None \<Rightarrow> x
      | Some e \<Rightarrow>
          let x = x\<lparr>ichannels := (ichannels x)(k \<mapsto> e\<lparr>ch_active := ch_active e + n\<rparr>)\<rparr>
          in case ch_session e of None \<Rightarrow> x | Some s \<Rightarrow> upd_session s (\<lambda>q. q\<lparr>ss_active := ss_active q + n\<rparr>) x)"

definition callback_view :: "uintptr \<Rightarrow> 8 word list \<Rightarrow> 16 word list \<Rightarrow> InspectorStringView" where
  "callback_view is8 bytes units = (if is8 \<noteq> 0 then NewInspectorStringView8 bytes else NewInspectorStringView16 units)"

definition inspectorChannelDispatch ::
    "(isys \<Rightarrow> isys) \<Rightarrow> nat \<Rightarrow> 32 word \<Rightarrow> 32 word \<Rightarrow> uintptr \<Rightarrow> uintptr \<Rightarrow> uintptr \<Rightarrow> 8 word list \<Rightarrow> 16 word list \<Rightarrow> isys \<Rightarrow> unit iresult" where
  [op_defs]: "inspectorChannelDispatch f k kind callID is8 dataWord lengthWord bytes units x =
     (case ichannels x k of
        None \<Rightarrow> (Inl (MisuseCount ''fatal: unknown inspector channel'' k), x)
      | Some e \<Rightarrow>
          let x = bump_channel k 1 x;
              buffer = NewInspectorStringBuffer (callback_view is8 bytes units);
              run = (\<lambda>cb. (Inr (), bump_channel k (- 1) (f (x\<lparr>icallbacks := icallbacks x @ [cb]\<rparr>))))
          in if unat lengthWord > 2 ^ 63 - 1 then (Inl (Misuse ''fatal: inspector channel message length exceeds max int''), x)
             else if dataWord = 0 \<and> lengthWord \<noteq> 0 then (Inl (Misuse ''fatal: inspector channel returned a null non-empty message''), x)
             else if is8 \<noteq> 0 \<and> is8 \<noteq> 1 then (Inl (Misuse ''fatal: inspector channel returned invalid string encoding''), x)
             else if kind = 0 then run (SendResponse (ch_channel e) callID buffer)
             else if kind = 1 then run (SendNotification (ch_channel e) buffer)
             else if kind = 2 then run (FlushProtocolNotifications (ch_channel e))
             else (Inl (Misuse ''fatal: invalid inspector channel callback kind''), x))"

definition bump_client :: "nat \<Rightarrow> int \<Rightarrow> isys \<Rightarrow> isys" where
  [op_defs]: "bump_client k n x =
     (case iclients x k of None \<Rightarrow> x | Some e \<Rightarrow> x\<lparr>iclients := (iclients x)(k \<mapsto> e\<lparr>cl_active := cl_active e + n\<rparr>)\<rparr>)"

text \<open>
  A client has a method only when its type implements the interface: the set \<open>caps\<close>. What the method returns is \<open>creply\<close>.
  The entry is counted as active while \<open>body\<close> runs.
\<close>

datatype icap = CapRun | CapQuit | CapUniqueID | CapWaiting | CapResource | CapConsole | CapSubtype | CapDescription | CapDefaultContext

record creply =
  re_id :: uintptr
  re_buffer :: "InspectorStringBuffer option"
  re_context :: "ref option"

definition clientDispatch :: "tid \<Rightarrow> nat \<Rightarrow> (inspectorClientEntry \<Rightarrow> isys \<Rightarrow> uintptr iresult) \<Rightarrow> isys \<Rightarrow> uintptr iresult" where
  [op_defs]: "clientDispatch t k body x =
     (case iclients x k of
        None \<Rightarrow> (Inl (MisuseCount ''fatal: unknown inspector client'' k), x)
      | Some e \<Rightarrow>
          let x = bump_client k 1 x
          in case (case cl_iso e of None \<Rightarrow> Some (Misuse ''nil isolate'') | Some i \<Rightarrow> Isolate_check t i (ibase x)) of
               Some _ \<Rightarrow> (Inl (Misuse ''fatal: inspector client invoked outside its isolate lifetime''), x)
             | None \<Rightarrow> andThen (body e x) (\<lambda>v x. (Inr v, bump_client k (- 1) x)))"

definition clientMethod :: "(isys \<Rightarrow> isys) \<Rightarrow> bool \<Rightarrow> icallback \<Rightarrow> isys \<Rightarrow> isys" where
  [op_defs]: "clientMethod f has cb x = (if has then f (x\<lparr>icallbacks := icallbacks x @ [cb]\<rparr>) else x)"

definition inspectorClientDispatchCallback ::
    "tid \<Rightarrow> (isys \<Rightarrow> isys) \<Rightarrow> (nat \<Rightarrow> icap set) \<Rightarrow> nat \<Rightarrow> 32 word \<Rightarrow> 32 word \<Rightarrow> isys \<Rightarrow> uintptr iresult" where
  [op_defs]: "inspectorClientDispatchCallback t f caps k kind grp =
     clientDispatch t k (\<lambda>e x.
       let c = cl_client e
       in if kind = 0 then (Inr 0, clientMethod f (CapRun \<in> caps c) (RunMessageLoopOnPause c grp) x)
          else if kind = 1 then (Inr 0, clientMethod f (CapQuit \<in> caps c) (QuitMessageLoopOnPause c) x)
          else (Inl (Misuse ''fatal: invalid inspector client callback kind''), x))"

text \<open>The arguments of the extended callbacks. The memory of the process is \<open>m8\<close> and \<open>m16\<close>.\<close>

definition inspectorCallbackView ::
    "(uintptr \<Rightarrow> nat \<Rightarrow> 8 word list) \<Rightarrow> (uintptr \<Rightarrow> nat \<Rightarrow> 16 word list) \<Rightarrow> uintptr \<Rightarrow> uintptr \<Rightarrow> uintptr \<Rightarrow> error + InspectorStringView" where
  "inspectorCallbackView m8 m16 is8 dataWord lengthWord =
     (if is8 \<noteq> 0 \<and> is8 \<noteq> 1 then Inl (Misuse ''fatal: invalid Inspector client StringView encoding'')
      else if unat lengthWord > 2 ^ 63 - 1 then Inl (Misuse ''fatal: Inspector client StringView length exceeds max int'')
      else if dataWord = 0 \<and> lengthWord \<noteq> 0 then Inl (Misuse ''fatal: Inspector client returned a null non-empty StringView'')
      else let length = unat lengthWord
           in Inr (if is8 = 1 then NewInspectorStringView8 (if length \<noteq> 0 then m8 dataWord length else [])
                   else NewInspectorStringView16 (if length \<noteq> 0 then m16 dataWord length else [])))"

definition inspectorClientNativeBuffer :: "engine \<Rightarrow> tid \<Rightarrow> InspectorStringBuffer option \<Rightarrow> isys \<Rightarrow> uintptr iresult" where
  [op_defs]: "inspectorClientNativeBuffer E t mb x =
     (case mb of
        None \<Rightarrow> (Inr 0, x)
      | Some _ \<Rightarrow>
          let (r, w) = shim E t ''gov8_icc_string_buffer_create'' (native (Buffer_StringView mb) @ [Out]) (ibase x); x = x\<lparr>ibase := w\<rparr>
          in if sneg (r1 r) \<or> out r 0 = 0 then (Inl (Misuse ''fatal: creating Inspector client StringBuffer''), x)
             else (Inr (out r 0), x))"

text \<open>The loop over the contexts of the inspector, in the order \<open>order\<close> that the map's iteration takes.\<close>

primrec matchContexts :: "engine \<Rightarrow> tid \<Rightarrow> uintptr \<Rightarrow> ref list \<Rightarrow> isys \<Rightarrow> ref iresult" where
  "matchContexts E t wire [] x = (Inl (Misuse ''Inspector value callback context is not registered''), x)"
| "matchContexts E t wire (c # cs) x =
     (let (r, w) = shim E t ''gov8_icv_context_matches'' [W (c_handle (contexts (ibase x) c)), W wire] (ibase x); x = x\<lparr>ibase := w\<rparr>
      in if sneg (r1 r) then (Inl (ShimError ''Inspector.ContextMatches'' (r1 r)), x)
         else if r1 r = 1 then (Inr c, x) else matchContexts E t wire cs x)"

definition inspectorRegisteredCallbackContext ::
    "engine \<Rightarrow> tid \<Rightarrow> (ref set \<Rightarrow> ref list) \<Rightarrow> inspectorClientEntry \<Rightarrow> uintptr \<Rightarrow> isys \<Rightarrow> ref iresult" where
  [op_defs]: "inspectorRegisteredCallbackContext E t order e wire x =
     (case cl_inspector e of
        None \<Rightarrow> (Inl (Misuse ''Inspector value callback has no live Inspector''), x)
      | Some n \<Rightarrow>
          if n_closed (inspectors x n) then (Inl (Misuse ''Inspector value callback has no live Inspector''), x)
          else matchContexts E t wire (order (n_contexts (inspectors x n))) x)"

text \<open>The scope of a value callback is borrowed: it is closed when the callback is over.\<close>

definition borrowScope :: "ref \<Rightarrow> uintptr \<Rightarrow> isys \<Rightarrow> ref \<times> isys" where
  [op_defs]: "borrowScope i h x =
     (let w = ibase x; s = nextRef w
      in (s, x\<lparr>ibase := w\<lparr>scopes := (scopes w)(s := newScopeStruct i h True), nextRef := s + 1\<rparr>\<rparr>))"

definition returnScope :: "ref \<Rightarrow> isys \<Rightarrow> isys" where
  [op_defs]: "returnScope s x = x\<lparr>ibase := (ibase x)\<lparr>scopes := (scopes (ibase x))(s := (scopes (ibase x) s)\<lparr>s_closed := True\<rparr>)\<rparr>\<rparr>"

definition inspectorClientValueDispatch ::
    "engine \<Rightarrow> tid \<Rightarrow> (isys \<Rightarrow> isys) \<Rightarrow> (ref set \<Rightarrow> ref list) \<Rightarrow> (nat \<Rightarrow> icap set) \<Rightarrow> creply \<Rightarrow> nat \<Rightarrow> inspectorClientEntry \<Rightarrow>
      uintptr \<Rightarrow> uintptr \<Rightarrow> uintptr \<Rightarrow> uintptr \<Rightarrow> isys \<Rightarrow> uintptr iresult" where
  [op_defs]: "inspectorClientValueDispatch E t f order caps q k e kind a0 a1 a2 x =
     (let c = cl_client e; i = the (cl_iso e)
      in if kind = 4 \<or> kind = 5 then
           andThen (inspectorRegisteredCallbackContext E t order e a0 x) (\<lambda>ctx x.
             let (s, x) = borrowScope i a2 x
             in if c_closed (contexts (ibase x) ctx) \<or> a1 = 0 then (Inl (Misuse ''fatal: invalid Inspector value callback local''), x)
                else let has = (if kind = 4 then CapSubtype else CapDescription) \<in> caps c;
                         x = clientMethod f has (if kind = 4 then ValueSubtype c s a1 else DescriptionForValueSubtype c s a1) x
                     in andThen (inspectorClientNativeBuffer E t (if has then re_buffer q else None) x) (\<lambda>v x. (Inr v, returnScope s x)))
         else if kind = 6 then
           if CapDefaultContext \<notin> caps c then (Inr 0, x)
           else let x = clientMethod f True (EnsureDefaultContextInGroup c (ucast a0)) x
                in case re_context q of
                     None \<Rightarrow> (Inr 0, x)
                   | Some ctx \<Rightarrow>
                       guarded
                         [fail_if (Some (c_iso (contexts (ibase x) ctx)) \<noteq> cl_iso e) (Misuse ''fatal: Inspector default context belongs to a different isolate''),
                          Context_checkAssumingIsolate ctx (ibase x),
                          fail_if (Option.bind (iclients x k) cl_inspector = None) (Misuse ''fatal: Inspector default context has no Inspector''),
                          fail_if (ctx \<notin> n_contexts (inspectors x (the (Option.bind (iclients x k) cl_inspector))))
                            (Misuse ''fatal: Inspector default context is not registered'')]
                         (\<lambda>x. (Inr (c_handle (contexts (ibase x) ctx)), x)) x
         else (Inl (Misuse ''fatal: invalid extended Inspector client callback kind''), x))"

definition inspectorExtendedClientDispatch ::
    "engine \<Rightarrow> tid \<Rightarrow> (isys \<Rightarrow> isys) \<Rightarrow> (ref set \<Rightarrow> ref list) \<Rightarrow> (uintptr \<Rightarrow> nat \<Rightarrow> 8 word list) \<Rightarrow> (uintptr \<Rightarrow> nat \<Rightarrow> 16 word list) \<Rightarrow>
      (nat \<Rightarrow> icap set) \<Rightarrow> creply \<Rightarrow> nat \<Rightarrow> uintptr \<Rightarrow> (nat \<Rightarrow> uintptr) \<Rightarrow> isys \<Rightarrow> uintptr iresult" where
  [op_defs]: "inspectorExtendedClientDispatch E t f order m8 m16 caps q k kind a =
     clientDispatch t k (\<lambda>e x.
       let c = cl_client e; view = inspectorCallbackView m8 m16; has = (\<lambda>p. p \<in> caps c)
       in if kind = 0 then (Inr (if has CapUniqueID then re_id q else 0), clientMethod f (has CapUniqueID) (GenerateUniqueID c) x)
          else if kind = 1 then (Inr 0, clientMethod f (has CapWaiting) (RunIfWaitingForDebugger c (ucast (a 0))) x)
          else if kind = 2 then
            if \<not> has CapResource then (Inr 0, x)
            else (case view (a 0) (a 1) (a 2) of
                    Inl err \<Rightarrow> (Inl err, x)
                  | Inr v \<Rightarrow> inspectorClientNativeBuffer E t (re_buffer q) (clientMethod f True (ResourceNameToURL c v) x))
          else if kind = 3 then
            if \<not> has CapConsole then (Inr 0, x)
            else (case (view (a 2) (a 3) (a 4), view (a 5) (a 6) (a 7)) of
                    (Inr v, Inr u) \<Rightarrow>
                      (Inr 0, clientMethod f True (ConsoleAPIMessage c (ucast (a 0)) (ucast (a 1)) v u (ucast (a 8)) (ucast (a 9)) (a 10 \<noteq> 0)) x)
                  | (Inl err, _) \<Rightarrow> (Inl err, x)
                  | (_, Inl err) \<Rightarrow> (Inl err, x))
          else inspectorClientValueDispatch E t f order caps q k e kind (a 0) (a 1) (a 2) x)"

end
