(* ===== verification/InspectorState.thy ===== *)
theory InspectorState
  imports Inspectors
begin

text \<open>
  Runs of the inspector: sequences of calls with what the engine calls back meanwhile, the invariant that ties the lifecycle
  counts of \<open>inspector_transport.go\<close> to the inspectors, sessions and registrations that are open, and for each
  change of the state that an operation makes, that it keeps the invariant and what a callback in progress relies on.
\<close>

section \<open>Sequences of calls\<close>

text \<open>
  What the embedder and the engine do, one after the other; a call of the engine carries what the engine calls meanwhile. The
  messages \<open>imsg\<close> that come while a context is registered or a session is connected are handled by channels that make no call
  of their own (\<open>nested_destroy_undercounts\<close> is about those that do). Messages of a session that is closed are for its own channel.
\<close>

type_synonym imsg = "nat \<times> 32 word \<times> 32 word \<times> 8 word list"

datatype iact =
    IWorld tid api
  | INew tid "ref option" "nat option" "iact list"
  | ICreated tid "ref option" "ref option" int InspectorStringView InspectorStringView "imsg list"
  | IDestroyed tid bool "ref option" "ref option" "imsg list"
  | IConnect tid "ref option" int "nat option" InspectorStringView int "imsg list"
  | IDispatch tid bool "ref option" InspectorStringView "iact list"
  | IRelease tid "ref option" InspectorStringView "iact list"
  | ISchedule tid "ref option" InspectorStringView InspectorStringView "iact list"
  | ICancel tid "ref option" "iact list"
  | ICanDispatch tid InspectorStringView
  | ISessionClose tid bool "ref option" "iact list list"
  | IClose tid "ref option" "imsg list"
  | IChannel imsg "iact list"
  | IClient tid nat "32 word" "32 word" "iact list"
  | IExtended tid nat uintptr "uintptr list" creply "iact list"

text \<open>What is fixed during a run: the callback pointer, the methods of the clients, the order of map iterations, the memory.\<close>

record ihost =
  ho_dispatch :: uintptr
  ho_caps :: "nat \<Rightarrow> icap set"
  ho_order :: "ref set \<Rightarrow> ref list"
  ho_m8 :: "uintptr \<Rightarrow> nat \<Rightarrow> 8 word list"
  ho_m16 :: "uintptr \<Rightarrow> nat \<Rightarrow> 16 word list"

text \<open>A fatal misuse ends the process: nothing happens after it, and a run goes on from the state before.\<close>

definition survives :: "isys \<Rightarrow> 'a iresult \<Rightarrow> isys" where
  "survives x r = (case fst r of Inr _ \<Rightarrow> snd r | Inl _ \<Rightarrow> x)"

definition channelMessage :: "(isys \<Rightarrow> isys) \<Rightarrow> imsg \<Rightarrow> isys \<Rightarrow> isys" where
  "channelMessage f m x =
     (case m of (k, kind, callID, bytes) \<Rightarrow>
        survives x (inspectorChannelDispatch f k kind callID 1 1 (of_nat (length bytes)) bytes [] x))"

definition messages :: "imsg list \<Rightarrow> isys \<Rightarrow> isys" where
  "messages ms = fold id (map (channelMessage id) ms)"

fun iexec :: "engine \<Rightarrow> ihost \<Rightarrow> iact \<Rightarrow> isys \<Rightarrow> isys" where
  "iexec E H (IWorld t a) x = x\<lparr>ibase := exec E t a (ibase x)\<rparr>"
| "iexec E H (INew t mi mcl as) x =
     (let f = fold id (map (iexec E H) as)
      in case mcl of None \<Rightarrow> snd (NewInspector E t (ho_dispatch H) f mi x) | Some cl \<Rightarrow> snd (NewInspectorWithClient E t (ho_dispatch H) (ho_dispatch H) (ho_dispatch H) f mi (Some cl) x))"
| "iexec E H (ICreated t mn mc g nm aux ms) x = snd (ContextCreated E t (messages ms) mn mc g nm aux x)"
| "iexec E H (IDestroyed t b mn mc ms) x = snd (ContextDestroyed E t (messages ms) b mn mc x)"
| "iexec E H (IConnect t mn g ch st tr ms) x = snd (Connect E t (messages ms) mn g ch st tr x)"
| "iexec E H (IDispatch t b ms v as) x = snd (DispatchProtocolMessage E t (fold id (map (iexec E H) as)) b ms v x)"
| "iexec E H (IRelease t ms v as) x = snd (ReleaseObjectGroup E t (fold id (map (iexec E H) as)) ms v x)"
| "iexec E H (ISchedule t ms v v' as) x = snd (SchedulePauseOnNextStatement E t (fold id (map (iexec E H) as)) ms v v' x)"
| "iexec E H (ICancel t ms as) x = snd (CancelPauseOnNextStatement E t (fold id (map (iexec E H) as)) ms x)"
| "iexec E H (ICanDispatch t v) x = snd (InspectorCanDispatchMethod E t v x)"
| "iexec E H (ISessionClose t b ms ass) x =
     (let k = ss_channelID (isessions x (the ms))
      in snd (Session_Close E t (fold id (map (\<lambda>as. channelMessage (fold id (map (iexec E H) as)) (k, 1, 0, [])) ass)) b ms x))"
| "iexec E H (IClose t mn ms) x = snd (Inspector_Close E t (messages ms) mn x)"
| "iexec E H (IChannel m as) x = channelMessage (fold id (map (iexec E H) as)) m x"
| "iexec E H (IClient t k kind g as) x =
     survives x (inspectorClientDispatchCallback t (fold id (map (iexec E H) as)) (ho_caps H) k kind g x)"
| "iexec E H (IExtended t k kind args q as) x =
     survives x (inspectorExtendedClientDispatch E t (fold id (map (iexec E H) as)) (ho_order H) (ho_m8 H) (ho_m16 H) (ho_caps H) q k kind
       (\<lambda>j. if j < length args then args ! j else 0) x)"

definition iruns :: "engine \<Rightarrow> ihost \<Rightarrow> iact list \<Rightarrow> isys \<Rightarrow> isys" where
  "iruns E H as x = fold id (map (iexec E H) as) x"

definition iboot :: "world \<Rightarrow> isys" where
  "iboot w = \<lparr>ibase = w,
     inspectors = (\<lambda>_. \<lparr>n_iso = 0, n_handle = 0, n_closed = True, n_sessions = 0, n_contexts = {}\<rparr>), inextInspector = 0,
     isessions = (\<lambda>_. \<lparr>ss_inspector = 0, ss_handle = 0, ss_channelID = 0, ss_closed = True, ss_active = 0\<rparr>), inextSession = 0,
     ichannels = Map.empty, ichannelNext = 0, iclients = Map.empty, iclientNext = 0, iclientOf = Map.empty,
     idispatchErr = None, iclientDispatchErr = None, icallbacks = []\<rparr>"

section \<open>The invariant\<close>

definition openInspectors :: "isys \<Rightarrow> ref \<Rightarrow> ref set" where
  "openInspectors x i = {n. n < inextInspector x \<and> \<not> n_closed (inspectors x n) \<and> n_iso (inspectors x n) = i}"

definition sessionsOf :: "isys \<Rightarrow> ref \<Rightarrow> ref set" where
  "sessionsOf x n = {s. s < inextSession x \<and> \<not> ss_closed (isessions x s) \<and> ss_inspector (isessions x s) = n}"

definition isolateSessions :: "isys \<Rightarrow> ref \<Rightarrow> ref set" where
  "isolateSessions x i = {s. s < inextSession x \<and> \<not> ss_closed (isessions x s) \<and> n_iso (inspectors x (ss_inspector (isessions x s))) = i}"

definition registrations :: "isys \<Rightarrow> ref \<Rightarrow> ref \<Rightarrow> ref set" where
  "registrations x i c = {n. n < inextInspector x \<and> n_iso (inspectors x n) = i \<and> c \<in> n_contexts (inspectors x n)}"

abbreviation lifecycle :: "isys \<Rightarrow> ref \<Rightarrow> inspectorLifecycle" where
  "lifecycle x i \<equiv> inspectorLifecycleForUpdate i (ibase x)"

definition tidy :: "inspectorLifecycle \<Rightarrow> bool" where
  "tidy s \<longleftrightarrow> distinct (map fst (il_contexts s)) \<and> (\<forall>p \<in> set (il_contexts s). snd p \<noteq> 0)"

definition counted_inspectors :: "isys \<Rightarrow> bool" where
  "counted_inspectors x \<longleftrightarrow>
     (\<forall>i. il_inspectors (lifecycle x i) = card (openInspectors x i))
     \<and> (\<forall>i. il_sessions (lifecycle x i) = card (isolateSessions x i))
     \<and> (\<forall>i c. ctxCount (il_contexts (lifecycle x i)) c = card (registrations x i c))"

definition sessions_fit :: "isys \<Rightarrow> bool" where
  "sessions_fit x \<longleftrightarrow>
     (\<forall>n < inextInspector x. n_sessions (inspectors x n) = int (card (sessionsOf x n)))
     \<and> (\<forall>n < inextInspector x. n_closed (inspectors x n) \<longrightarrow> n_contexts (inspectors x n) = {})
     \<and> (\<forall>n \<ge> inextInspector x. n_closed (inspectors x n)) \<and> (\<forall>s \<ge> inextSession x. ss_closed (isessions x s))
     \<and> (\<forall>s < inextSession x. \<not> ss_closed (isessions x s) \<longrightarrow>
          ss_inspector (isessions x s) < inextInspector x \<and> \<not> n_closed (inspectors x (ss_inspector (isessions x s))))"

definition lifecycles_tidy :: "world \<Rightarrow> bool" where
  "lifecycles_tidy w \<longleftrightarrow>
     (\<forall>i s. inspectorIsolates w i = Some s \<longrightarrow> tidy s \<and> \<not> (il_inspectors s = 0 \<and> il_sessions s = 0 \<and> il_contexts s = []))"

definition registries_ok :: "isys \<Rightarrow> bool" where
  "registries_ok x \<longleftrightarrow>
     (\<forall>k e. ichannels x k = Some e \<longrightarrow> k \<le> ichannelNext x \<and> 0 \<le> ch_active e)
     \<and> (\<forall>k e. iclients x k = Some e \<longrightarrow> k \<le> iclientNext x \<and> 0 \<le> cl_active e)
     \<and> (\<forall>s < inextSession x. ss_channelID (isessions x s) \<le> ichannelNext x)"

definition insp_inv :: "isys \<Rightarrow> bool" where
  "insp_inv x \<longleftrightarrow> counted_inspectors x \<and> sessions_fit x \<and> lifecycles_tidy (ibase x) \<and> registries_ok x"

text \<open>What a call, with everything that it calls back, leaves alone: a registered callback is neither moved nor its count changed,
  an entry goes only when nothing of it runs, and the session of a running channel stays open.\<close>

definition running :: "nat \<Rightarrow> isys \<Rightarrow> bool" where
  "running k x \<longleftrightarrow> k \<le> ichannelNext x \<and> (\<exists>e. ichannels x k = Some e \<and> 0 < ch_active e)"

definition keeps_count :: "('e \<Rightarrow> int) \<Rightarrow> 'e option \<Rightarrow> 'e option \<Rightarrow> bool" where
  "keeps_count act a b =
     (case a of None \<Rightarrow> b = None | Some e \<Rightarrow> (case b of None \<Rightarrow> act e = 0 | Some e' \<Rightarrow> act e' = act e))"

definition iext :: "isys \<Rightarrow> isys \<Rightarrow> bool" where
  "iext x y \<longleftrightarrow>
     inextInspector x \<le> inextInspector y \<and> inextSession x \<le> inextSession y \<and> ichannelNext x \<le> ichannelNext y \<and> iclientNext x \<le> iclientNext y
     \<and> (\<forall>n < inextInspector x. n_iso (inspectors y n) = n_iso (inspectors x n))
     \<and> (\<forall>s < inextSession x. ss_inspector (isessions y s) = ss_inspector (isessions x s) \<and> ss_channelID (isessions y s) = ss_channelID (isessions x s))
     \<and> (\<forall>k \<le> ichannelNext x. keeps_count ch_active (ichannels x k) (ichannels y k))
     \<and> (\<forall>k \<le> iclientNext x. keeps_count cl_active (iclients x k) (iclients y k))
     \<and> (\<forall>s < inextSession x. \<not> ss_closed (isessions x s) \<longrightarrow> running (ss_channelID (isessions x s)) x \<longrightarrow> \<not> ss_closed (isessions y s))"

lemma iextD:
  assumes "iext x y"
  shows "k \<le> ichannelNext x \<Longrightarrow> keeps_count ch_active (ichannels x k) (ichannels y k)"
    "k \<le> iclientNext x \<Longrightarrow> keeps_count cl_active (iclients x k) (iclients y k)"
    "s < inextSession x \<Longrightarrow> \<not> ss_closed (isessions x s) \<Longrightarrow> running (ss_channelID (isessions x s)) x \<Longrightarrow> \<not> ss_closed (isessions y s)"
  using assms unfolding iext_def by blast+

lemma keeps_count_refl [simp]: "keeps_count act a a"
  by (simp add: keeps_count_def split: option.split)

lemma keeps_count_trans: "keeps_count act a b \<Longrightarrow> keeps_count act b c \<Longrightarrow> keeps_count act a c"
  by (auto simp: keeps_count_def split: option.splits)

lemma keeps_count_entries [simp]: "keeps_count act None b \<longleftrightarrow> b = None" "keeps_count act (Some e) (Some e') \<longleftrightarrow> act e' = act e"
  "keeps_count act (Some e) None \<longleftrightarrow> act e = 0"
  by (auto simp: keeps_count_def)

section \<open>Lifecycle records\<close>

lemma forUpdate_put:
  "inspectorLifecycleForUpdate j (w\<lparr>inspectorIsolates := (inspectorIsolates w)(i \<mapsto> s)\<rparr>) = (if j = i then s else inspectorLifecycleForUpdate j w)"
  by (simp add: inspectorLifecycleForUpdate_def)

lemma forUpdate_prune:
  "inspectorLifecycleForUpdate j (pruneInspectorLifecycleLocked i s w) = (if j = i then s else inspectorLifecycleForUpdate j w)"
  by (cases s) (simp add: inspectorLifecycleForUpdate_def pruneInspectorLifecycleLocked_def)

lemma forUpdate_Some: "inspectorIsolates w i = Some s \<Longrightarrow> inspectorLifecycleForUpdate i w = s"
  by (simp add: inspectorLifecycleForUpdate_def)

lemma ctxCount_put: "ctxCount (ctxPut c n m) c' = (if c' = c then n else ctxCount m c')"
proof -
  have "map_of (filter (\<lambda>p. fst p \<noteq> c) m) c' = (if c' = c then None else map_of m c')" by (induction m) auto
  then show ?thesis by (simp add: ctxCount_def ctxPut_def)
qed

lemma ctxCount_filter: "ctxCount (filter (\<lambda>p. fst p \<noteq> c) m) c' = (if c' = c then 0 else ctxCount m c')"
proof -
  have "map_of (filter (\<lambda>p. fst p \<noteq> c) m) c' = (if c' = c then None else map_of m c')" by (induction m) auto
  then show ?thesis by (simp add: ctxCount_def)
qed

lemma register_lifecycles:
  "inspectorLifecycleForUpdate j (registerInspectorLifecycle i w) =
     (let s = inspectorLifecycleForUpdate j w in if j = i then s\<lparr>il_inspectors := il_inspectors s + 1\<rparr> else s)"
  "inspectorLifecycleForUpdate j (registerInspectorSessionLifecycle i w) =
     (let s = inspectorLifecycleForUpdate j w in if j = i then s\<lparr>il_sessions := il_sessions s + 1\<rparr> else s)"
  "inspectorLifecycleForUpdate j (registerInspectorContextLifecycle i c w) =
     (let s = inspectorLifecycleForUpdate j w
      in if j = i then s\<lparr>il_contexts := ctxPut c (ctxCount (il_contexts s) c + 1) (il_contexts s)\<rparr> else s)"
  by (simp_all add: registerInspectorLifecycle_def registerInspectorSessionLifecycle_def registerInspectorContextLifecycle_def
      Let_def forUpdate_put)

lemma unregister_lifecycles:
  "0 < il_inspectors (inspectorLifecycleForUpdate i w) \<Longrightarrow>
     inspectorLifecycleForUpdate j (unregisterInspectorLifecycle i w) =
     (let s = inspectorLifecycleForUpdate j w in if j = i then s\<lparr>il_inspectors := il_inspectors s - 1\<rparr> else s)"
  "0 < il_sessions (inspectorLifecycleForUpdate i w) \<Longrightarrow>
     inspectorLifecycleForUpdate j (unregisterInspectorSessionLifecycle i w) =
     (let s = inspectorLifecycleForUpdate j w in if j = i then s\<lparr>il_sessions := il_sessions s - 1\<rparr> else s)"
  "0 < ctxCount (il_contexts (inspectorLifecycleForUpdate i w)) c \<Longrightarrow>
     il_inspectors (inspectorLifecycleForUpdate j (unregisterInspectorContextLifecycle i c w)) = il_inspectors (inspectorLifecycleForUpdate j w)
     \<and> il_sessions (inspectorLifecycleForUpdate j (unregisterInspectorContextLifecycle i c w)) = il_sessions (inspectorLifecycleForUpdate j w)
     \<and> ctxCount (il_contexts (inspectorLifecycleForUpdate j (unregisterInspectorContextLifecycle i c w))) c' =
       (if j = i \<and> c' = c then ctxCount (il_contexts (inspectorLifecycleForUpdate i w)) c - 1
        else ctxCount (il_contexts (inspectorLifecycleForUpdate j w)) c')"
proof -
  assume "0 < il_inspectors (inspectorLifecycleForUpdate i w)"
  then obtain s where "inspectorIsolates w i = Some s" "0 < il_inspectors s"
    by (auto simp: inspectorLifecycleForUpdate_def split: option.splits)
  then show "inspectorLifecycleForUpdate j (unregisterInspectorLifecycle i w) =
     (let s = inspectorLifecycleForUpdate j w in if j = i then s\<lparr>il_inspectors := il_inspectors s - 1\<rparr> else s)"
    by (simp add: unregisterInspectorLifecycle_def forUpdate_prune forUpdate_Some Let_def)
next
  assume "0 < il_sessions (inspectorLifecycleForUpdate i w)"
  then obtain s where "inspectorIsolates w i = Some s" "0 < il_sessions s"
    by (auto simp: inspectorLifecycleForUpdate_def split: option.splits)
  then show "inspectorLifecycleForUpdate j (unregisterInspectorSessionLifecycle i w) =
     (let s = inspectorLifecycleForUpdate j w in if j = i then s\<lparr>il_sessions := il_sessions s - 1\<rparr> else s)"
    by (simp add: unregisterInspectorSessionLifecycle_def forUpdate_prune forUpdate_Some Let_def)
next
  assume "0 < ctxCount (il_contexts (inspectorLifecycleForUpdate i w)) c"
  then obtain s where s: "inspectorIsolates w i = Some s" "0 < ctxCount (il_contexts s) c"
    by (auto simp: inspectorLifecycleForUpdate_def ctxCount_def split: option.splits)
  then show "il_inspectors (inspectorLifecycleForUpdate j (unregisterInspectorContextLifecycle i c w)) = il_inspectors (inspectorLifecycleForUpdate j w)
     \<and> il_sessions (inspectorLifecycleForUpdate j (unregisterInspectorContextLifecycle i c w)) = il_sessions (inspectorLifecycleForUpdate j w)
     \<and> ctxCount (il_contexts (inspectorLifecycleForUpdate j (unregisterInspectorContextLifecycle i c w))) c' =
       (if j = i \<and> c' = c then ctxCount (il_contexts (inspectorLifecycleForUpdate i w)) c - 1
        else ctxCount (il_contexts (inspectorLifecycleForUpdate j w)) c')"
    by (simp add: unregisterInspectorContextLifecycle_def forUpdate_prune forUpdate_Some ctxCount_put ctxCount_filter)
qed

text \<open>Records stay tidy: no zero counts, no empty record.\<close>

lemma tidy_put: "tidy s \<Longrightarrow> n \<noteq> 0 \<Longrightarrow> tidy (s\<lparr>il_contexts := ctxPut c n (il_contexts s)\<rparr>)"
  by (auto simp: tidy_def ctxPut_def distinct_map_filter)

lemma tidy_filter: "tidy s \<Longrightarrow> tidy (s\<lparr>il_contexts := filter (\<lambda>p. fst p \<noteq> c) (il_contexts s)\<rparr>)"
  by (auto simp: tidy_def distinct_map_filter)

lemma tidy_forUpdate: "lifecycles_tidy w \<Longrightarrow> tidy (inspectorLifecycleForUpdate i w)"
  by (auto simp: lifecycles_tidy_def inspectorLifecycleForUpdate_def tidy_def split: option.split)

lemma tidy_others:
  "tidy s \<Longrightarrow> tidy (s\<lparr>il_inspectors := n\<rparr>)" "tidy s \<Longrightarrow> tidy (s\<lparr>il_sessions := n\<rparr>)"
  by (simp_all add: tidy_def)

lemma tidy_store:
  "lifecycles_tidy w \<Longrightarrow> tidy s \<Longrightarrow> \<not> (il_inspectors s = 0 \<and> il_sessions s = 0 \<and> il_contexts s = []) \<Longrightarrow>
     lifecycles_tidy (w\<lparr>inspectorIsolates := (inspectorIsolates w)(i \<mapsto> s)\<rparr>)"
  by (simp add: lifecycles_tidy_def)

lemma tidy_prune: "lifecycles_tidy w \<Longrightarrow> tidy s \<Longrightarrow> lifecycles_tidy (pruneInspectorLifecycleLocked i s w)"
  by (auto simp: lifecycles_tidy_def pruneInspectorLifecycleLocked_def)

lemma lifecycles_tidy_ops:
  assumes "lifecycles_tidy w"
  shows "lifecycles_tidy (registerInspectorLifecycle i w)" "lifecycles_tidy (unregisterInspectorLifecycle i w)"
    "lifecycles_tidy (registerInspectorSessionLifecycle i w)" "lifecycles_tidy (unregisterInspectorSessionLifecycle i w)"
    "lifecycles_tidy (registerInspectorContextLifecycle i c w)" "lifecycles_tidy (unregisterInspectorContextLifecycle i c w)"
proof -
  note t = tidy_forUpdate [OF assms, of i]
  have s: "tidy s" if "inspectorIsolates w i = Some s" for s using assms that by (auto simp: lifecycles_tidy_def)
  show "lifecycles_tidy (registerInspectorLifecycle i w)" "lifecycles_tidy (registerInspectorSessionLifecycle i w)"
    using t by (auto simp: registerInspectorLifecycle_def registerInspectorSessionLifecycle_def Let_def intro!: tidy_store assms tidy_others)
  show "lifecycles_tidy (registerInspectorContextLifecycle i c w)"
    using tidy_put [OF t, of "Suc (ctxCount (il_contexts (inspectorLifecycleForUpdate i w)) c)" c]
    by (auto simp: registerInspectorContextLifecycle_def Let_def intro!: tidy_store assms) (simp add: ctxPut_def)
  show "lifecycles_tidy (unregisterInspectorLifecycle i w)" "lifecycles_tidy (unregisterInspectorSessionLifecycle i w)"
    using s assms by (auto simp: unregisterInspectorLifecycle_def unregisterInspectorSessionLifecycle_def intro!: tidy_prune tidy_others split: option.split)
  show "lifecycles_tidy (unregisterInspectorContextLifecycle i c w)"
    using s assms tidy_put tidy_filter by (auto simp: unregisterInspectorContextLifecycle_def intro!: tidy_prune split: option.split)
qed

lemma finite_sets [simp]:
  "finite (openInspectors x i)" "finite (sessionsOf x n)" "finite (isolateSessions x i)" "finite (registrations x i c)"
  by (simp_all add: openInspectors_def sessionsOf_def isolateSessions_def registrations_def)

section \<open>Steps\<close>

definition evolves :: "isys \<Rightarrow> isys \<Rightarrow> bool" where
  "evolves x y \<longleftrightarrow> (insp_inv x \<longrightarrow> insp_inv y \<and> iext x y)"

lemma iext_refl: "iext x x"
  by (simp add: iext_def)

lemma iext_trans:
  assumes "iext x y" "iext y z"
  shows "iext x z"
proof -
  have a: "ss_channelID (isessions y s) = ss_channelID (isessions x s)" if "s < inextSession x" for s using assms(1) that by (simp add: iext_def)
  have b: "running k y" if "running k x" for k
  proof -
    from that obtain e where e: "k \<le> ichannelNext x" "ichannels x k = Some e" "0 < ch_active e" by (auto simp: running_def)
    moreover from e(1) assms(1) have "keeps_count ch_active (ichannels x k) (ichannels y k)" unfolding iext_def by blast
    moreover have "ichannelNext x \<le> ichannelNext y" using assms(1) by (simp add: iext_def)
    ultimately show ?thesis by (cases "ichannels y k") (auto simp: running_def)
  qed
  show ?thesis unfolding iext_def
  proof (intro conjI allI impI)
    fix s assume "s < inextSession x" "\<not> ss_closed (isessions x s)" "running (ss_channelID (isessions x s)) x"
    with assms a b show "\<not> ss_closed (isessions z s)" by (auto simp: iext_def)
  next
    fix k assume "k \<le> ichannelNext x"
    with assms show "keeps_count ch_active (ichannels x k) (ichannels z k)"
      unfolding iext_def by (meson keeps_count_trans order_trans)
  next
    fix k assume "k \<le> iclientNext x"
    with assms show "keeps_count cl_active (iclients x k) (iclients z k)"
      unfolding iext_def by (meson keeps_count_trans order_trans)
  qed (use assms in \<open>auto simp: iext_def\<close>)
qed

lemma evolves_refl [simp]: "evolves x x"
  by (simp add: evolves_def iext_refl)

lemma evolves_trans [trans]: "evolves x y \<Longrightarrow> evolves y z \<Longrightarrow> evolves x z"
  using iext_trans by (auto simp: evolves_def)

text \<open>Changes outside the inspector's registries.\<close>

lemma evolves_base: "inspectorIsolates w = inspectorIsolates (ibase x) \<Longrightarrow> evolves x (x\<lparr>ibase := w\<rparr>)"
  by (simp add: evolves_def insp_inv_def counted_inspectors_def sessions_fit_def lifecycles_tidy_def registries_ok_def iext_def
      openInspectors_def sessionsOf_def isolateSessions_def registrations_def inspectorLifecycleForUpdate_def running_def)


lemma evolves_other [simp]:
  "evolves x (x\<lparr>icallbacks := l\<rparr>)" "evolves x (x\<lparr>idispatchErr := d\<rparr>)" "evolves x (x\<lparr>iclientDispatchErr := d\<rparr>)"
  "evolves x (x\<lparr>iclientOf := m\<rparr>)"
  by (simp_all add: evolves_def insp_inv_def counted_inspectors_def sessions_fit_def lifecycles_tidy_def registries_ok_def iext_def
      openInspectors_def sessionsOf_def isolateSessions_def registrations_def running_def)

text \<open>A new inspector.\<close>

lemma evolves_newInspector:
  assumes n: "n = inextInspector x"
    and y: "y = x\<lparr>inspectors := (inspectors x)(n := \<lparr>n_iso = i, n_handle = h, n_closed = False, n_sessions = 0, n_contexts = {}\<rparr>),
              inextInspector := Suc n, ibase := registerInspectorLifecycle i (ibase x)\<rparr>"
  shows "evolves x y"
  unfolding evolves_def
proof (intro impI conjI)
  assume inv: "insp_inv x"
  have fit: "ss_inspector (isessions x s) < n" if "s < inextSession x" "\<not> ss_closed (isessions x s)" for s
    using inv that n by (auto simp: insp_inv_def sessions_fit_def)
  have o: "openInspectors y j = (if j = i then insert n (openInspectors x j) else openInspectors x j)" "n \<notin> openInspectors x j" for j
    by (auto simp: openInspectors_def y n)
  have s: "isolateSessions y j = isolateSessions x j" "sessionsOf y m = sessionsOf x m" for j m
    using fit by (auto simp: isolateSessions_def sessionsOf_def y)
  have none: "sessionsOf x n = {}" using fit by (auto simp: sessionsOf_def)
  have r: "registrations y j c = registrations x j c" for j c by (auto simp: registrations_def y n less_Suc_eq)
  show "insp_inv y" unfolding insp_inv_def
  proof (intro conjI)
    show "counted_inspectors y" using inv o
      by (simp add: insp_inv_def counted_inspectors_def s r) (simp add: y register_lifecycles Let_def)
    show "sessions_fit y" using inv fit none
      by (auto simp: insp_inv_def sessions_fit_def s) (auto simp: y n less_Suc_eq)
    show "lifecycles_tidy (ibase y)" using inv by (simp add: insp_inv_def y lifecycles_tidy_ops)
    show "registries_ok y" using inv by (simp add: insp_inv_def registries_ok_def y)
  qed
  show "iext x y" by (auto simp: iext_def y n)
qed

lemma card_insert_new: "finite A \<Longrightarrow> a \<notin> A \<Longrightarrow> card (insert a A) = card A + 1"
  by simp

text \<open>A context is registered with an inspector, or no longer.\<close>

lemma evolves_context:
  assumes n: "n < inextInspector x" "n_iso (inspectors x n) = i" "\<not> n_closed (inspectors x n)"
    and y: "y = (upd_inspector n (\<lambda>q. q\<lparr>n_contexts := C\<rparr>) x)\<lparr>ibase := w\<rparr>"
    and t: "lifecycles_tidy (ibase x) \<Longrightarrow> lifecycles_tidy w"
    and w: "\<And>j c. counted_inspectors x \<Longrightarrow> il_inspectors (inspectorLifecycleForUpdate j w) = il_inspectors (lifecycle x j)
       \<and> il_sessions (inspectorLifecycleForUpdate j w) = il_sessions (lifecycle x j)
       \<and> ctxCount (il_contexts (inspectorLifecycleForUpdate j w)) c =
         card (if j = i then (if c \<in> C then insert n (registrations x j c) else registrations x j c - {n}) else registrations x j c)"
  shows "evolves x y"
  unfolding evolves_def
proof (intro impI conjI)
  assume inv: "insp_inv x"
  have o: "openInspectors y j = openInspectors x j" "isolateSessions y j = isolateSessions x j" "sessionsOf y m = sessionsOf x m" for j m
    by (auto simp: openInspectors_def isolateSessions_def sessionsOf_def y upd_inspector_def)
  have r: "registrations y j c = (if j = i then (if c \<in> C then insert n (registrations x j c) else registrations x j c - {n}) else registrations x j c)" for j c
    using n by (auto simp: registrations_def y upd_inspector_def)
  have c: "counted_inspectors x" using inv by (simp add: insp_inv_def)
  show "insp_inv y" unfolding insp_inv_def
  proof (intro conjI)
    show "counted_inspectors y" using c w [OF c] by (simp add: counted_inspectors_def o r) (simp add: y)
    show "sessions_fit y" using inv n by (auto simp: insp_inv_def sessions_fit_def o) (auto simp: y upd_inspector_def split: if_splits)
    show "lifecycles_tidy (ibase y)" using inv t by (simp add: insp_inv_def y)
    show "registries_ok y" using inv by (simp add: insp_inv_def registries_ok_def y upd_inspector_def)
  qed
  show "iext x y" by (auto simp: iext_def y upd_inspector_def running_def)
qed

lemma evolves_created:
  assumes "n < inextInspector x" "\<not> n_closed (inspectors x n)" "c \<notin> n_contexts (inspectors x n)"
  shows "evolves x ((upd_inspector n (\<lambda>q. q\<lparr>n_contexts := insert c (n_contexts q)\<rparr>) x)
    \<lparr>ibase := registerInspectorContextLifecycle (n_iso (inspectors x n)) c (ibase x)\<rparr>)"
proof -
  have n: "n \<notin> registrations x i c" "d \<in> n_contexts (inspectors x n) \<Longrightarrow> insert n (registrations x (n_iso (inspectors x n)) d) = registrations x (n_iso (inspectors x n)) d"
    "d \<notin> n_contexts (inspectors x n) \<Longrightarrow> registrations x i d - {n} = registrations x i d" for i d
    using assms by (auto simp: registrations_def)
  have "upd_inspector n (\<lambda>q. q\<lparr>n_contexts := insert c (n_contexts q)\<rparr>) x
      = upd_inspector n (\<lambda>q. q\<lparr>n_contexts := insert c (n_contexts (inspectors x n))\<rparr>) x" by (simp add: upd_inspector_def)
  then show ?thesis
    by (intro evolves_context [OF assms(1) refl assms(2), where C = "insert c (n_contexts (inspectors x n))"
          and w = "registerInspectorContextLifecycle (n_iso (inspectors x n)) c (ibase x)"])
      (use n in \<open>auto simp: lifecycles_tidy_ops register_lifecycles Let_def counted_inspectors_def ctxCount_put\<close>)
qed

lemma evolves_destroyed:
  assumes "n < inextInspector x" "\<not> n_closed (inspectors x n)" "c \<in> n_contexts (inspectors x n)"
  shows "evolves x ((upd_inspector n (\<lambda>q. q\<lparr>n_contexts := n_contexts q - {c}\<rparr>) x)
    \<lparr>ibase := unregisterInspectorContextLifecycle (n_iso (inspectors x n)) c (ibase x)\<rparr>)"
proof -
  have n: "n \<in> registrations x (n_iso (inspectors x n)) c"
    "d \<in> n_contexts (inspectors x n) \<Longrightarrow> insert n (registrations x (n_iso (inspectors x n)) d) = registrations x (n_iso (inspectors x n)) d"
    "d \<notin> n_contexts (inspectors x n) \<Longrightarrow> registrations x i d - {n} = registrations x i d" for i d
    using assms by (auto simp: registrations_def)
  have pos: "0 < ctxCount (il_contexts (lifecycle x (n_iso (inspectors x n)))) c" if "counted_inspectors x"
    using that n(1) by (auto simp: counted_inspectors_def card_gt_0_iff)
  have "upd_inspector n (\<lambda>q. q\<lparr>n_contexts := n_contexts q - {c}\<rparr>) x
      = upd_inspector n (\<lambda>q. q\<lparr>n_contexts := n_contexts (inspectors x n) - {c}\<rparr>) x" by (simp add: upd_inspector_def)
  then show ?thesis
    by (intro evolves_context [OF assms(1) refl assms(2), where C = "n_contexts (inspectors x n) - {c}"
          and w = "unregisterInspectorContextLifecycle (n_iso (inspectors x n)) c (ibase x)"])
      (use n unregister_lifecycles(3) [OF pos] in \<open>auto simp: lifecycles_tidy_ops counted_inspectors_def card_Diff_singleton\<close>)
qed

text \<open>A channel or a client is registered.\<close>

lemma evolves_registries:
  assumes "inspectors y = inspectors x" "isessions y = isessions x" "inextInspector y = inextInspector x" "inextSession y = inextSession x"
    "ibase y = ibase x" and r: "registries_ok x \<Longrightarrow> registries_ok y \<and> iext x y"
  shows "evolves x y"
  unfolding evolves_def
proof (intro impI conjI)
  assume inv: "insp_inv x"
  have "openInspectors y j = openInspectors x j" "registrations y j c = registrations x j c"
    "isolateSessions y j = isolateSessions x j" "sessionsOf y m = sessionsOf x m" for j c m
    using assms by (simp_all add: openInspectors_def registrations_def isolateSessions_def sessionsOf_def)
  with assms inv show "insp_inv y" "iext x y"
    by (simp_all add: insp_inv_def counted_inspectors_def sessions_fit_def)
qed

lemma evolves_channel_added:
  assumes "k = Suc (ichannelNext x)" "ch_active e = 0"
  shows "evolves x (x\<lparr>ichannelNext := k, ichannels := (ichannels x)(k \<mapsto> e)\<rparr>)"
  using assms by (intro evolves_registries) (auto simp: registries_ok_def iext_def running_def le_SucI)

lemma evolves_client_added:
  assumes "k = Suc (iclientNext x)" "cl_active e = 0"
  shows "evolves x (x\<lparr>iclientNext := k, iclients := (iclients x)(k \<mapsto> e)\<rparr>)"
  using assms by (intro evolves_registries) (auto simp: registries_ok_def iext_def running_def le_SucI)

lemma evolves_channel_changed:
  assumes "keeps_count ch_active (ichannels x k) e"
  shows "evolves x (x\<lparr>ichannels := (ichannels x)(k := e)\<rparr>)"
proof -
  have "0 \<le> ch_active e' \<and> k \<le> ichannelNext x" if "registries_ok x" "e = Some e'" for e'
    using assms that by (cases "ichannels x k") (auto simp: registries_ok_def)
  with assms show ?thesis
    by (intro evolves_registries) (auto simp: registries_ok_def iext_def running_def)
qed

lemma evolves_client_changed:
  assumes "keeps_count cl_active (iclients x k) e"
  shows "evolves x (x\<lparr>iclients := (iclients x)(k := e)\<rparr>)"
proof -
  have "0 \<le> cl_active e' \<and> k \<le> iclientNext x" if "registries_ok x" "e = Some e'" for e'
    using assms that by (cases "iclients x k") (auto simp: registries_ok_def)
  with assms show ?thesis
    by (intro evolves_registries) (auto simp: registries_ok_def iext_def running_def)
qed

text \<open>A session begins.\<close>

lemma evolves_connected:
  assumes n: "n < inextInspector x" "\<not> n_closed (inspectors x n)" "k \<le> ichannelNext x"
    and y: "y = (upd_inspector n (\<lambda>q. q\<lparr>n_sessions := n_sessions q + 1\<rparr>)
        (x\<lparr>isessions := (isessions x)
            (inextSession x := \<lparr>ss_inspector = n, ss_handle = h, ss_channelID = k, ss_closed = False, ss_active = 0\<rparr>),
           inextSession := Suc (inextSession x)\<rparr>))
        \<lparr>ibase := registerInspectorSessionLifecycle (n_iso (inspectors x n)) (ibase x)\<rparr>"
  shows "evolves x y"
  unfolding evolves_def
proof (intro impI conjI)
  let ?s = "inextSession x" let ?i = "n_iso (inspectors x n)"
  assume inv: "insp_inv x"
  have o: "openInspectors y j = openInspectors x j" "registrations y j c = registrations x j c" for j c
    by (auto simp: openInspectors_def registrations_def y upd_inspector_def)
  have s: "isolateSessions y j = (if j = ?i then insert ?s (isolateSessions x j) else isolateSessions x j)"
    "sessionsOf y m = (if m = n then insert ?s (sessionsOf x m) else sessionsOf x m)" "?s \<notin> isolateSessions x j" "?s \<notin> sessionsOf x m" for j m
    by (auto simp: isolateSessions_def sessionsOf_def y upd_inspector_def less_Suc_eq)
  show "insp_inv y" unfolding insp_inv_def
  proof (intro conjI)
    show "counted_inspectors y" using inv
      by (simp add: insp_inv_def counted_inspectors_def s o) (simp add: y register_lifecycles Let_def)
    show "sessions_fit y" using inv n
      by (auto simp: insp_inv_def sessions_fit_def s) (auto simp: y upd_inspector_def less_Suc_eq split: if_splits)
    show "lifecycles_tidy (ibase y)" using inv by (simp add: insp_inv_def y lifecycles_tidy_ops)
    show "registries_ok y" using inv n by (auto simp: insp_inv_def registries_ok_def y upd_inspector_def less_Suc_eq)
  qed
  show "iext x y" by (auto simp: iext_def y upd_inspector_def running_def)
qed

text \<open>A session ends.\<close>

lemma evolves_session_closed:
  assumes s: "s < inextSession x" "\<not> ss_closed (isessions x s)" "\<not> running (ss_channelID (isessions x s)) x"
    and n: "n = ss_inspector (isessions x s)"
    and y: "y = upd_session s (\<lambda>q. q\<lparr>ss_closed := True, ss_handle := 0\<rparr>)
        ((upd_inspector n (\<lambda>q. q\<lparr>n_sessions := n_sessions q - 1\<rparr>) x)
          \<lparr>ibase := unregisterInspectorSessionLifecycle (n_iso (inspectors x n)) (ibase x)\<rparr>)"
  shows "evolves x y"
  unfolding evolves_def
proof (intro impI conjI)
  let ?i = "n_iso (inspectors x n)"
  assume inv: "insp_inv x"
  have o: "openInspectors y j = openInspectors x j" "registrations y j c = registrations x j c" for j c
    by (auto simp: openInspectors_def registrations_def y upd_inspector_def upd_session_def)
  have e: "isolateSessions y j = (if j = ?i then isolateSessions x j - {s} else isolateSessions x j)"
    "sessionsOf y m = (if m = n then sessionsOf x m - {s} else sessionsOf x m)" for j m
    using s n by (auto simp: isolateSessions_def sessionsOf_def y upd_inspector_def upd_session_def)
  have m: "s \<in> isolateSessions x ?i" "s \<in> sessionsOf x n" using s n by (auto simp: isolateSessions_def sessionsOf_def)
  then have c: "0 < card (isolateSessions x ?i)" "0 < card (sessionsOf x n)" by (auto simp: card_gt_0_iff)
  have p: "0 < il_sessions (lifecycle x ?i)" using inv c(1) by (simp add: insp_inv_def counted_inspectors_def)
  have b: "n < inextInspector x" using inv s n by (auto simp: insp_inv_def sessions_fit_def)
  show "insp_inv y" unfolding insp_inv_def
  proof (intro conjI)
    show "counted_inspectors y" using inv m
      by (simp add: insp_inv_def counted_inspectors_def e o) (simp add: y upd_session_def unregister_lifecycles(2) [OF p] Let_def card_Diff_singleton)
    show "sessions_fit y" using inv m c b
      by (auto simp: insp_inv_def sessions_fit_def e) (auto simp: y upd_inspector_def upd_session_def card_Diff_singleton of_nat_diff split: if_splits)
    show "lifecycles_tidy (ibase y)" using inv by (simp add: insp_inv_def y upd_session_def lifecycles_tidy_ops)
    show "registries_ok y" using inv by (simp add: insp_inv_def registries_ok_def y upd_inspector_def upd_session_def)
  qed
  show "iext x y" using s by (auto simp: iext_def y upd_inspector_def upd_session_def running_def)
qed

text \<open>An inspector ends.\<close>

lemma evolves_inspector_closed:
  assumes n: "n < inextInspector x" "\<not> n_closed (inspectors x n)" "n_sessions (inspectors x n) = 0" "n_contexts (inspectors x n) = {}"
    and y: "y = (upd_inspector n (\<lambda>q. q\<lparr>n_closed := True, n_handle := 0\<rparr>) x)
          \<lparr>ibase := unregisterInspectorLifecycle (n_iso (inspectors x n)) (ibase x)\<rparr>"
  shows "evolves x y"
  unfolding evolves_def
proof (intro impI conjI)
  let ?i = "n_iso (inspectors x n)"
  assume inv: "insp_inv x"
  have o: "openInspectors y j = (if j = ?i then openInspectors x j - {n} else openInspectors x j)" for j
    using n by (auto simp: openInspectors_def y upd_inspector_def)
  have e: "registrations y j c = registrations x j c" "isolateSessions y j = isolateSessions x j" "sessionsOf y m = sessionsOf x m" for j c m
    by (auto simp: registrations_def isolateSessions_def sessionsOf_def y upd_inspector_def)
  have m: "n \<in> openInspectors x ?i" using n by (auto simp: openInspectors_def)
  then have "0 < card (openInspectors x ?i)" by (auto simp: card_gt_0_iff)
  then have p: "0 < il_inspectors (lifecycle x ?i)" using inv by (simp add: insp_inv_def counted_inspectors_def)
  have "card (sessionsOf x n) = 0" using inv n by (auto simp: insp_inv_def sessions_fit_def)
  then have none: "sessionsOf x n = {}" by simp
  show "insp_inv y" unfolding insp_inv_def
  proof (intro conjI)
    show "counted_inspectors y" using inv m
      by (simp add: insp_inv_def counted_inspectors_def e o) (simp add: y unregister_lifecycles(1) [OF p] Let_def card_Diff_singleton)
    show "sessions_fit y" using inv none n
      by (auto simp: insp_inv_def sessions_fit_def e) (auto simp: y upd_inspector_def sessionsOf_def split: if_splits)
    show "lifecycles_tidy (ibase y)" using inv by (simp add: insp_inv_def y lifecycles_tidy_ops)
    show "registries_ok y" using inv by (simp add: insp_inv_def registries_ok_def y upd_inspector_def)
  qed
  show "iext x y" using n by (auto simp: iext_def y upd_inspector_def running_def)
qed

end
