(* ===== verification/InspectorRuns.thy ===== *)
theory InspectorRuns
  imports InspectorState
begin

text \<open>
  Every operation of the inspector keeps the invariant, also when channels and clients call the binding while the engine runs,
  so it holds in every state of a run. At the end a concrete run that serves as an example.
\<close>

unbundle bit_operations_syntax

section \<open>Callbacks\<close>

lemma bump_channel_keeps [simp]:
  "ibase (bump_channel k n x) = ibase x" "inspectors (bump_channel k n x) = inspectors x" "inextInspector (bump_channel k n x) = inextInspector x"
  "inextSession (bump_channel k n x) = inextSession x" "ichannelNext (bump_channel k n x) = ichannelNext x"
  "iclients (bump_channel k n x) = iclients x" "iclientNext (bump_channel k n x) = iclientNext x"
  "ss_closed (isessions (bump_channel k n x) s) = ss_closed (isessions x s)"
  "ss_inspector (isessions (bump_channel k n x) s) = ss_inspector (isessions x s)"
  "ss_channelID (isessions (bump_channel k n x) s) = ss_channelID (isessions x s)"
  "ichannels (bump_channel k n x) k' = (if k' = k then map_option (\<lambda>e. e\<lparr>ch_active := ch_active e + n\<rparr>) (ichannels x k) else ichannels x k')"
  by (auto simp: bump_channel_def upd_session_def Let_def split: option.splits)

lemma bump_client_keeps [simp]:
  "ibase (bump_client k n x) = ibase x" "inspectors (bump_client k n x) = inspectors x" "inextInspector (bump_client k n x) = inextInspector x"
  "inextSession (bump_client k n x) = inextSession x" "ichannelNext (bump_client k n x) = ichannelNext x"
  "ichannels (bump_client k n x) = ichannels x" "iclientNext (bump_client k n x) = iclientNext x" "isessions (bump_client k n x) = isessions x"
  "iclients (bump_client k n x) k' = (if k' = k then map_option (\<lambda>e. e\<lparr>cl_active := cl_active e + n\<rparr>) (iclients x k) else iclients x k')"
  by (auto simp: bump_client_def split: option.splits)

lemma insp_inv_cong:
  assumes "ibase y = ibase x" "inspectors y = inspectors x" "inextInspector y = inextInspector x" "inextSession y = inextSession x"
    "\<And>s. ss_closed (isessions y s) = ss_closed (isessions x s)" "\<And>s. ss_inspector (isessions y s) = ss_inspector (isessions x s)"
    "registries_ok y" "insp_inv x"
  shows "insp_inv y"
proof -
  have "openInspectors y j = openInspectors x j" "registrations y j c = registrations x j c"
    "isolateSessions y j = isolateSessions x j" "sessionsOf y m = sessionsOf x m" for j c m
    using assms by (simp_all add: openInspectors_def registrations_def isolateSessions_def sessionsOf_def)
  with assms show ?thesis by (simp add: insp_inv_def counted_inspectors_def sessions_fit_def)
qed

lemma bump_channel_inv:
  assumes "insp_inv x" "\<And>e. ichannels x k = Some e \<Longrightarrow> 0 \<le> ch_active e + n"
  shows "insp_inv (bump_channel k n x)"
  by (rule insp_inv_cong [OF _ _ _ _ _ _ _ assms(1)]) (use assms in \<open>auto simp: insp_inv_def registries_ok_def\<close>)

lemma bump_client_inv:
  assumes "insp_inv x" "\<And>e. iclients x k = Some e \<Longrightarrow> 0 \<le> cl_active e + n"
  shows "insp_inv (bump_client k n x)"
  by (rule insp_inv_cong [OF _ _ _ _ _ _ _ assms(1)]) (use assms in \<open>auto simp: insp_inv_def registries_ok_def\<close>)

text \<open>A callback between the two changes of its count. Its session is open after it.\<close>

lemma channel_bracket:
  assumes f: "\<And>x. evolves x (f x)" and e: "ichannels x k = Some e" and inv: "insp_inv x"
    and y: "y = bump_channel k (- 1) (f (bump_channel k 1 x))"
  shows "insp_inv y \<and> iext x y \<and>
     (\<forall>s < inextSession x. \<not> ss_closed (isessions x s) \<longrightarrow> ss_channelID (isessions x s) = k \<longrightarrow> \<not> ss_closed (isessions y s))"
proof -
  let ?x = "bump_channel k 1 x"
  have k: "k \<le> ichannelNext x" "0 \<le> ch_active e" using e inv by (auto simp: insp_inv_def registries_ok_def)
  have "insp_inv ?x" using inv k e by (intro bump_channel_inv) auto
  with f have z: "insp_inv (f ?x)" "iext ?x (f ?x)" by (auto simp: evolves_def)
  have "keeps_count ch_active (ichannels ?x k) (ichannels (f ?x) k)" using iextD(1) [OF z(2), of k] k(1) by simp
  then obtain e' where e': "ichannels (f ?x) k = Some e'" "ch_active e' = ch_active e + 1" using e k by (cases "ichannels (f ?x) k") auto
  have r: "running k ?x" "\<And>j. running j x \<Longrightarrow> running j ?x" using k e by (auto simp: running_def)
  have "insp_inv y" unfolding y using z(1) e' k by (intro bump_channel_inv) auto
  moreover have "iext x y" unfolding y iext_def
  proof (intro conjI allI impI)
    fix j assume "j \<le> ichannelNext x"
    then have "keeps_count ch_active (ichannels ?x j) (ichannels (f ?x) j)" using iextD(1) [OF z(2), of j] by simp
    then show "keeps_count ch_active (ichannels x j) (ichannels (bump_channel k (- 1) (f ?x)) j)" using e e' by (cases "j = k") auto
  next
    fix s assume "s < inextSession x" "\<not> ss_closed (isessions x s)" "running (ss_channelID (isessions x s)) x"
    with z(2) r show "\<not> ss_closed (isessions (bump_channel k (- 1) (f ?x)) s)" by (simp add: iext_def)
  qed (use z(2) in \<open>auto simp: iext_def\<close>)
  moreover have "\<not> ss_closed (isessions y s)" if "s < inextSession x" "\<not> ss_closed (isessions x s)" "ss_channelID (isessions x s) = k" for s
    using z(2) that r unfolding y by (simp add: iext_def)
  ultimately show ?thesis by blast
qed

lemma client_bracket:
  assumes f: "\<And>x. evolves x (f x)" and e: "iclients x k = Some e"
  shows "evolves x (bump_client k (- 1) (f (bump_client k 1 x)))" (is "evolves x ?y")
  unfolding evolves_def
proof
  let ?x = "bump_client k 1 x"
  assume inv: "insp_inv x"
  have k: "k \<le> iclientNext x" "0 \<le> cl_active e" using e inv by (auto simp: insp_inv_def registries_ok_def)
  have "insp_inv ?x" using inv k e by (intro bump_client_inv) auto
  with f have z: "insp_inv (f ?x)" "iext ?x (f ?x)" by (auto simp: evolves_def)
  have "keeps_count cl_active (iclients ?x k) (iclients (f ?x) k)" using iextD(2) [OF z(2), of k] k(1) by simp
  then obtain e' where e': "iclients (f ?x) k = Some e'" "cl_active e' = cl_active e + 1" using e k by (cases "iclients (f ?x) k") auto
  have r: "running j ?x = running j x" for j by (simp add: running_def)
  have "insp_inv ?y" using z(1) e' k by (intro bump_client_inv) auto
  moreover have "iext x ?y" unfolding iext_def
  proof (intro conjI allI impI)
    fix j assume "j \<le> iclientNext x"
    then have "keeps_count cl_active (iclients ?x j) (iclients (f ?x) j)" using iextD(2) [OF z(2), of j] by simp
    then show "keeps_count cl_active (iclients x j) (iclients ?y j)" using e e' by (cases "j = k") auto
  qed (use z(2) in \<open>auto simp: iext_def r\<close>)
  ultimately show "insp_inv ?y \<and> iext x ?y" by blast
qed

lemma channelMessage_cases:
  obtains "channelMessage f m x = x"
  | e cb where "ichannels x (fst m) = Some e"
      "channelMessage f m x = bump_channel (fst m) (- 1) (f ((bump_channel (fst m) 1 x)\<lparr>icallbacks := icallbacks (bump_channel (fst m) 1 x) @ [cb]\<rparr>))"
proof -
  obtain k kind c bytes where m: "m = (k, kind, c, bytes)" by (cases m)
  have "channelMessage f m x = x \<or> (\<exists>e cb. ichannels x k = Some e \<and>
      channelMessage f m x = bump_channel k (- 1) (f ((bump_channel k 1 x)\<lparr>icallbacks := icallbacks (bump_channel k 1 x) @ [cb]\<rparr>)))"
    by (cases "ichannels x k") (auto simp: m channelMessage_def survives_def inspectorChannelDispatch_def Let_def)
  with that m show thesis by auto
qed

lemma evolves_channelMessage:
  assumes "\<And>x. evolves x (f x)"
  shows "evolves x (channelMessage f m x)"
proof (cases rule: channelMessage_cases [of f m x])
  case (2 e cb)
  have "evolves x (f (x\<lparr>icallbacks := icallbacks x @ [cb]\<rparr>))" for x by (rule evolves_trans [OF evolves_other(1) assms])
  then show ?thesis using channel_bracket [of "\<lambda>x. f (x\<lparr>icallbacks := icallbacks x @ [cb]\<rparr>)", OF _ 2(1) _ refl] 2(2)
    unfolding evolves_def by simp
qed simp

lemma own_message:
  assumes "\<And>x. evolves x (f x)" "insp_inv x" "s < inextSession x" "\<not> ss_closed (isessions x s)" "ss_channelID (isessions x s) = fst m"
  shows "\<not> ss_closed (isessions (channelMessage f m x) s)"
proof (cases rule: channelMessage_cases [of f m x])
  case (2 e cb)
  have "evolves x (f (x\<lparr>icallbacks := icallbacks x @ [cb]\<rparr>))" for x by (rule evolves_trans [OF evolves_other(1) assms(1)])
  then show ?thesis using channel_bracket [of "\<lambda>x. f (x\<lparr>icallbacks := icallbacks x @ [cb]\<rparr>)", OF _ 2(1) assms(2) refl] 2(2) assms
    by simp
qed (use assms in simp)

text \<open>A channel that makes no call changes nothing but the record of the callbacks.\<close>

lemma bump_back: "ichannels x k = Some e \<Longrightarrow> bump_channel k (- 1) ((bump_channel k 1 x)\<lparr>icallbacks := l\<rparr>) = x\<lparr>icallbacks := l\<rparr>"
  by (cases e) (auto simp: bump_channel_def upd_session_def Let_def fun_upd_idem split: option.splits)

lemma messages_quiet: "\<exists>l. messages ms x = x\<lparr>icallbacks := l\<rparr>"
proof (induction ms arbitrary: x)
  case Nil
  have "messages [] x = x\<lparr>icallbacks := icallbacks x\<rparr>" by (simp add: messages_def)
  then show ?case by blast
next
  case (Cons m ms)
  have "\<exists>l. channelMessage id m x = x\<lparr>icallbacks := l\<rparr>"
  proof (cases rule: channelMessage_cases [of id m x])
    case 1
    then have "channelMessage id m x = x\<lparr>icallbacks := icallbacks x\<rparr>" by simp
    then show ?thesis by blast
  qed (auto simp: bump_back)
  then obtain l where "messages (m # ms) x = messages ms (x\<lparr>icallbacks := l\<rparr>)" by (auto simp: messages_def)
  with Cons [of "x\<lparr>icallbacks := l\<rparr>"] show ?case by auto
qed

section \<open>Operations\<close>

interpretation icount_alloc: alloc_stable "\<lambda>w. inspectorIsolates w = L" for L
  by unfold_locales auto

interpretation icount_scope: scope_blind "\<lambda>w. inspectorIsolates w = L" for L
  by unfold_locales auto

interpretation icount_context: context_blind "\<lambda>w. inspectorIsolates w = L" for L
  by unfold_locales auto

interpretation icount_script: script_blind "\<lambda>w. inspectorIsolates w = L" for L
  by unfold_locales auto

interpretation icount_handle: handle_blind "\<lambda>w. inspectorIsolates w = L" for L
  by unfold_locales auto

interpretation icount_dispose: dispose_blind "\<lambda>w. inspectorIsolates w = L" for L
  by unfold_locales auto

lemma closePersistents_inspectors: "inspectorIsolates (snd (closePersistents E t dh ps err w)) = inspectorIsolates w"
  by (induction ps arbitrary: err w) (simp_all add: Let_def split_def call_eqs)

lemma teardown_inspectors:
  "inspectorIsolates (releaseCounters E t i dh w) = inspectorIsolates w"
  "inspectorIsolates (snd (releaseFastAPI E t i dh w)) = inspectorIsolates w"
  "inspectorIsolates (snd (releaseAllocator E t i w)) = inspectorIsolates w"
  "inspectorIsolates (snd (afterCppGCPersistentIsolateDispose E t i dh w)) = inspectorIsolates w"
  by (simp_all add: teardown_defs call_eqs Let_def closePersistents_inspectors split_def)

lemma lifecycle_inspectors: "inspectorIsolates (lifecycle_exec E t a w) = inspectorIsolates w"
proof (cases a)
  case (OpIsolateClose i)
  have "inspectorIsolates (snd (Isolate_teardown E t i w)) = inspectorIsolates w"
    by (simp add: Isolate_teardown_def Let_def split_def snd_case_option shim_eq clearHandleScopeStack_def
      publishClosedLocked_def UnlockOSThread_def unregisterIsolate_def teardown_inspectors)
  then show ?thesis using OpIsolateClose Isolate_Close_state [of E t i w] by auto
qed (auto simp: op_defs call_eqs outcome_simps Let_def split: option.splits sum.splits)

interpretation icount: api_stable "\<lambda>w. inspectorIsolates w = L" for L
  by unfold_locales (simp_all add: lifecycle_inspectors icount_scope.P_scope_exec icount_context.P_context_exec
      icount_handle.P_handle_exec icount_dispose.P_dispose_exec)

lemma icall_eq: "icall E t p a f x = (fst (shim E t p a (ibase x)), f (x\<lparr>ibase := called t p a (ibase x)\<rparr>))"
  by (simp add: icall_def call_eqs Let_def split_def)

lemma evolves_called [simp]: "evolves x (x\<lparr>ibase := called t p a (ibase x)\<rparr>)"
  by (rule evolves_base) simp

lemma evolvesI: "(insp_inv x \<Longrightarrow> evolves x y) \<Longrightarrow> evolves x y"
  by (simp add: evolves_def)

lemma evolves_onBase:
  assumes "inspectorIsolates (snd (g (ibase x))) = inspectorIsolates (ibase x)"
  shows "evolves x (snd (iOnBase g x))"
  using evolves_base [OF assms] by (simp add: iOnBase_def lift_def)

lemma evolves_icall:
  assumes "\<And>x. evolves x (f x)"
  shows "evolves x (snd (icall E t p a f x))"
  unfolding icall_eq using evolves_trans [OF evolves_called assms] by simp

lemma after_icall:
  assumes f: "\<And>x. evolves x (f x)"
    and k: "\<And>r y. y = f (x\<lparr>ibase := called t p a (ibase x)\<rparr>) \<Longrightarrow> evolves x y \<Longrightarrow> evolves x (snd (k r y))"
  shows "evolves x (snd (let (r, y) = icall E t p a f x in k r y))"
  using k [OF refl evolves_trans [OF evolves_called f]] by (simp add: icall_eq)

lemma after_icall':
  assumes "\<And>r y. y = f (x\<lparr>ibase := called t p a (ibase x)\<rparr>) \<Longrightarrow> evolves x (snd (k r y))"
  shows "evolves x (snd (let (r, y) = icall E t p a f x in k r y))"
  using assms [OF refl] by (simp add: icall_eq)

lemma evolves_guarded: "((\<forall>g \<in> set gs. g = None) \<Longrightarrow> evolves x (snd (k x))) \<Longrightarrow> evolves x (snd (guarded gs k x))"
  by (simp add: snd_guarded)

lemma evolves_andThen: "evolves x (snd m) \<Longrightarrow> (\<And>a y. m = (Inr a, y) \<Longrightarrow> evolves y (snd (k a y))) \<Longrightarrow> evolves x (snd (andThen m k))"
  by (cases m; cases "fst m") (auto intro: evolves_trans)

lemma evolves_ensure: "evolves x (snd (ensureInspectorDispatch E t d x))" "evolves x (snd (ensureInspectorClientDispatch E t d d' x))"
proof -
  have "evolves x (x\<lparr>ibase := called t p a (ibase x), idispatchErr := e\<rparr>)" for x p a e
    using evolves_trans [OF evolves_called evolves_other(2)] by simp
  then show "evolves x (snd (ensureInspectorDispatch E t d x))"
    by (simp add: ensureInspectorDispatch_def iOnBase_def lift_def call_eqs Let_def split: option.split)
  have b: "evolves x (snd (iOnBase (unitCall E t oper p a) x))" for x oper p a
    by (rule evolves_onBase) (simp add: unitCall_def snd_andThen call_eqs Let_def)
  have m: "evolves x (snd (andThen (iOnBase (unitCall E t o1 p a) x) (\<lambda>_. ensureInspectorExtendedClientDispatch E t d')))" for o1 p a
    unfolding snd_andThen ensureInspectorExtendedClientDispatch_def using b evolves_trans [OF b b]
    by (simp split: sum.split)
  have "evolves x (snd (case r of (Inl e, x) \<Rightarrow> (Inl e, x\<lparr>iclientDispatchErr := Some (Some e)\<rparr>)
           | (Inr _, x) \<Rightarrow> (Inr (), x\<lparr>iclientDispatchErr := Some None\<rparr>)))" if "evolves x (snd r)" for r :: "unit iresult"
    using evolves_trans [OF that evolves_other(3)] by (cases r; cases "fst r") auto
  with m show "evolves x (snd (ensureInspectorClientDispatch E t d d' x))"
    by (simp add: ensureInspectorClientDispatch_def split: option.split)
qed

lemma evolves_new:
  assumes f: "\<And>x. evolves x (f x)"
  shows "evolves x (snd (newInspector E t d f mi k x))"
  unfolding newInspector_def Let_def [of "the mi"]
  by (intro evolves_guarded evolves_andThen evolves_ensure after_icall [OF f])
    (simp add: Let_def evolves_trans [OF _ evolves_newInspector [OF refl refl]])

lemma evolves_newWithClient:
  assumes f: "\<And>x. evolves x (f x)"
  shows "evolves x (snd (NewInspectorWithClient E t d d1 d2 f mi mcl x))"
  unfolding NewInspectorWithClient_def
proof (intro evolves_guarded evolves_andThen evolves_ensure)
  fix x1 :: isys
  define k where "k = Suc (iclientNext x1)"
  define e where "e = \<lparr>cl_iso = mi, cl_inspector = None, cl_client = the mcl, cl_active = 0\<rparr>"
  define x2 where "x2 = x1\<lparr>iclientNext := k, iclients := (iclients x1)(k \<mapsto> e)\<rparr>"
  define x3 where "x3 = snd (newInspector E t d f mi k x2)"
  have "evolves x1 x2" unfolding x2_def by (rule evolves_client_added) (simp_all add: k_def e_def)
  note x2 = this
  have x3: "evolves x2 x3" unfolding x3_def by (rule evolves_new [OF f])
  have gone: "keeps_count cl_active (iclients x3 k) None" if "insp_inv x2"
    using iextD(2) [of x2 x3 k] x3 that by (cases "iclients x3 k") (auto simp: evolves_def x2_def e_def)
  have a: "evolves x3 (x3\<lparr>iclients := (iclients x3)(k := None)\<rparr>)" if "insp_inv x2"
    by (rule evolves_client_changed [OF gone [OF that]])
  have "keeps_count cl_active (iclients x3 k) (map_option (\<lambda>e. e\<lparr>cl_inspector := Some n\<rparr>) (iclients x3 k))" for n
    by (cases "iclients x3 k") auto
  from evolves_trans [OF evolves_client_changed [OF this] evolves_other(4)]
  have b: "evolves x3 (x3\<lparr>iclients := (iclients x3)(k := map_option (\<lambda>e. e\<lparr>cl_inspector := Some n\<rparr>) (iclients x3 k)), iclientOf := m\<rparr>)" for n m
    by simp
  have "evolves x2 (snd (case r of
      (Inl e, x) \<Rightarrow> (Inl e, x\<lparr>iclients := (iclients x)(k := None)\<rparr>)
    | (Inr n, x) \<Rightarrow> (Inr n, x\<lparr>iclients := (iclients x)(k := map_option (\<lambda>e. e\<lparr>cl_inspector := Some n\<rparr>) (iclients x k)),
                                  iclientOf := (iclientOf x)(n \<mapsto> k)\<rparr>)))" if "snd r = x3" for r :: "ref iresult"
    by (rule evolvesI, cases r, cases "fst r") (use evolves_trans [OF x3 a] evolves_trans [OF x3 b] that in auto)
  from evolves_trans [OF x2 this [OF x3_def [symmetric]]]
  show "evolves x1 (snd (let k = Suc (iclientNext x1); entry = \<lparr>cl_iso = mi, cl_inspector = None, cl_client = the mcl, cl_active = 0\<rparr>
      in case newInspector E t d f mi k (x1\<lparr>iclientNext := k, iclients := (iclients x1)(k \<mapsto> entry)\<rparr>) of
           (Inl e, x) \<Rightarrow> (Inl e, x\<lparr>iclients := (iclients x)(k := None)\<rparr>)
         | (Inr n, x) \<Rightarrow> (Inr n, x\<lparr>iclients := (iclients x)(k := map_option (\<lambda>e. e\<lparr>cl_inspector := Some n\<rparr>) (iclients x k)),
                                  iclientOf := (iclientOf x)(n \<mapsto> k)\<rparr>)))"
    unfolding Let_def x2_def e_def k_def .
qed

text \<open>What the checks give.\<close>

lemma Inspector_check_open:
  assumes "Inspector_check t mn x = None" "insp_inv x"
  shows "\<not> n_closed (inspectors x (the mn)) \<and> the mn < inextInspector x"
  using assms by (cases mn) (auto simp: Inspector_check_def insp_inv_def sessions_fit_def, meson not_le)

lemma Session_check_open:
  assumes "Session_check t ms x = None" "insp_inv x"
  shows "\<not> ss_closed (isessions x (the ms)) \<and> the ms < inextSession x"
  using assms by (cases ms) (auto simp: Session_check_def insp_inv_def sessions_fit_def, meson not_le)

text \<open>A call during which the channels make none.\<close>

definition quiet :: "isys \<Rightarrow> isys \<Rightarrow> bool" where
  "quiet x y \<longleftrightarrow> (\<exists>w l. y = x\<lparr>ibase := w, icallbacks := l\<rparr>)"

lemma quietD:
  assumes "quiet x y"
  shows "inspectors y = inspectors x" "inextInspector y = inextInspector x" "isessions y = isessions x" "inextSession y = inextSession x"
    "ichannels y = ichannels x" "ichannelNext y = ichannelNext x" "iclients y = iclients x" "iclientOf y = iclientOf x"
  using assms by (auto simp: quiet_def)

lemma after_quiet:
  assumes k: "\<And>r y. quiet x y \<Longrightarrow> evolves y (snd (k r y))"
  shows "evolves x (snd (let (r, y) = icall E t p a (messages ms) x in k r y))"
proof -
  let ?x = "x\<lparr>ibase := called t p a (ibase x)\<rparr>"
  obtain l where l: "messages ms ?x = ?x\<lparr>icallbacks := l\<rparr>" using messages_quiet by blast
  then have "quiet x (messages ms ?x)" "evolves x (messages ms ?x)"
    using evolves_trans [OF evolves_called evolves_other(1)] by (auto simp: quiet_def)
  from evolves_trans [OF this(2) k [OF this(1)]] show ?thesis by (simp add: icall_eq)
qed

lemma evolves_ContextCreated: "evolves x (snd (ContextCreated E t (messages ms) mn mc g nm aux x))"
  unfolding ContextCreated_def Let_def [of "the mn"] Let_def [of "the mc"]
proof (rule evolvesI, rule evolves_guarded, rule after_quiet, goal_cases)
  case (1 r y)
  then have "\<not> n_closed (inspectors x (the mn)) \<and> the mn < inextInspector x" "the mc \<notin> n_contexts (inspectors x (the mn))"
    using Inspector_check_open by auto
  with quietD [OF 1(3)] show ?case using evolves_created [of "the mn" y "the mc"] by (simp add: Let_def upd_inspector_def)
qed

lemma evolves_ContextDestroyed: "evolves x (snd (ContextDestroyed E t (messages ms) b mn mc x))"
  unfolding ContextDestroyed_def Let_def [of "the mn"] Let_def [of "the mc"]
proof (rule evolvesI, rule evolves_guarded, rule after_quiet, goal_cases)
  case (1 r y)
  then have "\<not> n_closed (inspectors x (the mn)) \<and> the mn < inextInspector x" "the mc \<in> n_contexts (inspectors x (the mn))"
    using Inspector_check_open by auto
  with quietD [OF 1(3)] show ?case using evolves_destroyed [of "the mn" y "the mc"] by (simp add: Let_def upd_inspector_def)
qed

lemma evolves_Connect: "evolves x (snd (Connect E t (messages ms) mn g ch st tr x))"
  unfolding Connect_def Let_def [of "the mn"]
proof (rule evolvesI, rule evolves_guarded, goal_cases)
  case 1
  let ?k = "Suc (ichannelNext x)"
  define x1 where "x1 = x\<lparr>ichannelNext := ?k, ichannels := (ichannels x)
     (?k \<mapsto> \<lparr>ch_iso = n_iso (inspectors x (the mn)), ch_session = None, ch_channel = the ch, ch_active = 0\<rparr>)\<rparr>"
  have x1: "evolves x x1" unfolding x1_def by (rule evolves_channel_added) simp_all
  have n: "\<not> n_closed (inspectors x (the mn)) \<and> the mn < inextInspector x" using Inspector_check_open 1 by auto
  show ?case unfolding Let_def [of ?k] Let_def [of "\<lparr>ch_iso = n_iso (inspectors x (the mn)), ch_session = None, ch_channel = the ch, ch_active = 0\<rparr>"]
      x1_def [symmetric] Let_def [of x1]
  proof (rule evolves_trans [OF x1], rule after_quiet, goal_cases)
    case (1 r y)
    note q = quietD [OF 1]
    have e: "ichannels y ?k = Some \<lparr>ch_iso = n_iso (inspectors x (the mn)), ch_session = None, ch_channel = the ch, ch_active = 0\<rparr>"
      using q by (simp add: x1_def)
    have a: "evolves y (y\<lparr>ichannels := (ichannels y)(?k := None)\<rparr>)" by (rule evolves_channel_changed) (simp add: e)
    define z where "z = y\<lparr>ichannels := (ichannels y)(?k := map_option (\<lambda>e. e\<lparr>ch_session := Some (inextSession y)\<rparr>) (ichannels y ?k))\<rparr>"
    have z: "evolves y z" unfolding z_def by (rule evolves_channel_changed) (simp add: e)
    have n': "the mn < inextInspector z" "\<not> n_closed (inspectors z (the mn))" "?k \<le> ichannelNext z" using n q by (simp_all add: z_def x1_def)
    define v where "v = (let x = y\<lparr>isessions := (isessions y)(inextSession y :=
              \<lparr>ss_inspector = the mn, ss_handle = out r 0, ss_channelID = ?k, ss_closed = False, ss_active = 0\<rparr>),
          inextSession := Suc (inextSession y),
          ichannels := (ichannels y)(?k := map_option (\<lambda>e. e\<lparr>ch_session := Some (inextSession y)\<rparr>) (ichannels y ?k))\<rparr>;
        x = upd_inspector (the mn) (\<lambda>q. q\<lparr>n_sessions := n_sessions q + 1\<rparr>) x
      in x\<lparr>ibase := registerInspectorSessionLifecycle (n_iso (inspectors x (the mn))) (ibase x)\<rparr>)"
    have "evolves z v" by (rule evolves_connected [OF n', where h = "out r 0"]) (simp add: v_def z_def upd_inspector_def Let_def)
    from a evolves_trans [OF z this] show ?case by (simp add: Let_def v_def)
  qed
qed

lemma evolves_dropClient:
  assumes "\<not> inspectorClientCallbackActive n x"
  shows "evolves x (dropInspectorClient n x)"
proof -
  let ?k = "case iclientOf x n of None \<Rightarrow> 0 | Some k \<Rightarrow> k" and ?x = "x\<lparr>iclientOf := (iclientOf x)(n := None)\<rparr>"
  have "keeps_count cl_active (iclients ?x ?k) None"
    using assms by (simp add: inspectorClientCallbackActive_def clientEntryOf_def keeps_count_def split: option.splits)
  then have "evolves ?x (?x\<lparr>iclients := (iclients ?x)(?k := None)\<rparr>)" by (rule evolves_client_changed)
  from evolves_trans [OF evolves_other(4) this] evolves_other(4) show ?thesis
    by (simp add: dropInspectorClient_def Let_def split: option.split)
qed

lemma evolves_Inspector_Close: "evolves x (snd (Inspector_Close E t (messages ms) mn x))"
  unfolding Inspector_Close_def Let_def [of "the mn"]
proof (rule evolvesI, rule evolves_guarded, rule after_quiet, goal_cases)
  case (1 r y)
  let ?n = "the mn"
  note q = quietD [OF 1(3)]
  have n: "?n < inextInspector y" "\<not> n_closed (inspectors y ?n)" "n_sessions (inspectors y ?n) = 0" "n_contexts (inspectors y ?n) = {}"
    "\<not> inspectorClientCallbackActive ?n x"
    using Inspector_check_open [of t mn x] 1(1,2) q by (auto simp: inspectorClientCloseError_def)
  define z where "z = (upd_inspector ?n (\<lambda>q. q\<lparr>n_closed := True, n_handle := 0\<rparr>) y)
          \<lparr>ibase := unregisterInspectorLifecycle (n_iso (inspectors y ?n)) (ibase y)\<rparr>"
  have "\<not> inspectorClientCallbackActive ?n z"
    using n(5) q by (simp add: z_def inspectorClientCallbackActive_def clientEntryOf_def upd_inspector_def)
  from evolves_trans [OF evolves_inspector_closed [OF n(1-4) z_def] evolves_dropClient [OF this]]
  have "evolves y (dropInspectorClient ?n z)" .
  moreover have "dropInspectorClient ?n z = (let x = dropInspectorClient ?n (upd_inspector ?n (\<lambda>q. q\<lparr>n_closed := True, n_handle := 0\<rparr>) y)
      in x\<lparr>ibase := unregisterInspectorLifecycle (n_iso (inspectors x ?n)) (ibase x)\<rparr>)"
    by (simp add: z_def dropInspectorClient_def upd_inspector_def Let_def split: option.split)
  ultimately show ?case by (simp add: Let_def)
qed

text \<open>Closing a session: its own channel may be called meanwhile, and then the session cannot be closed from there.\<close>

lemma own_messages:
  assumes "\<And>as x. as \<in> set ass \<Longrightarrow> evolves x (F as x)" "insp_inv x" "s < inextSession x" "\<not> ss_closed (isessions x s)"
    "ss_channelID (isessions x s) = k" "y = fold id (map (\<lambda>as. channelMessage (F as) (k, kind, c, b)) ass) x"
  shows "insp_inv y \<and> iext x y \<and> \<not> ss_closed (isessions y s)"
  using assms
proof (induction ass arbitrary: x)
  case Nil
  then show ?case by (simp add: iext_refl)
next
  case (Cons as ass)
  let ?x = "channelMessage (F as) (k, kind, c, b) x"
  have f: "evolves x (F as x)" for x using Cons.prems(1) by simp
  have e: "insp_inv ?x" "iext x ?x" using evolves_channelMessage [OF f] Cons.prems(2) by (auto simp: evolves_def)
  have o: "\<not> ss_closed (isessions ?x s)" using own_message [OF f Cons.prems(2-4)] Cons.prems(5) by simp
  have s: "s < inextSession ?x" "ss_channelID (isessions ?x s) = k" using e(2) Cons.prems(3,5) by (auto simp: iext_def)
  have "insp_inv y \<and> iext ?x y \<and> \<not> ss_closed (isessions y s)"
    using Cons.IH [OF _ e(1) s(1) o s(2)] Cons.prems(1,6) by simp
  then show ?case using iext_trans [OF e(2)] by blast
qed

lemma evolves_Session_Close:
  assumes F: "\<And>as x. as \<in> set ass \<Longrightarrow> evolves x (F as x)"
  shows "evolves x (snd (Session_Close E t (fold id (map (\<lambda>as. channelMessage (F as) (ss_channelID (isessions x (the ms)), kind, c, b)) ass)) d ms x))"
  unfolding Session_Close_def Let_def [of "the ms"]
proof (rule evolvesI, rule evolves_guarded, rule after_icall', goal_cases)
  case (1 r y)
  let ?s = "the ms" and ?n = "ss_inspector (isessions y (the ms))" and ?k = "ss_channelID (isessions x (the ms))"
  have s: "\<not> ss_closed (isessions x ?s)" "?s < inextSession x" using Session_check_open 1(1,2) by auto
  have inv: "insp_inv (x\<lparr>ibase := called t p a (ibase x)\<rparr>)" "iext x (x\<lparr>ibase := called t p a (ibase x)\<rparr>)" for p a
    using evolves_called 1(1) by (auto simp: evolves_def)
  have y: "insp_inv y" "iext x y" "\<not> ss_closed (isessions y ?s)"
    using own_messages [OF F inv(1) _ _ _ 1(3), of ?s] s iext_trans [OF inv(2)] by auto
  have k: "?s < inextSession y" "ss_channelID (isessions y ?s) = ?k" using y(2) s by (auto simp: iext_def)
  have "?k \<le> ichannelNext x" "\<not> channel_active ?k x" using 1(1,2) s by (auto simp: insp_inv_def registries_ok_def)
  then have c: "keeps_count ch_active (ichannels y ?k) None"
    using iextD(1) [OF y(2), of ?k] by (cases "ichannels x ?k"; cases "ichannels y ?k") (auto simp: channel_active_def)
  define z where "z = y\<lparr>ichannels := (ichannels y)(?k := None)\<rparr>"
  have z: "evolves x z" using y evolves_trans [OF _ evolves_channel_changed [OF c]] by (auto simp: z_def evolves_def)
  define v where "v = upd_session ?s (\<lambda>q. q\<lparr>ss_closed := True, ss_handle := 0\<rparr>)
      (let x = upd_inspector ?n (\<lambda>q. q\<lparr>n_sessions := n_sessions q - 1\<rparr>) z
       in x\<lparr>ibase := unregisterInspectorSessionLifecycle (n_iso (inspectors x ?n)) (ibase x)\<rparr>)"
  have "evolves z v"
    by (rule evolves_session_closed [where s = ?s and n = ?n]) (use y(3) k in \<open>auto simp: z_def v_def running_def upd_inspector_def Let_def\<close>)
  then have "evolves x v" "evolves x y" using z evolves_trans y by (auto simp: evolves_def)
  then show ?case using k by (simp add: Let_def v_def z_def)
qed

lemma evolves_sessionCall:
  assumes "\<And>x. evolves x (f x)"
  shows "evolves x (snd (sessionCall E t oper p a f ms x))"
  using evolves_icall [OF assms] by (auto simp: sessionCall_def Let_def split_def)

lemmas session_call_defs = DispatchProtocolMessage_def ReleaseObjectGroup_def SchedulePauseOnNextStatement_def CancelPauseOnNextStatement_def

lemma evolves_session_calls:
  assumes "\<And>x. evolves x (f x)"
  shows "evolves x (snd (DispatchProtocolMessage E t f b ms v x))" "evolves x (snd (ReleaseObjectGroup E t f ms v x))"
    "evolves x (snd (SchedulePauseOnNextStatement E t f ms v v' x))" "evolves x (snd (CancelPauseOnNextStatement E t f ms x))"
  unfolding session_call_defs by (rule evolves_guarded, rule evolves_sessionCall [OF assms])+

lemma evolves_clientDispatch:
  assumes "\<And>e x. evolves x (snd (body e x))"
  shows "evolves x (survives x (clientDispatch t k body x))"
proof (cases "iclients x k")
  case (Some e)
  have "evolves x (bump_client k (- 1) (snd (body e (bump_client k 1 x))))"
    by (rule client_bracket [of "\<lambda>x. snd (body e x)", OF assms Some])
  moreover have "survives x (andThen m (\<lambda>v y. (Inr v, g y))) = (case fst m of Inl _ \<Rightarrow> x | Inr _ \<Rightarrow> g (snd m))" for m :: "uintptr iresult" and g
    by (cases m; cases "fst m") (simp_all add: survives_def)
  ultimately show ?thesis using Some by (simp add: clientDispatch_def Let_def split: option.split sum.split) (simp add: survives_def)
qed (simp add: clientDispatch_def survives_def)

lemma evolves_clientMethod: "(\<And>x. evolves x (f x)) \<Longrightarrow> evolves x (clientMethod f has cb x)"
  by (auto simp: clientMethod_def intro: evolves_trans [OF evolves_other(1)])

lemma evolves_nativeBuffer: "evolves x (snd (inspectorClientNativeBuffer E t mb x))"
  by (simp add: inspectorClientNativeBuffer_def call_eqs Let_def split: option.split)

lemma evolves_matchContexts: "evolves x (snd (matchContexts E t wire cs x))"
  by (induction cs arbitrary: x) (auto simp: call_eqs Let_def intro: evolves_trans [OF evolves_called])

lemma evolves_registeredContext: "evolves x (snd (inspectorRegisteredCallbackContext E t order e wire x))"
  by (simp add: inspectorRegisteredCallbackContext_def evolves_matchContexts split: option.split)

lemma evolves_scopes: "evolves x (snd (borrowScope i h x))" "evolves x (returnScope s x)"
  by (auto simp: borrowScope_def returnScope_def Let_def intro: evolves_base)

lemma evolves_valueDispatch:
  assumes f: "\<And>x. evolves x (f x)"
  shows "evolves x (snd (inspectorClientValueDispatch E t f order caps q k e kind a0 a1 a2 x))"
proof -
  note m = evolves_clientMethod [OF f]
  have "evolves x (snd (andThen (inspectorClientNativeBuffer E t mb (clientMethod f has cb x)) (\<lambda>v x. (Inr v, returnScope s x))))" for mb has cb x s
    by (rule evolves_trans [OF m], rule evolves_andThen [OF evolves_nativeBuffer]) (simp add: evolves_scopes)
  then have "evolves x (snd (let (s, x) = borrowScope i a2 x
             in if c_closed (contexts (ibase x) ctx) \<or> a1 = 0 then (Inl err, x)
                else let has = h; x = clientMethod f has (g s) x
                     in andThen (inspectorClientNativeBuffer E t (mb has) x) (\<lambda>v x. (Inr v, returnScope s x))))" for x i ctx err h g mb
    using evolves_scopes(1) [of x i a2] evolves_trans [OF evolves_scopes(1) [of x i a2]] by (simp add: Let_def split_def)
  then have "evolves x (snd (andThen (inspectorRegisteredCallbackContext E t order e a0 x) (\<lambda>ctx x. let (s, x) = borrowScope i a2 x
             in if c_closed (contexts (ibase x) ctx) \<or> a1 = 0 then (Inl err, x)
                else let has = h; x = clientMethod f has (g s) x
                     in andThen (inspectorClientNativeBuffer E t (mb has) x) (\<lambda>v x. (Inr v, returnScope s x)))))" for i err h g mb
    by (intro evolves_andThen [OF evolves_registeredContext])
  with m show ?thesis
    unfolding inspectorClientValueDispatch_def by (simp add: Let_def snd_guarded split: option.split)
qed

lemma evolves_extended:
  assumes f: "\<And>x. evolves x (f x)"
  shows "evolves x (survives x (inspectorExtendedClientDispatch E t f order m8 m16 caps q k kind a x))"
  unfolding inspectorExtendedClientDispatch_def
  by (rule evolves_clientDispatch)
    (simp add: Let_def evolves_clientMethod [OF f] evolves_valueDispatch [OF f] evolves_trans [OF evolves_clientMethod [OF f] evolves_nativeBuffer] split: sum.split)

lemma evolves_clientCallback:
  assumes f: "\<And>x. evolves x (f x)"
  shows "evolves x (survives x (inspectorClientDispatchCallback t f caps k kind g x))"
  unfolding inspectorClientDispatchCallback_def
  by (rule evolves_clientDispatch) (simp add: Let_def evolves_clientMethod [OF f])

lemma evolves_canDispatch: "evolves x (snd (InspectorCanDispatchMethod E t v x))"
  unfolding InspectorCanDispatchMethod_def
  by (intro evolves_guarded evolves_andThen evolves_onBase) (simp_all add: call_eqs Let_def)

lemma fold_evolves: "(\<And>f x. f \<in> set fs \<Longrightarrow> evolves x (f x)) \<Longrightarrow> evolves x (fold id fs x)"
proof (induction fs arbitrary: x)
  case (Cons f fs)
  have "evolves x (f x)" by (rule Cons.prems) simp
  moreover have "evolves (f x) (fold id fs (f x))" by (rule Cons.IH) (rule Cons.prems, simp)
  ultimately show ?case unfolding fold_simps o_apply id_apply by (rule evolves_trans)
qed simp

lemma nested_evolves:
  "(\<And>a x. a \<in> set as \<Longrightarrow> evolves x (iexec E H a x)) \<Longrightarrow> evolves x (fold id (map (iexec E H) as) x)"
  by (rule fold_evolves) auto

lemma evolves_iexec: "evolves x (iexec E H a x)"
proof (induction a arbitrary: x)
  case (ISessionClose t b ms ass)
  then have "evolves x (fold id (map (iexec E H) as) x)" if "as \<in> set ass" for as x
    using that by (intro nested_evolves)
  then show ?case by (simp add: Let_def evolves_Session_Close)
next
  case (INew t mi mcl as)
  show ?case by (simp add: nested_evolves [OF INew] Let_def NewInspector_def evolves_new evolves_newWithClient split: option.split)
next
  case (IDispatch t b ms v as)
  show ?case by (simp add: nested_evolves [OF IDispatch] evolves_session_calls)
next
  case (IRelease t ms v as)
  show ?case by (simp add: nested_evolves [OF IRelease] evolves_session_calls)
next
  case (ISchedule t ms v v' as)
  show ?case by (simp add: nested_evolves [OF ISchedule] evolves_session_calls)
next
  case (ICancel t ms as)
  show ?case by (simp add: nested_evolves [OF ICancel] evolves_session_calls)
next
  case (IChannel m as)
  show ?case by (simp add: nested_evolves [OF IChannel] evolves_channelMessage)
next
  case (IClient t k kind g as)
  show ?case by (simp add: nested_evolves [OF IClient] evolves_clientCallback)
next
  case (IExtended t k kind args q as)
  show ?case by (simp add: nested_evolves [OF IExtended] evolves_extended)
qed (simp_all add: evolves_base icount.P_exec evolves_ContextCreated evolves_ContextDestroyed evolves_Connect evolves_Inspector_Close evolves_canDispatch)

lemma iruns_evolves: "evolves x (iruns E H as x)"
  unfolding iruns_def by (rule fold_evolves) (auto simp: evolves_iexec)

section \<open>Reachable states\<close>

lemma iboot_inv: "inspectorIsolates w = Map.empty \<Longrightarrow> insp_inv (iboot w)"
  by (simp add: insp_inv_def counted_inspectors_def sessions_fit_def lifecycles_tidy_def registries_ok_def iboot_def
      inspectorLifecycleForUpdate_def ctxCount_def openInspectors_def isolateSessions_def registrations_def sessionsOf_def)

interpretation inspection: invariant_system "\<lambda>x. \<exists>e. x = iboot (boot e)" "\<lambda>x y. \<exists>a. y = iexec E H a x" insp_inv for E H
  using evolves_iexec iboot_inv by unfold_locales (auto simp: evolves_def boot_def)

lemma iruns_reachable: "inspection.reach E H (iruns E H as (iboot (boot e)))"
proof (induction as rule: rev_induct)
  case Nil
  show ?case by (auto simp: iruns_def intro: inspection.reach_init)
next
  case (snoc a as)
  then show ?case by (auto simp: iruns_def intro: inspection.reach_step)
qed

lemma insp_inv_runs: "insp_inv (iruns E H as (iboot (boot e)))"
  by (rule inspection.reach_inv [OF iruns_reachable])

text \<open>The tests of Isolate.Close and Context.Close read the counts: they refuse exactly while something is open.\<close>

lemma lifecycle_absent:
  assumes "insp_inv x"
  shows "inspectorIsolates (ibase x) i = None \<longleftrightarrow>
    openInspectors x i = {} \<and> isolateSessions x i = {} \<and> (\<forall>c. registrations x i c = {})"
proof -
  have c: "il_inspectors (lifecycle x i) = card (openInspectors x i)" "il_sessions (lifecycle x i) = card (isolateSessions x i)"
    "ctxCount (il_contexts (lifecycle x i)) c = card (registrations x i c)" for c
    using assms by (auto simp: insp_inv_def counted_inspectors_def)
  show ?thesis
  proof (cases "inspectorIsolates (ibase x) i")
    case None
    with c show ?thesis by (simp add: inspectorLifecycleForUpdate_def ctxCount_def)
  next
    case (Some s)
    then have t: "tidy s" "\<not> (il_inspectors s = 0 \<and> il_sessions s = 0 \<and> il_contexts s = [])"
      using assms by (auto simp: insp_inv_def lifecycles_tidy_def)
    have m: "\<exists>c. ctxCount (il_contexts s) c \<noteq> 0" if "il_contexts s \<noteq> []"
    proof -
      obtain p m where "il_contexts s = p # m" using \<open>il_contexts s \<noteq> []\<close> by (cases "il_contexts s") auto
      then have "ctxCount (il_contexts s) (fst p) \<noteq> 0" using t(1) by (cases p) (auto simp: tidy_def ctxCount_def)
      then show ?thesis by blast
    qed
    with t(2) c Some show ?thesis by (auto simp: forUpdate_Some)
  qed
qed

lemma close_errors:
  assumes "insp_inv x"
  shows "inspectorIsolateCloseError i (ibase x) = None \<longleftrightarrow>
      openInspectors x i = {} \<and> isolateSessions x i = {} \<and> (\<forall>c. registrations x i c = {})"
    "inspectorContextCloseError c (ibase x) = None \<longleftrightarrow> registrations x (c_iso (contexts (ibase x) c)) c = {}"
proof -
  show "inspectorIsolateCloseError i (ibase x) = None \<longleftrightarrow>
      openInspectors x i = {} \<and> isolateSessions x i = {} \<and> (\<forall>c. registrations x i c = {})"
    using lifecycle_absent [OF assms, of i] by (auto simp: inspectorIsolateCloseError_def split: option.splits)
  let ?i = "c_iso (contexts (ibase x) c)"
  have "ctxCount (il_contexts (lifecycle x ?i)) c = card (registrations x ?i c)" using assms by (simp add: insp_inv_def counted_inspectors_def)
  moreover have "registrations x ?i c = {} \<longleftrightarrow> card (registrations x ?i c) = 0" by simp
  ultimately show "inspectorContextCloseError c (ibase x) = None \<longleftrightarrow> registrations x ?i c = {}"
    by (auto simp: inspectorContextCloseError_def inspectorLifecycleForUpdate_def ctxCount_def split: option.splits)
qed

section \<open>Reading a view back\<close>

text \<open>How the engine reads the memory of a view: bytes, or units in little-endian order.\<close>

fun readUnits :: "8 word list \<Rightarrow> 16 word list" where
  "readUnits (a # b # xs) = (ucast a OR push_bit 8 (ucast b)) # readUnits xs"
| "readUnits _ = []"

definition charByte :: "char \<Rightarrow> 8 word" where
  "charByte c = of_nat (of_char c)"

lemma charByte_byteChar [simp]: "charByte (byteChar b) = b"
proof -
  have "unat b < 256" using unsigned_less [of b, where 'a = nat] by simp
  then show ?thesis by (simp add: charByte_def byteChar_def)
qed

lemma readUnits_unitBytes [simp]: "readUnits (concat (map unitBytes us)) = us"
proof -
  have "ucast (ucast u :: 8 word) OR push_bit 8 (ucast (ucast (drop_bit 8 u) :: 8 word)) = u" for u :: "16 word"
    by (rule bit_word_eqI) (auto simp: bit_simps)
  then show ?thesis by (induction us) (simp_all add: unitBytes_def)
qed

section \<open>A concrete run\<close>

definition plainHost :: ihost where
  "plainHost = \<lparr>ho_dispatch = 5, ho_caps = (\<lambda>_. {}), ho_order = (\<lambda>_. []), ho_m8 = (\<lambda>_ n. replicate n 0), ho_m16 = (\<lambda>_ n. replicate n 0)\<rparr>"

definition oneContext :: world where
  "oneContext = runs steady (start @ [(1, Ctx (OpNewContext 0))]) (boot None)"

lemma oneContext_state:
  "isolates oneContext 0 = \<lparr>i_handle = 7, i_tid = 1, i_closed = False, i_closedState = False, i_contextsCreated = True,
     i_advancedCounterHandle = 0, i_advancedExternalReferences = False, i_customCppGCHeap = False,
     i_arrayBufferAllocatorReference = 0, i_handleScopeStack = []\<rparr>"
  "contexts oneContext (Suc 0) = \<lparr>c_iso = 0, c_handle = 7, c_closed = False, c_microtaskQueue = None\<rparr>"
  "inspectorIsolates oneContext = Map.empty" "platform oneContext = stateInitialized" "shimLoadErr oneContext = None"
  unfolding oneContext_def by (simp_all add: eval_simps)

definition two_inspectors :: "iact list" where
  "two_inspectors = [INew 1 (Some 0) None [], INew 1 (Some 0) None [],
     ICreated 1 (Some 0) (Some 1) 1 EmptyInspectorStringView EmptyInspectorStringView [],
     ICreated 1 (Some 1) (Some 1) 1 EmptyInspectorStringView EmptyInspectorStringView [],
     IConnect 1 (Some 0) 1 (Some 4) EmptyInspectorStringView 0 []]"

definition inspected :: isys where
  "inspected = iruns steady plainHost two_inspectors (iboot oneContext)"

lemma register_keeps [simp]:
  "platform (registerInspectorLifecycle i w) = platform w" "shimLoadErr (registerInspectorLifecycle i w) = shimLoadErr w"
  "platform (registerInspectorSessionLifecycle i w) = platform w" "shimLoadErr (registerInspectorSessionLifecycle i w) = shimLoadErr w"
  "platform (registerInspectorContextLifecycle i c w) = platform w" "shimLoadErr (registerInspectorContextLifecycle i c w) = shimLoadErr w"
  "isolates (registerInspectorLifecycle i w) = isolates w" "contexts (registerInspectorLifecycle i w) = contexts w"
  "isolates (registerInspectorSessionLifecycle i w) = isolates w" "contexts (registerInspectorSessionLifecycle i w) = contexts w"
  "isolates (registerInspectorContextLifecycle i c w) = isolates w" "contexts (registerInspectorContextLifecycle i c w) = contexts w"
  "inspectorIsolates (registerInspectorLifecycle i w) = (inspectorIsolates w)(i \<mapsto> (inspectorLifecycleForUpdate i w)\<lparr>il_inspectors := il_inspectors (inspectorLifecycleForUpdate i w) + 1\<rparr>)"
  "inspectorIsolates (registerInspectorSessionLifecycle i w) = (inspectorIsolates w)(i \<mapsto> (inspectorLifecycleForUpdate i w)\<lparr>il_sessions := il_sessions (inspectorLifecycleForUpdate i w) + 1\<rparr>)"
  "inspectorIsolates (registerInspectorContextLifecycle i c w) = (inspectorIsolates w)(i \<mapsto> (inspectorLifecycleForUpdate i w)
     \<lparr>il_contexts := ctxPut c (ctxCount (il_contexts (inspectorLifecycleForUpdate i w)) c + 1) (il_contexts (inspectorLifecycleForUpdate i w))\<rparr>)"
  by (simp_all add: registerInspectorLifecycle_def registerInspectorSessionLifecycle_def registerInspectorContextLifecycle_def Let_def)

lemma NewInspector_steady:
  assumes "Isolate_check t i (ibase x) = None" "idispatchErr x = e" "e = None \<or> e = Some None"
  shows "snd (NewInspector steady t d id (Some i) x) =
    (let w = if e = None then called t ''gov8_inspector_set_channel_dispatch'' [W d] (ibase x) else ibase x; n = inextInspector x
     in x\<lparr>idispatchErr := Some None, inspectors := (inspectors x)(n := \<lparr>n_iso = i, n_handle = 9, n_closed = False, n_sessions = 0, n_contexts = {}\<rparr>),
          inextInspector := Suc n,
          ibase := registerInspectorLifecycle i (called t ''gov8_inspector_create'' [W (handleAssumingCheck i w), W 0, Out] w)\<rparr>)"
  using assms
  by (auto simp: NewInspector_def newInspector_def ensureInspectorDispatch_def iOnBase_def lift_def icall_eq call_eqs steady_def sneg_def out_def Let_def)

lemma ContextCreated_steady:
  assumes "Inspector_check t (Some n) x = None" "c_iso (contexts (ibase x) c) = n_iso (inspectors x n)" "\<not> c_closed (contexts (ibase x) c)"
    "0 < g" "c \<notin> n_contexts (inspectors x n)"
  shows "snd (ContextCreated steady t id (Some n) (Some c) g nm aux x) =
    (upd_inspector n (\<lambda>q. q\<lparr>n_contexts := insert c (n_contexts q)\<rparr>) x)
      \<lparr>ibase := registerInspectorContextLifecycle (n_iso (inspectors x n)) c (called t ''gov8_inspector_context_created''
         ([W (n_handle (inspectors x n)), W (c_handle (contexts (ibase x) c)), W (word_of_int g)] @ native nm @ native aux) (ibase x))\<rparr>"
  using assms
  by (simp add: ContextCreated_def foreign_context_def Context_checkAssumingIsolate_def icall_eq call_eqs steady_def sneg_def Let_def upd_inspector_def)

lemma Connect_steady:
  assumes "Inspector_check t (Some n) x = None" "0 < g" "tr = 0 \<or> tr = 1" "ichannelNext x < maxUint64"
  shows "snd (Connect steady t id (Some n) g (Some ch) st tr x) =
    (let k = Suc (ichannelNext x); s = inextSession x
     in (upd_inspector n (\<lambda>q. q\<lparr>n_sessions := n_sessions q + 1\<rparr>)
          (x\<lparr>ichannelNext := k, isessions := (isessions x)(s := \<lparr>ss_inspector = n, ss_handle = 9, ss_channelID = k, ss_closed = False, ss_active = 0\<rparr>),
             inextSession := Suc s,
             ichannels := (ichannels x)(k \<mapsto> \<lparr>ch_iso = n_iso (inspectors x n), ch_session = Some s, ch_channel = ch, ch_active = 0\<rparr>)\<rparr>))
        \<lparr>ibase := registerInspectorSessionLifecycle (n_iso (inspectors x n)) (called t ''gov8_inspector_connect''
         ([W (n_handle (inspectors x n)), W (word_of_int g), W (of_nat k)] @ native st @ [W (word_of_int tr), Out]) (ibase x))\<rparr>)"
  using assms
  by (auto simp: Connect_def icall_eq call_eqs steady_def sneg_def out_def Let_def upd_inspector_def)

lemma messages_Nil [simp]: "messages [] = id"
  by (simp add: messages_def)

lemma inspected_inv: "insp_inv inspected"
proof -
  have "insp_inv (iboot oneContext)" by (rule iboot_inv) (simp add: oneContext_state)
  then show ?thesis using iruns_evolves unfolding inspected_def evolves_def by blast
qed

lemma inspected_state:
  "inextInspector inspected = 2" "inextSession inspected = 1"
  "ichannels inspected = [1 \<mapsto> \<lparr>ch_iso = 0, ch_session = Some 0, ch_channel = 4, ch_active = 0\<rparr>]"
  "isessions inspected 0 = \<lparr>ss_inspector = 0, ss_handle = 9, ss_channelID = 1, ss_closed = False, ss_active = 0\<rparr>"
  "inspectors inspected 0 = \<lparr>n_iso = 0, n_handle = 9, n_closed = False, n_sessions = 1, n_contexts = {1}\<rparr>"
  "inspectors inspected (Suc 0) = \<lparr>n_iso = 0, n_handle = 9, n_closed = False, n_sessions = 0, n_contexts = {1}\<rparr>"
  "inspectorIsolates (ibase inspected) = [0 \<mapsto> \<lparr>il_inspectors = 2, il_sessions = 1, il_contexts = [(1, 2)]\<rparr>]"
  "contexts (ibase inspected) = contexts oneContext"
  "platform (ibase inspected) = stateInitialized" "shimLoadErr (ibase inspected) = None"
  "isolates (ibase inspected) = isolates oneContext" "iclients inspected = Map.empty" "iclientOf inspected = Map.empty"
  unfolding inspected_def two_inspectors_def iruns_def
  by (simp_all add: NewInspector_steady ContextCreated_steady Connect_steady iboot_def oneContext_state plainHost_def Let_def
      upd_inspector_def Inspector_check_def Isolate_check_def maxUint64_def fun_upd_def fun_eq_iff ctxCount_def ctxPut_def inspectorLifecycleForUpdate_def)

lemma ContextDestroyed_steady:
  assumes "Inspector_check t (Some n) x = None" "c_iso (contexts (ibase x) c) = n_iso (inspectors x n)" "\<not> c_closed (contexts (ibase x) c)"
    "c \<in> n_contexts (inspectors x n)" "\<not> inspectorClientCallbackActive n x"
  shows "ContextDestroyed steady t f False (Some n) (Some c) x =
    (let y = f (x\<lparr>ibase := called t ''gov8_inspector_context_destroyed''
               [W (n_handle (inspectors x n)), W (c_handle (contexts (ibase x) c))] (ibase x)\<rparr>);
         y = upd_inspector n (\<lambda>q. q\<lparr>n_contexts := n_contexts q - {c}\<rparr>) y
     in (Inr (), y\<lparr>ibase := unregisterInspectorContextLifecycle (n_iso (inspectors y n)) c (ibase y)\<rparr>))"
  using assms
  by (simp add: ContextDestroyed_def foreign_context_def Context_checkAssumingIsolate_def icall_eq call_eqs steady_def sneg_def Let_def)

definition destroyTwice :: "isys \<Rightarrow> unit iresult" where
  "destroyTwice = ContextDestroyed steady 1 (\<lambda>x. snd (ContextDestroyed steady 1 id False (Some 0) (Some 1) x)) False (Some 0) (Some 1)"

lemma destroyTwice_state:
  "fst (destroyTwice inspected) = Inr ()" "inextInspector (snd (destroyTwice inspected)) = 2"
  "inspectors (snd (destroyTwice inspected)) = (inspectors inspected)(0 := (inspectors inspected 0)\<lparr>n_contexts := {}\<rparr>)"
  "inspectorIsolates (ibase (snd (destroyTwice inspected))) = [0 \<mapsto> \<lparr>il_inspectors = 2, il_sessions = 1, il_contexts = []\<rparr>]"
  "contexts (ibase (snd (destroyTwice inspected))) = contexts oneContext"
  "isolates (ibase (snd (destroyTwice inspected))) = isolates oneContext"
  "platform (ibase (snd (destroyTwice inspected))) = stateInitialized" "shimLoadErr (ibase (snd (destroyTwice inspected))) = None"
  unfolding destroyTwice_def
  by (simp_all add: ContextDestroyed_steady inspected_state oneContext_state Inspector_check_def Isolate_check_def inspectorClientCallbackActive_def
      clientEntryOf_def Let_def upd_inspector_def unregisterInspectorContextLifecycle_def pruneInspectorLifecycleLocked_def ctxCount_def ctxPut_def fun_upd_def fun_eq_iff)

end
