(* ===== verification/Spec2Isabelle.thy ===== *)
theory Spec2Isabelle
  imports ReturnValues Allocator Stores TaskRetention InspectorRuns
begin

text \<open>
  A verification development for gov8, the Go binding of the V8 engine.

  \<^bold>\<open>The program.\<close> gov8 wraps V8 behind a C shim (a DLL). Go code never sees engine memory: it holds
  wrapper objects (isolates, scopes, contexts, values, scripts, persistent handles) that carry shim
  handles, and each exported method validates its wrappers, calls one or a few exports of the shim
  and updates Go-side bookkeeping. What the Go code adds is exactly this discipline: which thread may
  use an isolate, in which order scopes are closed, which wrappers are dead, what is counted, which
  registered closure runs when and how often, and what a method does when the shim refuses. This is
  what the development models and proves.

  \<^bold>\<open>Theories.\<close> Each component is modelled in the order the code has it.
  \<^item> \<open>Prelude\<close>: guards and error propagation, and the interfaces \<open>token_stack\<close>, \<open>invariant_system\<close> and
    \<open>trace_refinement\<close> as locales.
  \<^item> \<open>Runtime\<close>: the records of all wrapper types, the state \<open>world\<close>, the C boundary (\<open>ffi.go\<close>), and the
    locales \<open>stable\<close> and \<open>alloc_stable\<close>, which give a property of the state once its preservation by
    the single updates is known.
  \<^item> \<open>Lifecycle\<close>: \<open>gov8.go\<close>, \<open>platform.go\<close>, \<open>isolate.go\<close>, and the hooks that other files run when a
    platform starts or an isolate goes away.
  \<^item> \<open>Scopes\<close>: \<open>scope.go\<close>, the escapable scopes of \<open>core_advanced.go\<close>, the JavaScript guards of
    \<open>context_scopes_advanced.go\<close>.
  \<^item> \<open>Contexts\<close>: contexts with their options, \<open>microtask.go\<close>, context entry and context references of
    \<open>core_advanced.go\<close>, \<open>context_residual.go\<close>.
  \<^item> \<open>Scripts\<close>: \<open>trycatch.go\<close>, \<open>script.go\<close>, the text protocol of \<open>value.go\<close>.
  \<^item> \<open>Handles\<close>: \<open>handle.go\<close>, with the weak registry, the finalizers and their draining.
  \<^item> \<open>Locker\<close> and \<open>Sharing\<close>: \<open>locker.go\<close> as operations, and as a transition system over the threads
    that compete for a shared isolate.
  \<^item> \<open>Api\<close>: all of these as one system, \<open>exec\<close> and \<open>runs\<close>, whose invariants hold in every state that any
    sequence of calls by any threads can reach from \<open>boot\<close>.
  \<^item> \<open>Values\<close>: the rest of \<open>value.go\<close>. \<open>Strings\<close>: \<open>strings_bigint.go\<close>. \<open>Wasm\<close>: \<open>wasm_streaming.go\<close>.
    \<open>Allocator\<close>: \<open>array_buffer_allocator.go\<close>. The last three have registries of their own, in a record
    above \<open>world\<close>.
  \<^item> \<open>Buffers\<close>, \<open>TypedArrays\<close>: \<open>buffer.go\<close> and \<open>typed_arrays.go\<close>; \<open>Stores\<close> has backing stores under concurrency.
  \<^item> \<open>Hostdata\<close>: \<open>external.go\<close>. \<open>Callbacks\<close>: \<open>callback.go\<close>, in a record above that of \<open>Wasm\<close>; \<open>CallbackRuns\<close> has
    the sequences of calls with callbacks of any depth and their invariants, \<open>ReturnValues\<close> the
    refinement for return values.
  \<^item> \<open>CustomPlatform\<close>: \<open>platform_custom.go\<close>; \<open>TaskOwnership\<close> has its operations as interleaved atomic steps and their
    refinement of a specification of task ownership, \<open>TaskRetention\<close> where a task is until it is consumed.
  \<^item> \<open>Inspectors\<close>: \<open>inspector_transport.go\<close>, \<open>inspector_session_controls.go\<close>, \<open>inspector_client_callbacks.go\<close> and
    \<open>inspector_client_values.go\<close>; \<open>InspectorState\<close> has runs with callbacks and their invariant, \<open>InspectorRuns\<close> that every operation keeps it.

  \<^bold>\<open>State.\<close> A Go pointer is a number and the heap of each wrapper type a function from numbers to
  records; package-level variables are fields. Fields keep the names of the Go structs behind a short
  prefix. Errors are values of the datatype \<open>error\<close>; a Go panic and \<open>fatalHostMisuse\<close>, which ends the
  process, are errors too. Shim handles and status words are 64-bit words, thread ids 32-bit words,
  and \<open>sneg\<close> reads the sign bit that marks an error. Counters and registry numbers that the code keeps
  in 64-bit integers are natural numbers where a run would have to count to \<open>2 ^ 63\<close> to see the
  difference, and words where the code handles the wrap-around (\<open>Allocator\<close>) or tests for the last
  value (\<open>nextWasmCallbackID\<close>). A Go mutex is not a field: a method that holds one from its first test
  to its last update is one step. Where the code releases its mutex in the middle, the pieces are
  definitions of their own and are interleaved (\<open>Sharing\<close>, \<open>astep\<close>, \<open>bstep\<close>, \<open>pstep\<close>).

  \<^bold>\<open>Parameters.\<close> The shim is the argument \<open>E\<close>, a function from the calls made so far and the call at
  hand to a result word, output words and output bytes; no theorem assumes more of it than its
  statement says. Every call is logged in \<open>calls\<close>, except for the fetch of the message text inside
  \<open>shimError\<close>, so that ``does not enter the engine'' is an equation of logs. What the engine calls back
  during an operation is the argument \<open>nested\<close>; in \<open>runs\<close>, \<open>wruns\<close> it is again any finite tree of calls.
  Go closures are numbers, and the closures that ran are logged. Iteration orders of Go maps are
  arguments. Addresses of trampolines are arguments.

  \<^bold>\<open>What is shown\<close>, by the sections below.
  \<^item> Thread affinity and lifetime, platform, exports: a wrong thread or a closed isolate never enters the
    engine; the platform state machine; the accounting of live isolates and pinned threads.
  \<^item> Scopes: they nest, are closed in one order only, and values die with them.
  \<^item> Microtask queues and their attachments; contexts and their guards.
  \<^item> Weak handles are counted exactly, finalizers run at most once and all pending ones are drained,
    globals survive the raw round trip.
  \<^item> Sharing is refused with weak handles, and under every interleaving only the holder of the engine
    lock passes the affinity test.
  \<^item> Texts, transcoding, unit writes and the deleters of external strings.
  \<^item> The allocator registry refines a map under every interleaving, and its loop ends.
  \<^item> Streams are counted, consumed once and resolved once, and callbacks are cleared only when idle.
  \<^item> Callbacks: the lock-free table agrees with the registry, no frame is read after its callback, a
    return value behaves like a variable, and an isolate's host state is released exactly.
  \<^item> Buffers: no goroutine reaches the engine with a disposed backing store, calls made during Close do not
    disturb it, deleters run once, and the tables of typed-array kinds agree.
  \<^item> Custom platforms: under every interleaving a native task is consumed at most once, and once the platform is
    gone exactly once; Run is one-shot; a platform is configured once.
  \<^item> Inspectors: the lifecycle counts are exact in every run, so that Close of an isolate or context is refused exactly while an
    inspector needs it; a running channel keeps its session open; strings survive the way through the engine. In these runs channels
    make no call while a context is registered or a session is connected, because then the counts can go wrong.
  \<^item> Some theorems state behaviour that differs from what the code means to do; they are the findings of
    the manifest.

  \<^bold>\<open>Bounds.\<close> No fuel is used. The loop whose length is not that of its data, the search for a free
  number in \<open>registerLoop\<close>, has the bound \<open>2 ^ 64 - 1\<close> of the code, and \<open>register_finds_a_free_number\<close> shows what
  it finds. The unbounded search \<open>reserveLoop\<close> is a partial function, and \<open>registration_finds_a_handle\<close>
  shows that it ends.
  Witnesses evaluate the model on the engine \<open>steady\<close>, which accepts every call.

  \<^bold>\<open>Not modelled.\<close> Templates and function objects, modules, promises and messages, serialization, WebAssembly modules and policies, object operations, the inspector's object wrapping and protocol types,
  cppgc graphs and heap snapshots: they are listed in the manifest, most of
  them are thin calls of the engine with the same guards as the modelled ones, and the registries
  among them are the next to be modelled. Finding and loading the DLL is its outcome, \<open>shimLoadErr\<close>.
  The conformance programs, the Rust oracle and the C++ shim are outside the Go package.
  Performance-only duplicates (cached addresses of exports) are identified with the plain call.
\<close>

section \<open>Thread affinity and lifetime\<close>

text \<open>C1. An operation bound to an isolate and called from another thread, or after the isolate was
  closed, does not enter the engine; except for the Close of a global or weak handle, which may
  still mark its wrapper, it changes nothing at all. This holds in every reachable state and for
  every operation that is bound to an isolate.\<close>

theorem wrong_thread_or_closed_refused:
  assumes "target a (runs E tr (boot e)) = Some i"
    and "Isolate_check t i (runs E tr (boot e)) \<noteq> None"
  shows "calls (exec E t a (runs E tr (boot e))) = calls (runs E tr (boot e))
    \<and> (wrapper_close a \<or> exec E t a (runs E tr (boot e)) = runs E tr (boot e))"
  using assms refused_calls [OF _ _ runs_inv(1)] by blast

theorem wrong_thread_or_closed_refused_witness:
  "calls (exec steady 2 (Scp (OpNewScope 0)) (runs steady start (boot None))) = calls (runs steady start (boot None))"
proof -
  have "target (Scp (OpNewScope 0)) (runs steady start (boot None)) = Some 0" by simp
  moreover have "Isolate_check 2 0 (runs steady start (boot None)) \<noteq> None" by code_simp
  ultimately show ?thesis using wrong_thread_or_closed_refused by blast
qed



text \<open>C3. The set of live isolates that Dispose consults is exactly the set of open isolates, and
  while the platform is not initialized there is none: no operation order destroys the platform
  under an isolate.\<close>

theorem no_isolate_without_platform:
  "liveIsolates (runs E tr (boot e)) = {i. \<not> i_closed (isolates (runs E tr (boot e)) i)}
   \<and> finite (liveIsolates (runs E tr (boot e)))
   \<and> (platform (runs E tr (boot e)) = stateInitialized \<or> liveIsolates (runs E tr (boot e)) = {})"
  using runs_inv(1) [of E tr e] by (auto simp: live_inv_def)

text \<open>C4. In every reachable state Dispose succeeds exactly when the platform is initialized, every
  isolate is closed and the engine reports success; otherwise the platform state is unchanged.\<close>

theorem Dispose_exactly_when_idle:
  "((\<exists>b. fst (Dispose E t (runs E tr (boot e))) = Inr b) \<longleftrightarrow>
      platform (runs E tr (boot e)) = stateInitialized \<and> (\<forall>i. i_closed (isolates (runs E tr (boot e)) i))
      \<and> \<not> sneg (r1 (E (calls (runs E tr (boot e))) (Call t ''gov8_v8_dispose'' []))))
   \<and> platform (snd (Dispose E t (runs E tr (boot e)))) =
      (if \<exists>b. fst (Dispose E t (runs E tr (boot e))) = Inr b then stateDisposed else platform (runs E tr (boot e)))"
proof -
  have *: "card (liveIsolates (runs E tr (boot e))) = 0 \<longleftrightarrow> (\<forall>i. i_closed (isolates (runs E tr (boot e)) i))"
    using runs_inv(1) [of E tr e] by (auto simp: live_inv_def)
  then show ?thesis
    by (auto simp: Dispose_def storePlatform_def shim_eq Let_def)
qed

text \<open>The platform state only moves forward (uninitialized, initialized, disposed, shut down),
  whatever is called from wherever.\<close>

theorem platform_never_goes_back: "platform_rank (platform w) \<le> platform_rank (platform (runs E tr w))"
  using rank.P_runs by blast

text \<open>Creating an isolate pins the calling thread exactly when it succeeds; every error path
  releases the pin.\<close>

theorem NewIsolate_pins:
  "osPins (snd (NewIsolate E t w)) =
     (case fst (NewIsolate E t w) of Inl _ \<Rightarrow> osPins w | Inr _ \<Rightarrow> (osPins w)(t := Suc (osPins w t)))"
  by (auto simp: NewIsolate_def NewIsolate_locked_def guarded_def LockOSThread_def UnlockOSThread_def finishIsolateCreate_def
      callHandle_eq Let_def split: option.splits)



section \<open>Handle scopes\<close>

text \<open>C6. In every reachable state the stack of an open isolate lists its open owned scopes, handle
  scopes and escapable scopes alike, each exactly once: no open scope is lost from the stack and no
  closed one stays on it.\<close>

theorem stack_lists_open_scopes:
  assumes "\<not> i_closed (isolates (runs E tr (boot e)) i)"
  shows "distinct (i_handleScopeStack (isolates (runs E tr (boot e)) i))
    \<and> set (i_handleScopeStack (isolates (runs E tr (boot e)) i))
        = open_tokens (scopes (runs E tr (boot e))) (escScopes (runs E tr (boot e))) i"
  using assms runs_inv(2) [of E tr e] by (simp add: scopes_inv_def scopes_ok_def)

definition nested_scopes :: "(tid \<times> api) list" where
  "nested_scopes = start @ [(1, Scp (OpNewScope 0)), (1, Scp (OpNewEscapableScope 1))]"

theorem stack_lists_open_scopes_witness:
  "i_handleScopeStack (isolates (runs steady nested_scopes (boot None)) 0) = [ScopeTok 1, EscTok 2]
   \<and> set [ScopeTok 1, EscTok 2]
       = open_tokens (scopes (runs steady nested_scopes (boot None))) (escScopes (runs steady nested_scopes (boot None))) 0"
proof -
  have "\<not> i_closed (isolates (runs steady nested_scopes (boot None)) 0)" by (simp add: eval_simps nested_scopes_def)
  from stack_lists_open_scopes [OF this]
  have "set (i_handleScopeStack (isolates (runs steady nested_scopes (boot None)) 0))
      = open_tokens (scopes (runs steady nested_scopes (boot None))) (escScopes (runs steady nested_scopes (boot None))) 0"
    by blast
  moreover have "i_handleScopeStack (isolates (runs steady nested_scopes (boot None)) 0) = [ScopeTok 1, EscTok 2]"
    by (simp add: eval_simps nested_scopes_def)
  ultimately show ?thesis by simp
qed


lemma Scope_Close_stack:
  assumes "Scope_Close E t s w = (Inr u, w')"
  shows "i_handleScopeStack (isolates w (s_iso (scopes w s)))
      = i_handleScopeStack (isolates w' (s_iso (scopes w s))) @ [ScopeTok s]"
    and "s_iso (scopes w' x) = s_iso (scopes w x)"
    and "s_closed (scopes w' s)" and "nextRef w' = nextRef w"
proof -
  have c: "Scope_Close E t s w = (Inr u, w') \<Longrightarrow>
      \<exists>a. popHandleScope (ScopeTok s) (isolates w (s_iso (scopes w s))) = Some a
        \<and> isolates w' = (isolates w)(s_iso (scopes w s) := a)
        \<and> scopes w' = (scopes w)(s := (scopes w s)\<lparr>s_closed := True\<rparr>) \<and> nextRef w' = nextRef w"
    unfolding Scope_Close_def guarded_eq_Inr
    by (auto simp: shim_eq Let_def popHandleScope_w_def andThen_def split: option.splits if_splits)
  from c [OF assms] obtain a where a: "popHandleScope (ScopeTok s) (isolates w (s_iso (scopes w s))) = Some a"
    and w': "isolates w' = (isolates w)(s_iso (scopes w s) := a)"
      "scopes w' = (scopes w)(s := (scopes w s)\<lparr>s_closed := True\<rparr>)" "nextRef w' = nextRef w" by blast
  show "i_handleScopeStack (isolates w (s_iso (scopes w s)))
      = i_handleScopeStack (isolates w' (s_iso (scopes w s))) @ [ScopeTok s]"
    using hs.pop_eq_Some [OF a] w' by simp
  show "s_iso (scopes w' x) = s_iso (scopes w x)" "s_closed (scopes w' s)" "nextRef w' = nextRef w"
    by (simp_all add: w')
qed



definition three_scopes :: "(tid \<times> api) list" where
  "three_scopes = start @ [(1, Scp (OpNewScope 0)), (1, Scp (OpNewScope 0)), (1, Scp (OpNewScope 0))]"


text \<open>C8. Once a scope is closed, every value it owned is refused by every later validation,
  whatever happens in between.\<close>

theorem values_die_with_their_scope:
  assumes "Scope_Close E t s w = (Inr u, w')" and "s < nextRef w" and "v_sc v = s"
  shows "Value_check t' v (runs E tr w') \<noteq> None"
proof -
  have "scope_gone s w'" using Scope_Close_stack(3,4) [OF assms(1)] assms(2) by (simp add: scope_gone_def)
  from gone_scope.P_runs [OF this, of E tr] assms(3) show ?thesis
    by (simp add: scope_gone_def Value_check_def Scope_check_def first_err_Cons split: option.split)
qed

theorem values_die_with_their_scope_witness:
  "Value_check 1 \<lparr>v_iso = 0, v_sc = 3, v_h = 5\<rparr>
     (runs steady [(1, Scp (OpNewScope 0))] (snd (Scope_Close steady 1 3 (runs steady three_scopes (boot None))))) \<noteq> None"
proof -
  let ?w = "runs steady three_scopes (boot None)"
  have "fst (Scope_Close steady 1 3 ?w) = Inr ()" by (simp add: eval_simps nested_scopes_def three_scopes_def)
  moreover have "3 < nextRef ?w" by (simp add: eval_simps nested_scopes_def three_scopes_def)
  ultimately show ?thesis by (intro values_die_with_their_scope [OF fst_eq_pair]) simp_all
qed

text \<open>A value escapes from an escapable scope at most once: after a successful Escape a second
  one is refused before the engine is entered.\<close>

theorem Escape_once:
  assumes "Escape E t e v w = (Inr x, w')"
  shows "\<exists>err. Escape E' t' e v' w' = (Inl err, w')"
proof -
  have "e_escaped (escScopes w' e)"
    using assms unfolding Escape_def guarded_eq_Inr
    by (auto simp: checkedHandleAssumingIsolate_def callErr_eq Let_def andThen_def split: if_splits)
  then have "first_err [EscapableScope_check t' e w',
        fail_if (e_escaped (escScopes w' e)) (Misuse ''EscapableHandleScope::escape() called twice''),
        Value_check t' v' w', fail_if (v_iso v' \<noteq> e_iso (escScopes w' e)) (Foreign KValue)] \<noteq> None"
    by simp
  then show ?thesis unfolding Escape_def guarded_def by (auto split: option.splits)
qed

theorem Escape_once_witness:
  "\<exists>err. Escape steady 1 2 \<lparr>v_iso = 0, v_sc = 1, v_h = 5\<rparr>
     (snd (Escape steady 1 2 \<lparr>v_iso = 0, v_sc = 1, v_h = 5\<rparr> (runs steady nested_scopes (boot None))))
   = (Inl err, snd (Escape steady 1 2 \<lparr>v_iso = 0, v_sc = 1, v_h = 5\<rparr> (runs steady nested_scopes (boot None))))"
proof -
  have "fst (Escape steady 1 2 \<lparr>v_iso = 0, v_sc = 1, v_h = 5\<rparr> (runs steady nested_scopes (boot None)))
      = Inr \<lparr>v_iso = 0, v_sc = 1, v_h = 9\<rparr>" by (simp add: eval_simps nested_scopes_def three_scopes_def)
  from Escape_once [OF fst_eq_pair [OF this]] show ?thesis .
qed

section \<open>Microtask queues\<close>

text \<open>The attachment count of a microtask queue is the number of contexts that use it, in every
  reachable state, and a closed queue is used by none.\<close>

theorem queue_attachments_counted:
  "m_attachments (queues (runs E tr (boot e)) m)
     = int (card {c. c_microtaskQueue (contexts (runs E tr (boot e)) c) = Some m})
   \<and> {q. m_closed (queues (runs E tr (boot e)) q)}
       \<inter> {q. \<exists>c. c_microtaskQueue (contexts (runs E tr (boot e)) c) = Some q} = {}"
  using runs_inv(3) [of E tr e] by (auto simp: queues_inv_def queues_ok_def attached_def)

text \<open>Close of a microtask queue passes its tests only when no context uses the queue, and from
  then on no reachable state has a context that does.\<close>

theorem queue_closes_unused:
  assumes "MicrotaskQueue_Close E t m (runs E tr (boot e)) = (Inr u, w')"
  shows "{c. c_microtaskQueue (contexts (runs E tr (boot e)) c) = Some m} = {}
    \<and> {c. c_microtaskQueue (contexts w' c) = Some m} = {} \<and> m_closed (queues w' m)"
proof -
  let ?w = "runs E tr (boot e)"
  have w': "m_attachments (queues ?w m) = 0" "contexts w' = contexts ?w" "m_closed (queues w' m)"
    using assms unfolding MicrotaskQueue_Close_def guarded_eq_Inr
    by (auto simp: shim_eq Let_def split: if_splits)
  have "queues_inv ?w" by (rule runs_inv)
  then have "attached (contexts ?w) m = {}"
    using w'(1) finite_attached [of "nextRef ?w" "contexts ?w" "queues ?w" m]
    by (simp add: queues_inv_def queues_ok_def)
  with w' show ?thesis by (simp add: attached_def)
qed

definition attached_queue :: "(tid \<times> api) list" where
  "attached_queue = start @ [(1, Ctx (OpNewMicrotaskQueue 0 1)), (1, Ctx (OpNewContext 0)),
     (1, Ctx (OpSetMicrotaskQueue 2 (Some 1))), (1, Ctx (OpContextClose 2))]"

theorem queue_closes_unused_witness:
  "m_closed (queues (snd (MicrotaskQueue_Close steady 1 1 (runs steady attached_queue (boot None)))) 1)"
proof -
  have "fst (MicrotaskQueue_Close steady 1 1 (runs steady attached_queue (boot None))) = Inr ()"
    by (simp add: eval_simps attached_queue_def PolicyExplicit_def)
  from queue_closes_unused [OF fst_eq_pair [OF this]] show ?thesis by blast
qed

section \<open>Persistent handles\<close>

text \<open>C19. The count of live weak handles of an isolate is the number of its tracked handles, in
  every reachable state, and every weak handle that is open and not empty is tracked: the count
  never misses one.\<close>

theorem weak_count_exact:
  "weakLiveness (runs E tr (boot e)) i
     = card {x. w_tracked (weaks (runs E tr (boot e)) x) \<and> w_iso (weaks (runs E tr (boot e)) x) = i}
   \<and> {x. \<not> w_closed (weaks (runs E tr (boot e)) x) \<and> \<not> w_empty (weaks (runs E tr (boot e)) x)}
     \<subseteq> {x. w_tracked (weaks (runs E tr (boot e)) x)}"
  using runs_inv(4) [of E tr e] by (auto simp: weaks_inv_def weaks_ok_def tracked_def)

text \<open>C20. No weak finalizer runs twice, in whatever way collection, draining and closing are
  interleaved (finalizers that do not call back into the binding), and a number whose finalizer ran
  is never registered again.\<close>

theorem finalizers_run_once:
  "distinct (finalized (runs E tr (boot e)))
   \<and> set (finalized (runs E tr (boot e))) \<inter> dom (weakEntries (runs E tr (boot e))) = {}"
  using runs_inv(4) [of E tr e] by (auto simp: weaks_inv_def registry_ok_def)

lemma drainLoop_all:
  assumes "\<And>cs c. call_proc c = ''gov8_weak_drain_guaranteed'' \<Longrightarrow> \<not> sneg (r1 (E cs c))"
    and "weaks_inv w" "distinct (map fst ps)" "\<forall>p \<in> set ps. weakEntries w (fst p) = Some (snd p)"
  shows "fst (drainLoop E t noEffect i ps w) = Inr ()
    \<and> finalized (snd (drainLoop E t noEffect i ps w)) = finalized w @ map fst ps
    \<and> weakEntries (snd (drainLoop E t noEffect i ps w)) = (\<lambda>n. if n \<in> fst ` set ps then None else weakEntries w n)"
  using assms(2-)
proof (induction ps arbitrary: w)
  case (Cons p ps)
  let ?w = "called t ''gov8_weak_drain_guaranteed'' [W (i_handle (isolates w i)), W (we_wrap (snd p))] w"
  let ?w' = "runDrained noEffect (fst p) (snd p) ?w"
  have *: "weaks_inv ?w" using Cons.prems by (simp add: weaks_inv_def)
  with Cons.prems weaks_inv_runDrained [of ?w "fst p" "snd p"]
  have "weaks_inv ?w'" "weakEntries ?w' = (weakEntries w)(fst p := None)" by simp_all
  moreover have "finalized ?w' = finalized w @ [fst p]"
    by (simp add: runDrained_def consumeDrained_def noEffect_def Let_def)
  moreover have "\<forall>q \<in> set ps. weakEntries ?w' (fst q) = Some (snd q)"
    using Cons.prems calculation(2) by (auto, force)
  ultimately show ?case using Cons.IH [of ?w'] Cons.prems assms(1)
    by (auto simp: callErr_eq Let_def fun_eq_iff)
qed simp

text \<open>When the engine accepts every request, draining an isolate runs exactly its pending
  guaranteed finalizers, once each and in the order the registry is visited, and leaves none of
  them registered; finalizers of other isolates and regular ones stay.\<close>

theorem drain_runs_all_pending:
  assumes "\<And>cs c. call_proc c = ''gov8_weak_drain_guaranteed'' \<Longrightarrow> \<not> sneg (r1 (E cs c))"
    and "Isolate_check t i (runs E tr (boot e)) = None" and "requireInitialized (runs E tr (boot e)) = None"
    and "distinct order"
  shows "fst (DrainGuaranteedWeakFinalizers E t noEffect i order (runs E tr (boot e))) = Inr ()
    \<and> finalized (snd (DrainGuaranteedWeakFinalizers E t noEffect i order (runs E tr (boot e))))
      = finalized (runs E tr (boot e)) @ filter (pendingGuaranteed i (runs E tr (boot e))) order
    \<and> (\<forall>n. weakEntries (snd (DrainGuaranteedWeakFinalizers E t noEffect i order (runs E tr (boot e)))) n
      = (if n \<in> set order \<and> pendingGuaranteed i (runs E tr (boot e)) n then None else weakEntries (runs E tr (boot e)) n))"
proof -
  let ?w = "runs E tr (boot e)" and ?ps = "collectPending i order (runs E tr (boot e))"
  have "map fst ?ps = filter (pendingGuaranteed i ?w) order" by (simp add: collectPending_def o_def)
  moreover from this have "fst ` set ?ps = {n \<in> set order. pendingGuaranteed i ?w n}"
    by (metis set_filter list.set_map)
  moreover have "\<forall>p \<in> set ?ps. weakEntries ?w (fst p) = Some (snd p)"
    by (auto simp: collectPending_def pendingGuaranteed_def split: option.splits)
  ultimately show ?thesis
    using drainLoop_all [OF assms(1) runs_inv(4), where ps = ?ps] assms(2-4)
    by (simp add: DrainGuaranteedWeakFinalizers_def)
qed

definition one_guaranteed :: "(tid \<times> api) list" where
  "one_guaranteed = start @ [(1, Scp (OpNewScope 0)), (1, Hnd (OpNewGlobal 1 \<lparr>v_iso = 0, v_sc = 1, v_h = 5\<rparr>)),
     (1, Hnd (OpNewWeakWithGuaranteedFinalizer 0 2 (Some 42)))]"

theorem drain_runs_all_pending_witness:
  "finalized (snd (DrainGuaranteedWeakFinalizers steady 1 noEffect 0 [1] (runs steady one_guaranteed (boot None)))) = [1]"
proof -
  let ?w = "runs steady one_guaranteed (boot None)"
  have "Isolate_check 1 0 ?w = None" "requireInitialized ?w = None" "pendingGuaranteed 0 ?w 1" "finalized ?w = []"
    by (simp_all add: eval_simps one_guaranteed_def pendingGuaranteed_def)
  moreover have "\<not> sneg (r1 (steady cs c))" for cs c by (simp add: steady_def sneg_def)
  ultimately show ?thesis using drain_runs_all_pending [of steady 1 0 one_guaranteed None "[1]"] by simp
qed

text \<open>C21. IntoRaw and GlobalFromRaw are inverse: adopting the raw cell on the same isolate gives a
  new open global with the same cell, the consumed one is refused, and the engine is not entered.\<close>

theorem raw_global_round_trip:
  assumes "IntoRaw t g w = (Inr raw, w1)" and "raw \<noteq> 0" and "g < nextRef w" and "requireInitialized w = None"
  shows "\<exists>w2. GlobalFromRaw t (g_iso (globals w g)) raw w1 = (Inr (nextRef w), w2)
    \<and> globals w2 (nextRef w) = globals w g \<and> Global_check t g w2 \<noteq> None
    \<and> Global_check t (nextRef w) w2 = None \<and> calls w2 = calls w"
proof -
  have c: "\<not> g_closed (globals w g)" "Isolate_check t (g_iso (globals w g)) w = None"
    and w1: "raw = g_cell (globals w g)" "w1 = setGlobal g (\<lambda>x. x\<lparr>g_cell := 0, g_closed := True\<rparr>) w"
    using assms(1) unfolding IntoRaw_def guarded_eq_Inr by (auto simp: checks_None)
  then have "Isolate_check t (g_iso (globals w g)) w1 = None" "requireInitialized w1 = None"
    using assms(4) by (simp_all add: setGlobal_def Isolate_check_def requireInitialized_def loadShim_def)
  moreover have "globals w g = \<lparr>g_iso = g_iso (globals w g), g_cell = raw, g_closed = False\<rparr>"
    using c(1) w1(1) by (cases "globals w g") simp
  moreover define w2 where "w2 = w1\<lparr>globals := (globals w1)(nextRef w := globals w g), nextRef := Suc (nextRef w)\<rparr>"
  ultimately have "GlobalFromRaw t (g_iso (globals w g)) raw w1 = (Inr (nextRef w), w2)"
    using assms(2) by (simp add: GlobalFromRaw_def w1(2) setGlobal_def Let_def)
  moreover have "globals w2 (nextRef w) = globals w g \<and> Global_check t g w2 \<noteq> None
      \<and> Global_check t (nextRef w) w2 = None \<and> calls w2 = calls w"
    using c assms(3) by (simp add: w2_def w1(2) setGlobal_def Global_check_def Isolate_check_def)
  ultimately show ?thesis by blast
qed

definition one_global :: "(tid \<times> api) list" where
  "one_global = start @ [(1, Scp (OpNewScope 0)), (1, Hnd (OpNewGlobal 1 \<lparr>v_iso = 0, v_sc = 1, v_h = 5\<rparr>))]"

theorem raw_global_round_trip_witness:
  "fst (GlobalFromRaw 1 0 7 (snd (IntoRaw 1 2 (runs steady one_global (boot None))))) = Inr 3"
proof -
  let ?w = "runs steady one_global (boot None)"
  have "fst (IntoRaw 1 2 ?w) = Inr 7" "nextRef ?w = 3" "requireInitialized ?w = None" "g_iso (globals ?w 2) = 0"
    by (simp_all add: eval_simps one_global_def)
  with raw_global_round_trip [OF fst_eq_pair, of 1 2 ?w 7] show ?thesis by auto
qed

section \<open>Shared isolates\<close>

text \<open>A shared isolate has no live weak handle: the conversion tests it, and afterwards none is made.\<close>

definition shared_free :: "world \<Rightarrow> bool" where
  "shared_free w \<longleftrightarrow> weaks_inv w \<and> (\<forall>i. sharedRegistry w i \<noteq> None \<longrightarrow> weakLiveness w i = 0)"

interpretation free_alloc: alloc_stable shared_free
  by unfold_locales (auto simp: shared_free_def weak_alloc.P_called weak_alloc.upd_nextRef)

interpretation free_scope: scope_blind shared_free
  by unfold_locales (simp_all add: shared_free_def weaks_inv_def)

interpretation free_context: context_blind shared_free
  by unfold_locales (simp_all add: shared_free_def weaks_inv_def)

interpretation free_script: script_blind shared_free
  by unfold_locales (simp_all add: shared_free_def weaks_inv_def)

lemma shared_free_lifecycle: "shared_free w \<Longrightarrow> shared_free (lifecycle_exec E t a w)"
  using lifecycle_weaks_inv [of w E t a] lifecycle_heaps [of E t a w] by (auto simp: shared_free_def heaps_def)

lemma untracked_when_free:
  assumes "shared_free w" "sharedRegistry w (w_iso (weaks w x)) \<noteq> None" "\<not> w_closed (weaks w x)"
  shows "w_empty (weaks w x)"
proof (rule ccontr)
  assume "\<not> w_empty (weaks w x)"
  with assms have "x \<in> tracked (weaks w) (w_iso (weaks w x))"
    by (auto simp: shared_free_def weaks_inv_def weaks_ok_def tracked_def)
  moreover have "finite (tracked (weaks w) (w_iso (weaks w x)))"
    using assms(1) finite_tracked by (auto simp: shared_free_def weaks_inv_def)
  ultimately show False using assms(1,2) by (auto simp: shared_free_def weaks_inv_def weaks_ok_def)
qed

definition free_count :: "world \<Rightarrow> bool" where
  "free_count w \<longleftrightarrow> (\<forall>i. sharedRegistry w i \<noteq> None \<longrightarrow> weakLiveness w i = 0)"

interpretation count_alloc: alloc_stable free_count
  by unfold_locales (simp_all add: free_count_def)

lemma free_count_upd:
  "free_count (w\<lparr>globals := G\<rparr>) = free_count w" "free_count (w\<lparr>weaks := X\<rparr>) = free_count w"
  "free_count (w\<lparr>weakNext := k\<rparr>) = free_count w" "free_count (w\<lparr>weakEntries := m\<rparr>) = free_count w"
  "free_count (w\<lparr>weakDispatcherErr := d\<rparr>) = free_count w" "free_count (w\<lparr>finalized := f\<rparr>) = free_count w"
  "free_count (w\<lparr>nextRef := n\<rparr>) = free_count w"
  by (simp_all add: free_count_def)

lemma free_count_unregister: "free_count w \<Longrightarrow> free_count (unregisterWeakLiveness x w)"
  by (auto simp: free_count_def unregisterWeakLiveness_def Let_def)

lemma free_count_remove: "free_count (removeWeakEntry k w) = free_count w"
  by (simp add: removeWeakEntry_def free_count_upd)

lemma free_count_drain: "free_count w \<Longrightarrow> free_count (snd (drainLoop E t noEffect i ps w))"
  by (induction ps arbitrary: w)
    (auto simp: callErr_eq Let_def runDrained_def consumeDrained_def noEffect_def free_count_upd free_count_remove
      count_alloc.P_called free_count_unregister)

lemma sharedRegistry_dispatcher: "sharedRegistry (snd (ensureWeakDispatcher E t en w)) = sharedRegistry w"
  "globals (snd (ensureWeakDispatcher E t en w)) = globals w" "weakLiveness (snd (ensureWeakDispatcher E t en w)) = weakLiveness w"
  by (auto simp: ensureWeakDispatcher_def callErr_eq Let_def split: option.split)

lemma free_count_createWeak:
  "free_count w \<Longrightarrow> sharedRegistry w (g_iso (globals w g)) = None \<Longrightarrow> free_count (snd (createWeak E t g mf w))"
  by (auto simp: createWeak_def nextWeakId_def registerFinalizer_def registerWeakLiveness_def removeWeakEntry_def
      callHandle_eq Let_def free_count_def split: option.split)

lemma free_count_newWeak: "free_count w \<Longrightarrow> free_count (snd (newWeak E t en g mf w))"
  by (auto simp: newWeak_def isolateIsShared_def outcome_simps sharedRegistry_dispatcher free_count_def
      intro!: free_count_createWeak [unfolded free_count_def, rule_format] split: sum.split)

lemma free_count_Weak_Clone:
  assumes "shared_free w"
  shows "free_count (snd (Weak_Clone E t x w))"
proof -
  have "sharedRegistry w (w_iso (weaks w x)) = None" if "\<not> w_closed (weaks w x)" "\<not> w_empty (weaks w x)"
    using that untracked_when_free [OF assms, of x] by blast
  with assms show ?thesis
  by (auto simp: Weak_Clone_def callErr_eq outcome_simps Let_def checks_None free_count_def shared_free_def
      newWeakStruct_def registerWeakLiveness_def split: sum.split)
qed

lemma shared_free_handle: "shared_free w \<Longrightarrow> shared_free (handle_exec E t a w)"
proof -
  assume w: "shared_free w"
  then have "free_count w" by (simp add: shared_free_def free_count_def)
  have "free_count (handle_exec E t a w)"
  proof (cases a)
    case (OpWeakClone x)
    then show ?thesis using free_count_Weak_Clone [OF w] by simp
  qed (use \<open>free_count w\<close> in \<open>auto simp: free_count_upd free_count_remove noEffect_def
      NewWeak_def NewWeakWithFinalizer_def NewWeakWithGuaranteedFinalizer_def free_count_newWeak
      NewGlobal_def Global_Clone_def Global_Equal_def Global_ToLocal_def Global_Close_def IntoRaw_def
      GlobalFromRaw_def setGlobal_def Weak_IsEmpty_def Weak_ToLocal_def Weak_ToGlobal_def EqualWeak_def
      EqualGlobal_def collected_def cellOf_def boolCall_def unitCall_def localCall_def call_eqs Let_def
      weakFinalizerDispatch_def DrainGuaranteedWeakFinalizers_def EmptyWeak_def Weak_Close_def
      intro!: count_alloc.P_rules free_count_drain free_count_unregister split: option.split\<close>)
  then show ?thesis using handle_weaks_inv [of w E t a] w by (simp add: shared_free_def free_count_def)
qed

lemma shared_free_locker: "shared_free w \<Longrightarrow> shared_free (locker_exec E t a w)"
proof -
  assume w: "shared_free w"
  then have "free_count w" by (simp add: shared_free_def free_count_def)
  then have "free_count (locker_exec E t a w)"
    by (cases a)
      (auto simp: op_defs check_defs call_eqs outcome_simps Let_def free_count_def split: option.splits sum.splits)
  then show ?thesis using dispose_weak.P_dispose_exec [of w E t a] w by (simp add: shared_free_def free_count_def)
qed

interpretation free: api_stable shared_free
  by unfold_locales (simp_all add: shared_free_lifecycle free_scope.P_scope_exec free_context.P_context_exec
      shared_free_handle shared_free_locker)

lemma shared_free_boot: "shared_free (boot e)"
  using api_inv_boot [of e] by (simp add: shared_free_def api_inv_def) (simp add: boot_def)

text \<open>C22. A shared isolate never has an open, non-empty weak handle: conversion is refused while one
  is alive, and no operation makes one afterwards.\<close>

theorem shared_isolates_have_no_weak_handle:
  assumes "sharedRegistry (runs E tr (boot e)) i \<noteq> None" and "w_iso (weaks (runs E tr (boot e)) x) = i"
  shows "w_closed (weaks (runs E tr (boot e)) x) \<or> w_empty (weaks (runs E tr (boot e)) x)"
  using assms untracked_when_free [OF free.P_runs [OF shared_free_boot, where E = E and tr = tr], of e x] by blast

theorem shared_isolates_have_no_weak_handle_witness:
  "w_closed (weaks (runs steady (start @ [(1, Lck (OpTryIntoShared 0))]) (boot None)) 9)
   \<or> w_empty (weaks (runs steady (start @ [(1, Lck (OpTryIntoShared 0))]) (boot None)) 9)"
proof -
  let ?w = "runs steady (start @ [(1, Lck (OpTryIntoShared 0))]) (boot None)"
  have "sharedRegistry ?w 0 \<noteq> None" "w_iso (weaks ?w 9) = 0" by (simp_all add: eval_simps)
  then show ?thesis by (rule shared_isolates_have_no_weak_handle)
qed

text \<open>TryIntoShared refuses an isolate with an open, non-empty weak handle, without entering the
  engine and without changing anything.\<close>

theorem conversion_refused_with_weak_handles:
  assumes "\<not> w_closed (weaks (runs E tr (boot e)) x)" and "\<not> w_empty (weaks (runs E tr (boot e)) x)"
  shows "\<exists>err. TryIntoShared E t (w_iso (weaks (runs E tr (boot e)) x)) (runs E tr (boot e)) = (Inl err, runs E tr (boot e))"
proof -
  let ?w = "runs E tr (boot e)" and ?i = "w_iso (weaks (runs E tr (boot e)) x)"
  have "weaks_inv ?w" by (rule runs_inv)
  then have "liveWeakCount ?i ?w > 0"
    using assms finite_tracked [of "nextRef ?w" "weaks ?w" "weakLiveness ?w" ?i]
    by (auto simp: liveWeakCount_def weaks_inv_def weaks_ok_def tracked_def card_gt_0_iff)
  then have "first_err [requireInitialized ?w, fail_if (sharedRegistry ?w ?i \<noteq> None) (Misuse ''isolate is already shared''),
      fail_if (isolateClosed ?i ?w) (UsedAfterClose KIsolate),
      fail_if (liveWeakCount ?i ?w > 0) (IntoSharedError KindLiveWeakHandlesOrPendingFinalizers ?i),
      fail_if (i_customCppGCHeap (isolates ?w ?i)) (IntoSharedError KindEmbedderCppHeap ?i)] \<noteq> None" by simp
  then show ?thesis unfolding TryIntoShared_def guarded_def by (auto split: option.splits)
qed

theorem conversion_refused_with_weak_handles_witness:
  "\<exists>err. TryIntoShared steady 1 0 (runs steady one_guaranteed (boot None)) = (Inl err, runs steady one_guaranteed (boot None))"
proof -
  let ?w = "runs steady one_guaranteed (boot None)"
  have "\<not> w_closed (weaks ?w 3)" "\<not> w_empty (weaks ?w 3)" "w_iso (weaks ?w 3) = 0"
    by (simp_all add: eval_simps one_guaranteed_def)
  with conversion_refused_with_weak_handles [of steady one_guaranteed None 3 1] show ?thesis by simp
qed

text \<open>C23. Under every interleaving of Lock, Locker.Close, UnlockWindow and SharedIsolate.Close by any
  number of threads, a thread that passes the affinity test of a shared isolate holds the engine's
  lock. As the engine grants its lock to one thread at a time, no two threads ever pass the test
  together.\<close>

theorem only_the_lock_holder_passes:
  assumes "just_shared i s0" and "(lstep E i)\<^sup>*\<^sup>* s0 s"
    and "sharedRegistry (lw s) i \<noteq> None" and "t \<noteq> 0" and "Isolate_check t i (lw s) = None"
  shows "held_by t (holder s) \<and> (\<forall>u. u \<noteq> 0 \<longrightarrow> Isolate_check u i (lw s) = None \<longrightarrow> u = t)"
proof -
  have "lock_inv i s" using share.rtranclp_inv [OF assms(2) just_shared_inv [OF assms(1)]] .
  with assms(3-5) show ?thesis
    by (auto simp: lock_inv_def binding_ok_def binding_def Isolate_check_None)
qed

text \<open>An engine as seen by a thread that has entered no isolate, and an isolate just converted.\<close>

definition outside :: engine where
  "outside cs c = \<lparr>r1 = (if call_proc c = ''gov8_ca_try_current'' then 0 else 7), outs = [], data = ''''\<rparr>"

definition converted :: lsys where
  "converted = \<lparr>lw = runs steady (start @ [(1, Lck (OpTryIntoShared 0))]) (boot None),
     phase_of = (\<lambda>_. Idle), holder = None\<rparr>"

definition locked_by :: "tid \<Rightarrow> lsys" where
  "locked_by t =
     (let w1 = snd (Lock_begin outside t 0 (lw converted));
          w2 = snd (Lock_acquire outside t 0 w1);
          w3 = snd (Lock_publish t 0 7 w2)
      in converted\<lparr>lw := w3, holder := Some (t, 1)\<rparr>)"

lemmas lock_eval = eval_simps converted_def outside_def

lemma converted_just_shared: "just_shared 0 converted"
  by (simp add: just_shared_def lockers_below_def lock_eval)

lemma locked_by_reached: "(lstep outside 0)\<^sup>*\<^sup>* converted (locked_by 5)"
proof -
  define w1 w2 where "w1 = snd (Lock_begin outside 5 0 (lw converted))" and "w2 = snd (Lock_acquire outside 5 0 w1)"
  define s1 where "s1 = converted\<lparr>lw := w1, phase_of := (phase_of converted)(5 := Acquiring)\<rparr>"
  define s2 where "s2 = s1\<lparr>lw := w2, phase_of := (phase_of s1)(5 := Publishing 7), holder := grant (holder s1) 5\<rparr>"
  have "fst (Lock_begin outside 5 0 (lw converted)) = Inr ()" by (simp add: lock_eval)
  then have "lstep outside 0 converted s1"
    unfolding s1_def w1_def by (intro lstep.begin_ok fst_eq_pair) (simp_all add: converted_def)
  moreover have "fst (Lock_acquire outside 5 0 w1) = Inr 7"
    by (simp add: w1_def lock_eval)
  then have "Lock_acquire outside 5 0 w1 = (Inr 7, w2)" unfolding w2_def by (rule fst_eq_pair)
  then have "lstep outside 0 s1 s2"
    unfolding s2_def by (intro lstep.acquire_ok) (simp_all add: s1_def converted_def grantable_def)
  moreover have "lstep outside 0 s2 (s2\<lparr>lw := snd (Lock_publish 5 0 7 w2), phase_of := (phase_of s2)(5 := Idle)\<rparr>)"
    by (rule lstep.publish [of _ _ 7 _ "fst (Lock_publish 5 0 7 w2)"]) (simp_all add: s2_def)
  moreover have "s2\<lparr>lw := snd (Lock_publish 5 0 7 w2), phase_of := (phase_of s2)(5 := Idle)\<rparr> = locked_by 5"
    by (simp add: locked_by_def Let_def s2_def s1_def w1_def w2_def converted_def grant_def fun_upd_idem)
  ultimately show ?thesis by (metis rtranclp.rtrancl_into_rtrancl rtranclp.rtrancl_refl)
qed

theorem only_the_lock_holder_passes_witness: "held_by 5 (holder (locked_by 5))"
proof -
  have "sharedRegistry (lw (locked_by 5)) 0 \<noteq> None" "Isolate_check 5 0 (lw (locked_by 5)) = None"
    by (simp_all add: locked_by_def lock_eval)
  with only_the_lock_holder_passes [OF converted_just_shared locked_by_reached, of 5] show ?thesis by simp
qed

section \<open>The boundary\<close>

text \<open>The shim's contract for text results: it reports the length of the text and, when the buffer is
  too small, answers with the no-memory status and writes nothing; otherwise it writes the text.\<close>

definition text_protocol :: "string \<Rightarrow> (int \<Rightarrow> world \<Rightarrow> resp \<times> world) \<Rightarrow> bool" where
  "text_protocol txt fn \<longleftrightarrow>
     (\<forall>n w. outs (fst (fn n w)) = [of_nat (length txt)]
        \<and> (if int (length txt) \<le> n then \<not> sneg (r1 (fst (fn n w))) \<and> data (fst (fn n w)) = txt
           else sint (r1 (fst (fn n w))) = errNoMemory))"

lemma bufAfter_fits: "length d \<le> nat n \<Longrightarrow> take (length d) (bufAfter n d) = d"
  by (simp add: bufAfter_def)

lemma sint_length: "int (length txt) < 2 ^ 63 \<Longrightarrow> sint (of_nat (length txt) :: 64 word) = int (length txt)"
  by (simp add: signed_of_nat signed_take_bit_int_eq_self_iff)

lemma sneg_errNoMemory: "sint r = errNoMemory \<Longrightarrow> sneg r"
  by (simp add: sneg_def errNoMemory_def)

text \<open>C24. A text of any length is returned whole: in one call of the shim when it fits the initial
  buffer of 4096 bytes, in two when it does not.\<close>

theorem callTextFn_returns_whole_text:
  assumes "text_protocol txt fn" and "int (length txt) < 2 ^ 63"
  shows "callTextFn oper fn w =
    (Inr txt, if int (length txt) \<le> toStringBufCap then snd (fn toStringBufCap w)
              else snd (fn (int (length txt)) (snd (fn toStringBufCap w))))"
proof (cases "int (length txt) \<le> toStringBufCap")
  case True
  then have f: "\<not> sneg (r1 (fst (fn toStringBufCap w)))" "data (fst (fn toStringBufCap w)) = txt"
      "outs (fst (fn toStringBufCap w)) = [of_nat (length txt)]"
    using assms(1) by (auto simp: text_protocol_def)
  then have "sint (r1 (fst (fn toStringBufCap w))) \<noteq> errNoMemory" using sneg_errNoMemory by blast
  with True f show ?thesis
    by (simp add: callTextFn_def split_def Let_def int64Out_def sint_length [OF assms(2)] bufAfter_fits nat_le_iff
        le_nat_iff toStringBufCap_def)
next
  case False
  let ?n = "int (length txt)" and ?w = "snd (fn toStringBufCap w)"
  have f: "sint (r1 (fst (fn toStringBufCap w))) = errNoMemory" "outs (fst (fn toStringBufCap w)) = [of_nat (length txt)]"
    "\<not> sneg (r1 (fst (fn ?n ?w)))" "data (fst (fn ?n ?w)) = txt" "outs (fst (fn ?n ?w)) = [of_nat (length txt)]"
    using assms(1) False by (auto simp: text_protocol_def)
  moreover have "0 < ?n" using False unfolding toStringBufCap_def by linarith
  ultimately show ?thesis using False
    by (simp add: callTextFn_def split_def Let_def int64Out_def sint_length [OF assms(2)] bufAfter_fits)
qed

definition hello :: "int \<Rightarrow> world \<Rightarrow> resp \<times> world" where
  "hello n w = (\<lparr>r1 = (if 5 \<le> n then 0 else - 4), outs = [5], data = (if 5 \<le> n then ''hello'' else [])\<rparr>, w)"

theorem callTextFn_returns_whole_text_witness: "callTextFn ''ToString'' hello (boot None) = (Inr ''hello'', boot None)"
proof -
  have "text_protocol ''hello'' hello" by (simp add: text_protocol_def hello_def errNoMemory_def)
  from callTextFn_returns_whole_text [OF this, of "''ToString''" "boot None"] show ?thesis by (simp add: hello_def)
qed

text \<open>Every look-up of an export returns what the library's own search returns, and an export
  that exists is searched for at most once in the life of the process, in whatever order exports are
  used.\<close>

theorem exports_resolved_once:
  "fst (proc F n (procCalls F ns \<lparr>procTable = Some Map.empty, finds = []\<rparr>)) = F n
   \<and> (F n = None \<or> count_list (finds (procCalls F ns \<lparr>procTable = Some Map.empty, finds = []\<rparr>)) n \<le> 1)"
proof -
  have "table_sound F \<lparr>procTable = Some Map.empty, finds = []\<rparr>" by (simp add: table_sound_def)
  then have "table_sound F (procCalls F ns \<lparr>procTable = Some Map.empty, finds = []\<rparr>)" by (rule procCalls_table_sound)
  then show ?thesis using proc_result by (fastforce simp: table_sound_def)
qed

text \<open>A platform configured with any thread-pool size hands at most 16 threads to the engine,
  and single-threaded platforms none, whatever the options.\<close>

theorem configured_threads_bounded:
  assumes "ConfigurePlatform E t opts w = (Inr u, w')"
  shows "\<exists>pc. selectedPlatform w' = Some pc \<and> pc_threadPoolSize pc \<le> 16
    \<and> (pc_kind pc = PlatformSingleThreaded \<longrightarrow> pc_threadPoolSize pc = 0) \<and> pc_kind pc \<le> PlatformSingleThreaded"
  using assms unfolding ConfigurePlatform_def guarded_eq_Inr
  by (auto simp: selectPlatform_def clampThreads_def callErr_eq Let_def andThen_def PlatformSingleThreaded_def
      split: if_splits)

theorem configured_threads_bounded_witness:
  "\<exists>pc. selectedPlatform (snd (ConfigurePlatform steady 1
      \<lparr>po_Kind = 0, po_ThreadPoolSize = 99, po_IdleTaskSupport = True, po_SingleThreadedFlag = False\<rparr> (boot None))) = Some pc
    \<and> pc_threadPoolSize pc \<le> 16"
proof -
  have "fst (ConfigurePlatform steady 1
      \<lparr>po_Kind = 0, po_ThreadPoolSize = 99, po_IdleTaskSupport = True, po_SingleThreadedFlag = False\<rparr> (boot None)) = Inr ()"
    by (simp add: eval_simps PlatformSingleThreaded_def)
  from configured_threads_bounded [OF fst_eq_pair [OF this]] show ?thesis by blast
qed

section \<open>Behaviour that differs from what is meant\<close>

text \<open>Run marks its script open when it returns, also when a callback that ran meanwhile closed
  the script: the closed script is usable again, and its native handle is already released.\<close>

theorem Run_reopens_a_closed_script:
  assumes "Script_check t x w = None" and "s_iso (scopes w s) = sc_iso (scripts w x)" and "\<not> s_closed (scopes w s)"
  shows "sc_state (scripts (snd (Script_Run E t nested x s None w)) x) = 0"
  using assms by (simp add: Script_Run_def optTryCatch_check_def snd_guarded upd_script_def shim_eq Let_def)

definition one_script :: "(tid \<times> api) list" where
  "one_script = start @ [(1, Ctx (OpNewContext 0)), (1, Scp (OpNewScope 0)), (1, Scr (OpCompile 1 2 ''f()'' None))]"

theorem Run_reopens_a_closed_script_witness:
  "sc_state (scripts (script_exec steady 1 (OpScriptClose 3) (runs steady one_script (boot None))) 3) = 1
   \<and> sc_state (scripts (exec steady 1 (Run 3 2 None [Scr (OpScriptClose 3)]) (runs steady one_script (boot None))) 3) = 0"
proof -
  let ?w = "runs steady one_script (boot None)"
  have "Script_check 1 3 ?w = None" "s_iso (scopes ?w 2) = sc_iso (scripts ?w 3)" "\<not> s_closed (scopes ?w 2)"
    "sc_state (scripts (script_exec steady 1 (OpScriptClose 3) ?w) 3) = 1"
    by (simp_all add: eval_simps one_script_def)
  with Run_reopens_a_closed_script [of 1 3 ?w 2] show ?thesis by simp
qed

text \<open>When the engine reports an error for the Close of a weak handle, the handle is marked
  closed but stays counted, and a second Close is refused: the isolate can never be shared again.\<close>

theorem weak_Close_error_keeps_the_count:
  assumes "\<not> w_closed (weaks w x)" and "\<not> w_empty (weaks w x)"
    and "Isolate_check t (w_iso (weaks w x)) w = None" and "\<not> i_closed (isolates w (w_iso (weaks w x)))"
    and "requireInitialized w = None"
    and "sneg (r1 (E (calls w) (Call t ''gov8_weak_close''
           [W (i_handle (isolates w (w_iso (weaks w x)))), W (w_wrap (weaks w x))])))"
  shows "w_closed (weaks (snd (Weak_Close E t x w)) x)
    \<and> liveWeakCount (w_iso (weaks w x)) (snd (Weak_Close E t x w)) = liveWeakCount (w_iso (weaks w x)) w
    \<and> fst (Weak_Close E' t' x (snd (Weak_Close E t x w))) = Inl (AlreadyClosed KWeak)"
proof -
  have "sint (r1 (E (calls w) (Call t ''gov8_weak_close''
           [W (i_handle (isolates w (w_iso (weaks w x)))), W (w_wrap (weaks w x))]))) \<noteq> 1"
    using assms(6) by (simp add: sneg_def)
  with assms have "snd (Weak_Close E t x w) = upd_weak x (\<lambda>q. q\<lparr>w_closed := True\<rparr>)
      (called t ''gov8_weak_close'' [W (i_handle (isolates w (w_iso (weaks w x)))), W (w_wrap (weaks w x))] w)"
    by (simp add: Weak_Close_def isolateClosed_def shim_eq Let_def)
  then show ?thesis by (simp add: Weak_Close_def liveWeakCount_def)
qed

definition failing_close :: engine where
  "failing_close cs c = \<lparr>r1 = - 1, outs = [], data = []\<rparr>"

theorem weak_Close_error_keeps_the_count_witness:
  "liveWeakCount 0 (snd (Weak_Close failing_close 1 3 (runs steady one_guaranteed (boot None)))) = 1"
proof -
  let ?w = "runs steady one_guaranteed (boot None)"
  have "\<not> w_closed (weaks ?w 3)" "\<not> w_empty (weaks ?w 3)" "Isolate_check 1 0 ?w = None" "w_iso (weaks ?w 3) = 0"
    "\<not> i_closed (isolates ?w 0)" "requireInitialized ?w = None" "liveWeakCount 0 ?w = 1"
    by (simp_all add: eval_simps one_guaranteed_def)
  moreover have "sneg (r1 (failing_close cs c))" for cs c by (simp add: failing_close_def sneg_def)
  ultimately show ?thesis using weak_Close_error_keeps_the_count [of ?w 3 1 failing_close] by simp
qed




text \<open>Lock on an isolate that is not shared, or no longer, returns its error with the thread still
  pinned.\<close>

theorem Lock_refusal_leaks_the_pin:
  assumes "requireInitialized w = None" and "sharedRegistry w i = None"
  shows "fst (Lock_begin E t i w) = Inl (Misuse ''isolate is not shared'')
    \<and> osPins (snd (Lock_begin E t i w)) t = Suc (osPins w t)"
  using assms by (simp add: Lock_begin_def LockOSThread_def)

theorem Lock_refusal_leaks_the_pin_witness: "osPins (snd (Lock_begin steady 3 0 (runs steady start (boot None)))) 3 = 1"
proof -
  let ?w = "runs steady start (boot None)"
  have "requireInitialized ?w = None" "sharedRegistry ?w 0 = None" "osPins ?w 3 = 0" by (simp_all add: eval_simps)
  with Lock_refusal_leaks_the_pin [of ?w 0 steady 3] show ?thesis by simp
qed




section \<open>Values and strings\<close>

text \<open>Once a scope is closed no operation on a value of that scope enters the engine or changes
  anything, on any thread and after any further calls; and while its scope is open an operation on a
  value changes nothing but the record of boundary calls.\<close>

theorem values_of_a_closed_scope_are_inert:
  assumes "Scope_Close E t s w = (Inr u, w')" and "s < nextRef w" and "v_sc v = s"
  shows "value_exec E' t' v a (runs E tr w') = runs E tr w'
    \<and> (\<exists>cs. value_exec E' t'' v a w = w\<lparr>calls := calls w @ cs\<rparr>)"
proof -
  have "s_closed (scopes w' s)" "nextRef w' = nextRef w"
    using assms(1) unfolding Scope_Close_def guarded_eq_Inr
    by (auto simp: shim_eq Let_def popHandleScope_w_def andThen_def split: option.splits if_splits)
  then have "scope_gone s w'" using assms(2) by (simp add: scope_gone_def)
  from gone_scope.P_runs [OF this, of E tr] have "Value_check t' v (runs E tr w') \<noteq> None"
    using assms(3) by (simp add: scope_gone_def Value_check_def Scope_check_def first_err_Cons split: option.split)
  then show ?thesis using value_exec_refused value_exec_logged [of w E' t'' v a] by (simp add: logged_def)
qed

definition two_scopes :: "(tid \<times> api) list" where
  "two_scopes = start @ [(1, Scp (OpNewScope 0)), (1, Scp (OpNewScope 0))]"

theorem values_of_a_closed_scope_are_inert_witness:
  "value_exec steady 1 \<lparr>v_iso = 0, v_sc = 2, v_h = 5\<rparr> VLength
     (runs steady [(1, Scp (OpNewScope 0))] (snd (Scope_Close steady 1 2 (runs steady two_scopes (boot None)))))
   = runs steady [(1, Scp (OpNewScope 0))] (snd (Scope_Close steady 1 2 (runs steady two_scopes (boot None))))"
proof -
  let ?w = "runs steady two_scopes (boot None)"
  have "fst (Scope_Close steady 1 2 ?w) = Inr ()" "2 < nextRef ?w" by (simp_all add: eval_simps two_scopes_def)
  with values_of_a_closed_scope_are_inert [OF fst_eq_pair, of steady 1 2 ?w _ "\<lparr>v_iso = 0, v_sc = 2, v_h = 5\<rparr>"]
  show ?thesis by (simp del: value_exec.simps runs_simps)
qed

text \<open>The shim's contract for the two calls behind StringValue.\<close>

definition string_protocol :: "string \<Rightarrow> engine \<Rightarrow> bool" where
  "string_protocol txt E \<longleftrightarrow>
     (\<forall>cs c. call_proc c = ''gov8_is_string'' \<longrightarrow> r1 (E cs c) = 1)
     \<and> (\<forall>cs c. call_proc c = ''gov8_string_utf8_length'' \<longrightarrow> r1 (E cs c) = of_nat (length txt))
     \<and> (\<forall>cs c. call_proc c = ''gov8_string_write_utf8'' \<longrightarrow> r1 (E cs c) = of_nat (length txt) \<and> data (E cs c) = txt)"

text \<open>StringValue returns the whole text of a live string, whatever its length.\<close>

theorem StringValue_returns_whole_string:
  assumes "string_protocol txt E" and "int (length txt) < 2 ^ 63"
    and "Value_check t v w = None" and "requireInitialized w = None"
  shows "fst (StringValue E t v w) = Inr txt"
proof -
  have c: "Value_check t v (called t p a w') = Value_check t v w'"
    "requireInitialized (called t p a w') = requireInitialized w'" for p a w'
    by (simp_all add: Value_check_def Scope_check_def Isolate_check_def requireInitialized_def loadShim_def)
  have "\<not> sneg (of_nat (length txt))" by (simp add: sneg_def sint_length [OF assms(2)])
  with assms show ?thesis
    by (simp add: StringValue_def utf8Bytes_def onString_def requireString_def typedCast_def IsString_def predicate_def
        boolCall_def lengthCall_def callErr_eq string_protocol_def Let_def c sint_length bufAfter_def)
qed

definition greeting :: engine where
  "greeting cs c = \<lparr>r1 = (if call_proc c = ''gov8_is_string'' then 1 else 5), outs = [], data = ''hello''\<rparr>"

theorem StringValue_returns_whole_string_witness:
  "fst (StringValue greeting 1 \<lparr>v_iso = 0, v_sc = 1, v_h = 5\<rparr> (runs steady (start @ [(1, Scp (OpNewScope 0))]) (boot None)))
     = Inr ''hello''"
proof -
  let ?w = "runs steady (start @ [(1, Scp (OpNewScope 0))]) (boot None)"
  have "string_protocol ''hello'' greeting" by (simp add: string_protocol_def greeting_def)
  moreover have "Value_check 1 \<lparr>v_iso = 0, v_sc = 1, v_h = 5\<rparr> ?w = None" "requireInitialized ?w = None"
    by (simp_all add: eval_simps)
  ultimately show ?thesis by (intro StringValue_returns_whole_string) simp_all
qed

text \<open>C34. Latin1ToUTF8 writes the UTF-8 encoding of the original input to the start of the output and
  changes no other byte of memory, also when the two slices overlap.\<close>

theorem Latin1ToUTF8_correct:
  assumes "valid_slice input" and "valid_slice output"
    and "sl_len input \<le> maxInt div 2" and "2 * sl_len input \<le> sl_len output"
  shows "\<exists>n m'. Latin1ToUTF8 input output m = (Inr n, m')
    \<and> bytesOf m' (output\<lparr>sl_len := n\<rparr>) = latin1Utf8 (bytesOf m input)
    \<and> (\<forall>a. a \<notin> (\<lambda>j. sl_ptr output + of_nat j) ` {0..<n} \<longrightarrow> m' a = m a)
    \<and> utf8Decode (map unat (bytesOf m' (output\<lparr>sl_len := n\<rparr>))) = Some (map unat (bytesOf m input))"
proof -
  let ?bs = "latin1Utf8 (bytesOf m input)" and ?p = "sl_ptr output"
  have len: "length ?bs \<le> sl_len output"
    using length_latin1Utf8 [of "bytesOf m input"] assms(4) by (simp add: bytesOf_def)
  then have "unat ?p + (0 + length ?bs) < 2 ^ 64" using assms(2) by (simp add: valid_slice_def)
  from store_read [OF this] have "bytesOf (store ?p 0 ?bs m) (output\<lparr>sl_len := length ?bs\<rparr>) = ?bs"
    by (auto simp: bytesOf_def intro!: nth_equalityI)
  moreover have "\<forall>a. a \<notin> (\<lambda>j. ?p + of_nat j) ` {0..<length ?bs} \<longrightarrow> store ?p 0 ?bs m a = m a"
    using store_frame [of _ ?p 0 ?bs m] by simp
  ultimately show ?thesis using Latin1ToUTF8_eq [OF assms, of m] latin1Utf8_decodes by auto
qed

definition overlapping :: memory where
  "overlapping a = (if a = 100 then 0xe9 else if a = 101 then 0xfc else 0x2e)"

theorem Latin1ToUTF8_correct_witness:
  "\<exists>n m'. Latin1ToUTF8 \<lparr>sl_ptr = 100, sl_len = 2\<rparr> \<lparr>sl_ptr = 100, sl_len = 4\<rparr> overlapping = (Inr n, m')
     \<and> bytesOf m' \<lparr>sl_ptr = 100, sl_len = n\<rparr> = [0xc3, 0xa9, 0xc3, 0xbc]"
proof -
  have b: "bytesOf overlapping \<lparr>sl_ptr = 100, sl_len = 2\<rparr> = [0xe9, 0xfc]"
    by (simp add: bytesOf_def overlapping_def upt_rec)
  show ?thesis
    using Latin1ToUTF8_correct [of "\<lparr>sl_ptr = 100, sl_len = 2\<rparr>" "\<lparr>sl_ptr = 100, sl_len = 4\<rparr>" overlapping]
    by (auto simp: valid_slice_def maxInt_def b latin1Utf8_def)
qed




text \<open>CreateExternalOneByteConst of the empty text panics after the resource was created.\<close>

theorem empty_const_resource_panics:
  assumes "requireInitialized w = None" and "r1 (E (calls w) (Call t ''gov8_sb_external_onebyte_const_create'' [Buf []])) \<noteq> 0"
  shows "CreateExternalOneByteConst E t [] w
    = (Inl (Misuse ''panic: index out of range''), called t ''gov8_sb_external_onebyte_const_create'' [Buf []] w)"
  using assms by (simp add: CreateExternalOneByteConst_def callHandle_eq Let_def)

theorem empty_const_resource_panics_witness:
  "fst (CreateExternalOneByteConst steady 1 [] (runs steady start (boot None))) = Inl (Misuse ''panic: index out of range'')"
proof -
  have "requireInitialized (runs steady start (boot None)) = None" by (simp add: eval_simps)
  from empty_const_resource_panics [OF this] show ?thesis by (simp add: steady_def)
qed

text \<open>C37. Whatever order strings are created and finalized in, and however often the engine reports
  the same number, no deleter runs twice.\<close>

theorem deleters_run_once:
  "distinct (map fst (deleted (string_runs E en tr (string_boot w))))
   \<and> set (map fst (deleted (string_runs E en tr (string_boot w)))) \<inter> dom (sbEntries (string_runs E en tr (string_boot w))) = {}"
  using strings.reach_inv [OF string_runs_reach, of E en tr w] by (auto simp: deleters_ok_def deleters_core_def)

section \<open>WebAssembly streaming\<close>


text \<open>C38. Between calls, the registry's count of active streams of an isolate is the number of streams
  of that isolate that are neither finished, aborted nor closed, and no callback is counted as
  running, whatever was called from inside the callbacks.\<close>

theorem wasm_streams_counted:
  "wactiveStreams (wruns E ds tr (wboot w)) i
     = card {k. ws_iso (streamings (wruns E ds tr (wboot w)) k) = Some i
                \<and> ws_state (streamings (wruns E ds tr (wboot w)) k) = wasmStreamingOpen}
   \<and> wactiveCallbacks (wruns E ds tr (wboot w)) i = 0"
  using count.P_wruns [OF counted_boot, of E ds tr w] by (simp add: counted_def openStreams_def)

text \<open>ClearWasmStreamingCallback succeeds only when the isolate has no open stream and no pending
  compilation, and afterwards no streaming callback of the isolate is registered.\<close>

theorem cleared_only_when_idle:
  assumes "ClearWasmStreamingCallback E t i (wruns E ds tr (wboot w)) = (Inr u, x')"
  shows "{k. ws_iso (streamings (wruns E ds tr (wboot w)) k) = Some i
              \<and> ws_state (streamings (wruns E ds tr (wboot w)) k) = wasmStreamingOpen} = {}
    \<and> {n. \<exists>c. wresolutions (wruns E ds tr (wboot w)) n = Some (i, c)} = {}
    \<and> {n. \<exists>c. wstreams x' n = Some (i, c)} = {}"
proof -
  let ?x = "wruns E ds tr (wboot w)"
  have c: "counted (\<lambda>_. 0) (\<lambda>_. 0) ?x" by (rule count.P_wruns [OF counted_boot])
  have cb: "callbacks_ok ?x" by (rule cbs.P_wruns [OF callbacks_ok_boot])
  have a: "wactiveStreams ?x i = 0" "i \<notin> fst ` ran (wresolutions ?x)"
    and x': "wstreams x' = (if wstreamByISO ?x i = 0 then wstreams ?x else (wstreams ?x)(wstreamByISO ?x i := None))"
    using assms unfolding ClearWasmStreamingCallback_def releaseWasmStreamingHostState_def guarded_eq_Inr
    by (auto simp: Let_def wOnBase_def lift_def andThen_eq_Inr forgetCallback_def split: if_splits)
  have "openStreams (streamings ?x) i = {}"
    using a(1) c finite_openStreams [OF c, of i] by (simp add: counted_def)
  moreover have "wresolutions ?x n \<noteq> Some (i, d)" for n d
    using a(2) by (metis fst_conv imageI ranI)
  moreover have "wstreams x' n \<noteq> Some (i, d)" for n d
    using cb x' by (fastforce simp: callbacks_ok_def split: if_splits)
  ultimately show ?thesis by (auto simp: openStreams_def)
qed

theorem cleared_only_when_idle_witness:
  "{n. \<exists>c. wstreams (snd (ClearWasmStreamingCallback steady 1 0
      (wruns steady [] [(1, WSetCallback 0 (Some 4))] (wboot with_isolate)))) n = Some (0, c)} = {}"
proof -
  have "fst (ClearWasmStreamingCallback steady 1 0 (wruns steady [] [(1, WSetCallback 0 (Some 4))] (wboot with_isolate))) = Inr ()"
    by (simp add: eval_simps op_defs with_isolate_def wboot_def lift_def maxUint64_def)
  from cleared_only_when_idle [OF fst_eq_pair [OF this]] show ?thesis by blast
qed

text \<open>A stream is consumed once: after Finish has succeeded, every later operation on the stream is
  refused without entering the engine, on any thread and whatever else is called, also from inside
  the callbacks of Finish.\<close>

theorem stream_consumed_once:
  assumes "fst (Stream_Finish E t (fold id (map (wexec E t ds) as)) (Some k) cb x) = Inr u" and "k < nextObj x"
    and "c \<in> {WOnBytes (Some k) b, WSetURL (Some k) b, WSetHasCache (Some k), WFinish (Some k) cb' as', WAbort (Some k) mv as', WClose (Some k) as'}"
  shows "wexec E' t' ds' c (wruns E ds tr (wexec E t ds (WFinish (Some k) cb as) x))
    = wruns E ds tr (wexec E t ds (WFinish (Some k) cb as) x)"
proof -
  let ?f = "fold id (map (wexec E t ds) as)"
  obtain n y where y: "registerWasmCachingCallback cb x = (Inr n, y)" and lo: "lockOpen t k ''Finish'' x = None"
    and cm: "ws_cacheMarked (streamings x k) = (cb \<noteq> None)"
    using assms(1) by (auto simp: Stream_Finish_def onStream_def guarded_def andThen_def split: option.splits sum.splits prod.splits)
  have n: "nextObj y = nextObj x" "streamings y = streamings x"
    using y by (auto simp: registerWasmCachingCallback_def nextWasmCallbackID_def split: option.splits if_splits)
  have "stream_done k (consumeStream k wasmStreamingFinished y)"
    using assms(2) n by (simp add: stream_done_def consumeStream_def)
  moreover have "gone.keeps k ?f" by (rule gone.keeps_fold) (auto intro: gone.keeps_wexec)
  ultimately have "stream_done k (wexec E t ds (WFinish (Some k) cb as) x)"
    using lo cm y
    by (auto simp: Stream_Finish_def onStream_def finishStream_def split_def Let_def
      intro!: gone.P_drop gone.release gone.P_engineStep)
  then have "stream_done k (wruns E ds tr (wexec E t ds (WFinish (Some k) cb as) x))" by (rule gone.P_wruns)
  then show ?thesis by (rule done_ignores) (rule assms(3))
qed



theorem stream_consumed_once_witness:
  "wexec steady 2 [] (WClose (Some 0) [])
     (wruns steady [] [(1, WSetURL (Some 0) ''a'')] (wexec steady 1 [] (WFinish (Some 0) None []) streaming))
   = wruns steady [] [(1, WSetURL (Some 0) ''a'')] (wexec steady 1 [] (WFinish (Some 0) None []) streaming)"
proof -
  have "fst (Stream_Finish steady 1 (fold id (map (wexec steady 1 []) [])) (Some 0) None streaming) = Inr ()"
    by (simp add: Stream_Finish_def onStream_def finishStream_def engineStep_def lockOpen_def streaming_state guarded_def fail_if_def
      registerWasmCachingCallback_def shim_eq steady_def sneg_def split_def Let_def)
  moreover have "0 < nextObj streaming" by (simp add: streaming_state)
  ultimately show ?thesis by (rule stream_consumed_once [where b = "[]" and cb' = None and mv = None and as' = "[]"]) simp
qed



text \<open>Once a stream has taken bytes, compiled module bytes can never be announced for it: in every later
  state SetHasCompiledModuleBytes is an error that changes nothing.\<close>

theorem no_cache_after_bytes:
  assumes "Stream_OnBytesReceived E t (Some k) bs x = (Inr u, y)" "k < nextObj x"
  shows "\<exists>e. Stream_SetHasCompiledModuleBytes E' t' (Some k) (wruns E ds tr y) = (Inl e, wruns E ds tr y)"
proof -
  have "stream_received k y"
    using assms unfolding Stream_OnBytesReceived_def onStream_def option.case guarded_eq_Inr
    by (auto simp: andThen_eq_Inr stream_received_def wOnBase_def lift_def)
  then have "stream_received k (wruns E ds tr y)" by (rule received.P_wruns)
  then show ?thesis
    by (auto simp: Stream_SetHasCompiledModuleBytes_def onStream_def stream_received_def guarded_def fail_if_def
      split: option.split)
qed

theorem no_cache_after_bytes_witness:
  "\<exists>y e. Stream_OnBytesReceived steady 1 (Some 0) ''x'' streaming = (Inr (), y)
     \<and> Stream_SetHasCompiledModuleBytes steady 1 (Some 0) y = (Inl e, y)"
proof -
  have "fst (Stream_OnBytesReceived steady 1 (Some 0) ''x'' streaming) = Inr ()"
    by (simp add: Stream_OnBytesReceived_def onStream_def lockOpen_def streaming_state guarded_def fail_if_def
      wOnBase_def lift_def andThen_def call_eqs steady_def sneg_def split_def)
  then obtain y where y: "Stream_OnBytesReceived steady 1 (Some 0) ''x'' streaming = (Inr (), y)"
    by (metis fst_eq_pair)
  have "0 < nextObj streaming" by (simp add: streaming_state)
  from no_cache_after_bytes [OF y this, where tr = "[]" and E' = steady and t' = 1] y show ?thesis by simp
qed

section \<open>Array-buffer allocators\<close>

text \<open>C25. The allocator registry is a map: under every interleaving of the atomic steps of look-ups
  (with their cache), removals and registrations by any number of threads, the results the
  operations return are, in this order, those of a plain map from numbers to callbacks without a
  cache, and the registry ends up as that map. In particular no look-up returns the callbacks of
  an allocator that was dropped before it.\<close>

theorem allocator_lookups_linearizable:
  "replay registry_accepts (fst (emits astep sched \<lparr>areg = aboot w, pending = (\<lambda>_. None)\<rparr>)) Map.empty
    = Some (registry (snd (emits astep sched \<lparr>areg = aboot w, pending = (\<lambda>_. None)\<rparr>)))"
proof -
  have "registry \<lparr>areg = aboot w, pending = (\<lambda>_. None)\<rparr> = Map.empty"
    by (simp add: registry_def callbacksAt_def aboot_def fun_eq_iff)
  with allocator_registry.emits_refine [of "\<lparr>areg = aboot w, pending = (\<lambda>_. None)\<rparr>" sched] cache_ok_boot [of w]
  show ?thesis by simp
qed

text \<open>C40. The registration loop always ends with an answer: it finds a number that is not zero and not
  in use, stores the callbacks under it and in the cache and changes no other entry; it reports an
  exhausted registry only when every number other than zero and the one it started from is in use.
  The counter is a 64-bit word that wraps around.\<close>

theorem register_finds_a_free_number:
  "case registerArrayBufferAllocator cb x of
     (Inr n, y) \<Rightarrow> n \<noteq> 0 \<and> aentries x n = None \<and> aentries y = (aentries x)(n \<mapsto> anextEntry x)
        \<and> aheap y (anextEntry x) = \<lparr>ae_id = n, ae_callbacks = cb\<rparr> \<and> fst (lookupArrayBufferAllocatorEntry n y) = Some (anextEntry x)
   | (Inl e, y) \<Rightarrow> {n. n \<noteq> 0 \<and> n \<noteq> anext x \<and> aentries x n = None} = {} \<and> aentries y = aentries x"
  by (rule register_cases [of x cb])
    (auto simp: storeEntry_def Let_def lookupArrayBufferAllocatorEntry_def loadActive_def)

section \<open>Callbacks\<close>

unbundle bit_operations_syntax


text \<open>A run that registers one callback, and a frame with which the engine calls it.\<close>

definition registered :: "(tid \<times> hop) list" where
  "registered = map (\<lambda>(t, a). (t, HBase a)) start @ [(1, HRegister 0 [0 \<mapsto> 3] \<lparr>v_iso = 0, v_sc = 0, v_h = 0\<rparr>)]"

definition sampleFrame :: hostCallbackFrame where
  "sampleFrame = (frames (hboot (boot None)) 0)
     \<lparr>fr_handle := 1, fr_argc := 3, fr_flags := 1, fr_isolate := 7, fr_scopeWire := 4, fr_ctxWire := 6, fr_rvWord := 8\<rparr>"


abbreviation after_registration :: hsys where
  "after_registration \<equiv> hruns steady 5 (\<lambda>_. False) registered (hboot (boot None))"

lemma first_handle: "reserveLoop Map.empty 0 = Some 1"
  by (subst reserveLoop.simps) simp

lemmas callback_simps = op_defs check_defs hboot_def wboot_def registered_def eval_simps first_handle hOnBase_def lift_def
  publishFastHostCallbackLocked_def chunkIndex_def chunkSlot_def hostCallbackFastChunkSize_def Let_def

lemma after_registration_fields:
  "hentries after_registration = [1 \<mapsto> \<lparr>he_iso = 0, he_ctx = 7, he_closure = [0 \<mapsto> 3]\<rparr>]"
  "lookupHostCallback 1 after_registration = Inr (Some \<lparr>he_iso = 0, he_ctx = 7, he_closure = [0 \<mapsto> 3]\<rparr>)"
  "hnextObj after_registration = 0" "Isolate_check 1 0 (hworld after_registration) = None"
  by (simp_all add: callback_simps lookupHostCallback_def)




text \<open>C12. When no callback is running, every callback scope and every return value that was ever handed out is
  refused, whatever the program kept of them.\<close>

theorem callback_objects_expire:
  assumes "k_frame (cscopes (hruns E d rel tr (hboot w)) c) = Some f"
  shows "CallbackScope_check t (Some c) (hruns E d rel tr (hboot w)) \<noteq> None
    \<and> RV_checkedFrame t \<lparr>rv_cs = c, rv_frame = mf\<rparr> (hruns E d rel tr (hboot w)) \<noteq> None"
proof -
  have ok: "frames_ok (hruns E d rel tr (hboot w))" by (rule hstate_frames_ok [OF hstate_hruns [OF hstate.boot]])
  show ?thesis
    using CallbackScope_live [OF ok assms, of t] ReturnValue_live [OF ok, of "\<lparr>rv_cs = c, rv_frame = mf\<rparr>" f t] assms
      no_frame_at_rest [of E d rel tr w] by auto
qed

theorem callback_objects_expire_witness:
  "CallbackScope_check 1 (Some 1) (hruns steady 5 (\<lambda>_. False) (registered @ [(1, HCall sampleFrame 0 [])]) (hboot (boot None))) \<noteq> None"
proof -
  let ?x = "hruns steady 5 (\<lambda>_. False) (registered @ [(1, HCall sampleFrame 0 [])]) (hboot (boot None))"
  have "k_frame (cscopes ?x 1) = Some 0"
    by (simp add: callback_simps sampleFrame_def lookupHostCallback_def intercepts_def)
  from callback_objects_expire [OF this] show ?thesis by blast
qed

text \<open>Property-callback arguments have no such check: kept beyond their callback they read the dead frame.\<close>

theorem property_arguments_read_dead_frames:
  "fst (PA_This a (hruns E d rel tr (hboot w))) = Inl (Misuse ''native frame read after its callback returned'')"
  by (simp add: PA_This_def PA_wire_def readFrame_def no_frame_at_rest)

text \<open>C11. The operations of a return value refine the assignment of a variable: after any sequence of them, the
  value JavaScript will see is that of the last operation that was not refused, whether an int32 is
  kept in the frame or stored in the engine at once, and whatever the engine refuses in between.\<close>

theorem return_value_is_last_accepted:
  "rvValue E f (snd (emits (rv_step E t \<lparr>rv_cs = c, rv_frame = Some f\<rparr>) ops x))
   = fold rv_accept (fst (emits (rv_step E t \<lparr>rv_cs = c, rv_frame = Some f\<rparr>) ops x)) (rvValue E f x)"
  using return_value.emits_refine [OF TrueI, THEN conjunct1, of E t c f ops x] by (simp add: replay_total)

text \<open>As long as some handle is free, the search of a registration ends, with a handle that is not zero
  and not in use.\<close>

theorem registration_finds_a_handle:
  assumes "hentries x h = None" "h \<noteq> 0"
  shows "\<exists>k y. reserveHandle x = (Inr k, y) \<and> k \<noteq> 0 \<and> hentries x k = None \<and> hnext y = k"
  using reserveLoop_finds [of h "hentries x" "hnext x"] assms reserveLoop_free by (force simp: reserveHandle_def)

theorem registration_finds_a_handle_witness:
  "\<exists>k y. reserveHandle after_registration = (Inr k, y) \<and> k \<noteq> 0 \<and> k \<noteq> 1 \<and> hnext y = k"
  using registration_finds_a_handle [of after_registration 9] by (auto simp: after_registration_fields split: if_splits)

text \<open>A directory that skipped a chunk panics when a handle of that chunk is stored: handle 1025 is the first one
  stored after 1024 registrations the engine refused, and handle 1 follows the reset of the counter.\<close>

theorem skipped_chunk_panics:
  "publishFastHostCallbackLocked 1 e' (publishFastHostCallbackLocked 1025 e None) = None"
  by (simp add: publishFastHostCallbackLocked_def chunkIndex_def chunkSlot_def hostCallbackFastChunkSize_def)

text \<open>The word that function arguments carry in place of the frame gives back the argument count and the
  construct flag of the frame it was made from.\<close>

theorem argument_shape_round_trip:
  assumes "uint (fr_argc fr) < 2 ^ 32"
  shows "FA_Length (functionArguments c f fr) = uint (fr_argc fr) \<and> (IsConstructCall (functionArguments c f fr) \<longleftrightarrow> fr_flags fr AND 1 \<noteq> 0)"
proof -
  have "uint (fr_argc fr) < 2 ^ LENGTH(32)" using assms by simp
  then have "uint (ucast (fr_argc fr) :: 32 word) = uint (fr_argc fr)" by (simp only: unsigned_ucast_eq take_bit_int_eq_self uint_ge_0)
  then show ?thesis by (simp add: FA_Length_def IsConstructCall_def functionArguments_def shape_length shape_construct)
qed

theorem argument_shape_round_trip_witness:
  "FA_Length (functionArguments 1 0 sampleFrame) = 3 \<and> IsConstructCall (functionArguments 1 0 sampleFrame)"
  using argument_shape_round_trip [of sampleFrame 1 0] by (simp add: sampleFrame_def)



text \<open>In any run of fewer than \<open>2 ^ 61 - 1\<close> calls, the token of a new host reference is aligned, was not in use,
  finds its value until it is removed, and changes what no other token finds.\<close>

theorem host_ref_tokens:
  assumes "HostRefAdd t i v w (host_runs rel tr host_boot) = (Inr token, d)" and "length tr < 2 ^ 61 - 1"
  shows "token \<noteq> 0 \<and> token mod 8 = 0
    \<and> fst (HostRefGet i token (host_runs rel tr host_boot)) = None
    \<and> fst (HostRefGet i token d) = Some v
    \<and> (\<forall>other. other \<noteq> token \<longrightarrow> fst (HostRefGet i other d) = fst (HostRefGet i other (host_runs rel tr host_boot)))
    \<and> fst (HostRefRemove i token d) = Some v
    \<and> fst (HostRefGet i token (snd (HostRefRemove i token d))) = None"
proof -
  let ?d = "host_runs rel tr host_boot"
  let ?r = "refsFor i ?d"
  let ?n = "hr_next ?r + 1"
  have ok: "refs_ok ?d" and u: "unat (hr_next ?r) \<le> length tr" using host_runs_refs [of tr rel] assms(2) by simp_all
  have token: "token = push_bit 3 ?n" and d: "d = putRefs i (?r\<lparr>hr_next := ?n, hr_values := (hr_values ?r)(?n \<mapsto> v)\<rparr>) ?d"
    using assms(1) by (auto simp: HostRefAdd_def guarded_eq_Inr Let_def)
  have n: "?n \<noteq> 0" using u assms(2) by (intro plus_1_nonzero) simp
  then have n': "unat ?n < 2 ^ 61" using u assms(2) by (simp add: unat_plus_1)
  have split: "hostRefSplit token = Some ?n" unfolding token by (rule split_token [OF n n'])
  have "\<not> ?n \<le> hr_next ?r" using n by (simp add: word_le_nat_alt unat_plus_1)
  then have fresh: "hr_values ?r ?n = None" using ok by (auto simp: refs_ok_def)
  have "other = token" if "hostRefSplit other = Some ?n" for other
  proof -
    have m: "other mod 8 = 0" and s: "drop_bit 3 other = ?n"
      using that by (auto simp: hostRefSplit_def split: if_splits)
    have "unat other mod 8 = 0" using arg_cong [OF m, of unat] by (simp add: unat_mod_distrib)
    moreover have "unat other div 8 = unat ?n" using arg_cong [OF s, of unat] by (simp add: drop_bit_eq_div unat_div_distrib)
    ultimately have "unat other = unat token" unfolding token unat_token [OF n'] by presburger
    then show ?thesis by (rule unsigned_word_eqI)
  qed
  then have "fst (HostRefGet i other d) = fst (HostRefGet i other ?d)" if "other \<noteq> token" for other
    using that by (auto simp: HostRefGet_def d split: option.splits)
  moreover have "token \<noteq> 0 \<and> token mod 8 = 0" using split by (auto simp: hostRefSplit_def split: if_splits)
  ultimately show ?thesis using split fresh by (simp add: HostRefGet_def HostRefRemove_def d Let_def)
qed

theorem host_ref_tokens_witness:
  "\<exists>d. HostRefAdd 1 0 5 (runs steady start (boot None)) host_boot = (Inr 8, d) \<and> fst (HostRefGet 0 8 d) = Some 5"
proof -
  obtain d where d: "HostRefAdd 1 0 5 (runs steady start (boot None)) (host_runs (\<lambda>_. False) [] host_boot) = (Inr 8, d)"
    by (simp add: HostRefAdd_def host_runs_def host_boot_def refsFor_def Let_def eval_simps)
  from host_ref_tokens [OF d] d show ?thesis by (auto simp: host_runs_def)
qed

section \<open>Buffers\<close>

text \<open>C13. A backing store may be used and closed by any number of goroutines at once. In every interleaving of their
  critical sections and engine calls, after the disposal of a store was accepted no call reaches the
  engine with that store, neither a use nor a second disposal, and every call before it used the one
  handle that was disposed of.\<close>

theorem store_never_used_after_disposal:
  assumes "binit c0" "bstep\<^sup>*\<^sup>* c0 c" "blog c = xs @ Disposed b h True # ys"
  shows "(\<forall>e \<in> set ys. ev_store e \<noteq> b) \<and> (\<forall>e \<in> set xs. ev_store e = b \<longrightarrow> ev_handle e = h)"
proof -
  have "binv c" using backing_stores.rtranclp_inv [OF assms(2) backing_stores.inv_init [OF assms(1)]] .
  then have "log_ok (stores (bst c) b) (bpcs c) b (blog c)" by (rule binv_ok)
  then obtain k where "clean b (blog c)" "one_handle b k (blog c)" by (auto simp: log_ok_def)
  with assms(3) show ?thesis by (auto simp: clean_def one_handle_def)
qed

definition conc_boot :: bconc where
  "conc_boot = \<lparr>bst = buf_boot (boot None), bpcs = (\<lambda>_. BIdle), blog = []\<rparr>"

theorem store_never_used_after_disposal_witness:
  "\<exists>c. bstep\<^sup>*\<^sup>* conc_boot c \<and> blog c = [Used 0 7, Disposed 0 7 True] \<and> (\<forall>e \<in> set [Used 0 7]. ev_store e = 0 \<longrightarrow> ev_handle e = 7)"
proof -
  let ?q = "\<lparr>b_iso = 0, b_handle = 7, b_arrayBufferAllocatorReference = 0, b_closed = False, b_closing = False, b_active = 0\<rparr>"
  let ?x1 = "snd (newStore 0 7 0 (buf_boot (boot None)))"
  let ?c1 = "conc_boot\<lparr>bst := ?x1\<rparr>"
  let ?x2 = "upd_store 0 (\<lambda>q. q\<lparr>b_active := b_active q + 1\<rparr>) ?x1"
  let ?c2 = "?c1\<lparr>bst := ?x2, bpcs := (bpcs ?c1)(0 := Using 0 7)\<rparr>"
  let ?c3 = "?c2\<lparr>blog := blog ?c2 @ [Used 0 7]\<rparr>"
  let ?c4 = "?c3\<lparr>bst := endUse 0 (bst ?c3), bpcs := (bpcs ?c3)(0 := BIdle)\<rparr>"
  let ?c5 = "?c4\<lparr>bst := upd_store 0 (\<lambda>q. q\<lparr>b_closing := True\<rparr>) (bst ?c4), bpcs := (bpcs ?c4)(0 := Disposing 0 7)\<rparr>"
  let ?c6 = "?c5\<lparr>bpcs := (bpcs ?c5)(0 := if True then PublishingClose 0 else AbandoningClose 0), blog := blog ?c5 @ [Disposed 0 7 True]\<rparr>"
  have s: "stores ?x1 0 = ?q" "bbase ?x1 = boot None" by (simp_all add: newStore_def Let_def buf_boot_def)
  have l: "loadShim (boot None) = None" by (simp add: loadShim_def boot_def)
  have "bstep conc_boot ?c1" by (rule bstep.create [of 0 7 0 _ 0]) (simp add: newStore_def Let_def conc_boot_def buf_boot_def)
  moreover have "bstep ?c1 ?c2"
    using l by (intro bstep.begin_use) (simp_all add: conc_boot_def beginUse_Inr s)
  moreover have "bstep ?c2 ?c3" by (rule bstep.engine_call [of _ 0]) simp
  moreover have "bstep ?c3 ?c4" by (rule bstep.end_use) simp
  moreover have "bstep ?c4 ?c5" by (rule bstep.begin_close) (simp_all add: closeBegin_Inr endUse_def s)
  moreover have "bstep ?c5 ?c6" by (rule bstep.dispose) simp
  ultimately have run: "bstep\<^sup>*\<^sup>* conc_boot ?c6" by (meson rtranclp.rtrancl_into_rtrancl rtranclp.rtrancl_refl)
  have log: "blog ?c6 = [Used 0 7] @ Disposed 0 7 True # []" by (simp add: conc_boot_def)
  have "binit conc_boot" by (simp add: binit_def conc_boot_def buf_boot_def)
  from store_never_used_after_disposal [OF this run log] run log show ?thesis by auto
qed




text \<open>No deleter of a backing store runs twice, and one that ran is no longer registered.\<close>

theorem backing_store_deleters_run_once:
  "distinct (map fst (bdeleted (buf_runs E d tr (buf_boot w))))
   \<and> dom (dEntries (buf_runs E d tr (buf_boot w))) \<inter> fst ` set (bdeleted (buf_runs E d tr (buf_boot w))) = {}"
proof -
  have "deleters_core (dNext (buf_boot w)) (dEntries (buf_boot w)) (map fst (bdeleted (buf_boot w)))"
    by (simp add: buf_boot_def deleters_core_def)
  with run_once.R_runs [of "buf_boot w" E d tr] show ?thesis by (simp add: deleters_core_def)
qed

text \<open>C27. The tables of typed-array kinds agree: the listed kinds are the valid ones, each once; exactly these have an
  element size and a predicate of their own; and the name of a kind identifies it, also for the
  numbers that are no kind.\<close>

theorem typed_array_kinds:
  "set TypedArrayKinds = {k. IsValid k} \<and> distinct TypedArrayKinds
   \<and> (\<forall>k. IsValid k \<longleftrightarrow> ElementSize k \<noteq> 0) \<and> inj TypedArrayKind_String
   \<and> dom (map_of kindPredicates) = {k. IsValid k} \<and> inj_on (map_of kindPredicates) {k. IsValid k}"
proof -
  have d: "dom (map_of kindPredicates) = {k. IsValid k}" using kind_tables(6) by (simp add: dom_map_of_conv_image_fst)
  have "k = l" if "IsValid k" "map_of kindPredicates k = map_of kindPredicates l" for k l
    using that d map_of_inj [OF kind_tables(5), of k _ l] by (metis domIff mem_Collect_eq not_None_eq)
  then have "inj_on (map_of kindPredicates) {k. IsValid k}" by (auto simp: inj_on_def)
  then show ?thesis using d kinds_set kinds_distinct(1) IsValid_ElementSize TypedArrayKind_String_inj by (auto simp: inj_def)
qed

text \<open>NewTypedArrayOfKind passes a buffer of another isolate on to the engine, where newTypedArray refuses it
  unseen.\<close>

theorem foreign_buffer_reaches_the_engine:
  assumes "contextHandles t (Some s) (Some c) ''NewTypedArrayOfKind'' w = None" "requireInitialized w = None"
    and "Value_check t ab w = None" "v_iso ab \<noteq> s_iso (scopes w s)" "IsValid k" "0 \<le> off" "0 \<le> len"
  shows "calls (snd (NewTypedArrayOfKind E t (Some s) (Some c) (Some ab) k off len w)) \<noteq> calls w
    \<and> newTypedArray E t (Some s) (Some c) (Some ab) k off len w = (Inl (Foreign KValue), w)"
  using assms
  by (auto simp: NewTypedArrayOfKind_def newTypedArray_def viewNew_def viewBuffer_check_def contextHandles_def scopeHandles_def
      guarded_def handleChecked_def localCall_def callErr_eq Let_def Scope_check_def split: option.splits if_splits)

definition two_isolates :: "(tid \<times> api) list" where
  "two_isolates = start @ [(1, Life OpNewIsolate), (1, Scp (OpNewScope 0)), (1, Ctx (OpNewContext 0)), (1, Scp (OpNewScope 1))]"

theorem foreign_buffer_reaches_the_engine_witness:
  "calls (snd (NewTypedArrayOfKind steady 1 (Some 2) (Some 3) (Some \<lparr>v_iso = 1, v_sc = 4, v_h = 9\<rparr>) viewInt8 0 4
      (runs steady two_isolates (boot None)))) \<noteq> calls (runs steady two_isolates (boot None))"
proof -
  let ?w = "runs steady two_isolates (boot None)"
  have "contextHandles 1 (Some 2) (Some 3) ''NewTypedArrayOfKind'' ?w = None" "requireInitialized ?w = None"
    "Value_check 1 \<lparr>v_iso = 1, v_sc = 4, v_h = 9\<rparr> ?w = None" "s_iso (scopes ?w 2) = 0"
    by (simp_all add: two_isolates_def check_defs eval_simps)
  from foreign_buffer_reaches_the_engine [OF this(1-3), of viewInt8 0 4 steady] this(4) show ?thesis
    by (simp add: IsValid_iff viewInt8_def)
qed

section \<open>Custom platforms\<close>

text \<open>C15. The engine hands native tasks to an embedder and any goroutine may run or close them, while the engine posts more and takes the
  platform down. In every interleaving of the atomic parts of these operations the calls on native tasks follow the
  specification: a task is posted once, retained only by the entry it was posted to and only while it is not consumed, and consumed at
  most once, with the handle it was posted with.\<close>

theorem tasks_consumed_once:
  assumes "pfresh c" "emits pstep acts c = (es, c')"
  shows "replay task_accepts es (\<lambda>_. Absent) = Some (task_states c') \<and> length (filter (consumes r) es) \<le> 1"
  using tasks_accepted [OF assms(1), of acts] consumed_once [of es "task_states c'" r] assms(2) by auto

theorem tasks_consumed_once_witness:
  "replay task_accepts [Posted 0 0 7, Consumed 0 7 True] (\<lambda>_. Absent)
     = Some (task_states (snd (emits pstep [AStart 0 1 (RPost False 3 7), ATake 1 0 True, ANext 1 0, ANext 1 0, ANext 0 0] (pconfigured (boot None)))))"
proof -
  let ?r = "emits pstep [AStart 0 1 (RPost False 3 7), ATake 1 0 True, ANext 1 0, ANext 1 0, ANext 0 0] (pconfigured (boot None))"
  have "fst ?r = [Posted 0 0 7, Consumed 0 7 True]" by (simp add: platform_eval)
  then have "?r = ([Posted 0 0 7, Consumed 0 7 True], snd ?r)" by (rule fst_eq_pair)
  from tasks_consumed_once [OF pfresh_configured this] show ?thesis by simp
qed

text \<open>C16. No native task is lost: once an entry has been dropped and all threads have come to rest, every task that was posted to it has
  been consumed exactly once, also a task that its callback retained and the embedder forgot, and one whose post overlapped the
  end of the platform. (The numbers of retained tasks must not have wrapped.)\<close>

theorem no_task_is_lost:
  assumes "pfresh c" "emits pstep acts c = (es, c')" "bounded c'"
    and "\<forall>g. ppcs c' g = PIdle" "pe_done (pheap (pst c') e)" "Posted e r h \<in> set es"
  shows "\<exists>run. Consumed r h run \<in> set es \<and> filter (consumes r) es = [Consumed r h run]"
proof -
  have run: "replay task_accepts es (\<lambda>_. Absent) = Some (task_states c')" "task_inv c'"
    using tasks_accepted [OF assms(1), of acts] emits_inv [OF assms(1), of acts] assms(2) by auto
  have "task_states c' r \<noteq> Owned e h"
  proof
    assume o: "task_states c' r = Owned e h"
    then have "fst (porigin c' r) = e" "r < pnextTask (pst c')" by (auto simp: task_states_def split: if_splits)
    with gone_at_rest [OF run(2) assms(3), of r] assms(4,5) o show False by simp
  qed
  with posted_state [OF run(1) assms(6)] obtain b where "task_states c' r = Gone" "Consumed r h b \<in> set es" by blast
  moreover from this consumed_once [OF run(1), of r] have "length (filter (consumes r) es) = 1" by simp
  moreover have "Consumed r h b \<in> set (filter (consumes r) es)" using \<open>Consumed r h b \<in> set es\<close> by simp
  ultimately show ?thesis by (cases "filter (consumes r) es") auto
qed

theorem no_task_is_lost_witness: "\<exists>run. Consumed 0 7 run \<in> set [Posted 0 0 7, Retained 0 0, Consumed 0 7 False, ImplClosed 0]
   \<and> filter (consumes 0) [Posted 0 0 7, Retained 0 0, Consumed 0 7 False, ImplClosed 0] = [Consumed 0 7 run]"
proof -
  let ?r = "emits pstep ([AStart 0 1 (RPost False 3 7), ANext 0 0, ANext 0 0, AStart 1 1 RDrop,
      ANext 1 0, ANext 1 0, ANext 1 0, ANext 1 0, ANext 1 0, ANext 1 0]) (pconfigured (boot None))"
  have run: "fst ?r = [Posted 0 0 7, Retained 0 0, Consumed 0 7 False, ImplClosed 0]"
    by (simp add: platform_eval)
  have "bounded (snd ?r)" "\<forall>g. ppcs (snd ?r) g = PIdle" "pe_done (pheap (pst (snd ?r)) 0)"
    by (simp_all add: platform_eval bounded_def)
  from no_task_is_lost [OF pfresh_configured fst_eq_pair [OF run] this, of 0 7] show ?thesis by simp
qed

text \<open>C30. The finalizer that is armed on a retained task never has a chance to run: as long as it is armed, the task is in the
  work map of an entry, or in the list of the thread that drops the entry, or in a method that is about to disarm it, and hence reachable.
  A retained task that the embedder forgets is deleted with the platform and not before.\<close>

theorem armed_task_stays_reachable:
  assumes "pfresh c" "emits pstep acts c = (es, c')" "bounded c'" "t_finalizer (ptasks (pst c') r)"
  shows "(\<exists>e k. (k, r) \<in> set (pe_work (pheap (pst c') e))) \<or> (\<exists>e. drainedBy (ppcs c') e r) \<or> clearedBy (ppcs c') r"
proof -
  have k: "kept c'" using emits_inv [OF assms(1), of acts] assms(2,3) by (simp add: task_inv_def)
  from keepD(11) [OF k assms(4)] show ?thesis
  proof (elim conjE disjE)
    assume "t_retention (ptasks (pst c') r) \<noteq> None"
    then obtain e n where "t_retention (ptasks (pst c') r) = Some (e, n)" by auto
    from keepD(8) [OF k this] show ?thesis by blast
  qed blast
qed

theorem armed_task_stays_reachable_witness: "\<exists>e. drainedBy (\<lambda>_. PIdle) e 0 \<or> (\<exists>k. (k, 0) \<in> set (if e = 0 then [(1, 0)] else []))"
proof -
  let ?r = "emits pstep [AStart 0 1 (RPost False 3 7), ANext 0 0, ANext 0 0] (pconfigured (boot None))"
  have f: "bounded (snd ?r)" "t_finalizer (ptasks (pst (snd ?r)) 0)" "ppcs (snd ?r) = (\<lambda>_. PIdle)"
    "pe_work (pheap (pst (snd ?r)) e) = (if e = 0 then [(1, 0)] else [])" for e
    by (simp_all add: platform_eval bounded_def fun_eq_iff)
  from armed_task_stays_reachable [OF pfresh_configured surjective_pairing [of ?r] f(1,2)] show ?thesis
    unfolding f(3,4) by (auto simp: somewhere_def)
qed

definition consuming_call :: "bool \<Rightarrow> dispatchKind \<Rightarrow> uintptr \<Rightarrow> string \<times> arg list" where
  "consuming_call run k h =
     (if run then if k = platformDispatchIdle then (''gov8_pc_idle_task_run_delete'', [W h, W 0]) else (''gov8_pc_task_run_delete'', [W h])
      else (deleteProc (k = platformDispatchIdle), [W h]))"

text \<open>C28. With the ready-made implementations a post ends with the task consumed by one call of the engine and nothing retained: the
  defaults run and delete it (an idle task with deadline zero), an adapter without callbacks deletes it without running it.\<close>

theorem ready_made_callbacks_consume:
  assumes "lookupCustomPlatformEntry (cf_id f) x = Some e" "dispatch_kind (cf_kind f) = Some k" "k \<noteq> platformDispatchDrop"
    and "cf_isolate f \<noteq> 0" "cf_task f \<noteq> 0"
    and "I (pe_impl (pheap x e)) = (if run then PlatformImplDefaults E t else PlatformImplOf E t no_callbacks)"
  shows "\<exists>y. customPlatformDispatch E t I ord (Some f) x = (Inr (), y) \<and> pheap y = pheap x \<and> t_handle (ptasks y (pnextTask x)) = 0
    \<and> calls (pbase y) = calls (pbase x) @ [Call t (fst (consuming_call run k (cf_task f))) (snd (consuming_call run k (cf_task f)))]"
proof -
  have dis: "customPlatformDispatch E t I ord (Some f) x =
      panicAbort E t (dispatchTask E t (k = platformDispatchIdle) e
        (\<lambda>_. consuming E t (k = platformDispatchIdle) (kindName (k = platformDispatchIdle) @ (if run then ''.Run'' else ''.Close''))
          (fst (consuming_call run k 0)) (tl (snd (consuming_call run k 0)))) (cf_isolate f) (cf_task f) x)"
    using assms by (cases k; cases run)
      (simp_all add: customPlatformDispatch_def Let_def ready_made consuming_call_def kindName_def deleteProc_def)
  have "W h # tl (snd (consuming_call run k 0)) = snd (consuming_call run k h)" "fst (consuming_call run k 0) = fst (consuming_call run k h)" for h
    by (simp_all add: consuming_call_def)
  with dispatch_consuming [OF assms(5), of E t "k = platformDispatchIdle" e _ "fst (consuming_call run k 0)" "tl (snd (consuming_call run k 0))" "cf_isolate f" x]
  show ?thesis unfolding dis by metis
qed

theorem ready_made_callbacks_consume_witness:
  "\<exists>y. customPlatformDispatch steady 1 (\<lambda>_. PlatformImplDefaults steady 1) id
      (Some \<lparr>cf_kind = 4, cf_id = 1, cf_isolate = 7, cf_task = 9, cf_delay = 0\<rparr>) (pst (pconfigured (boot None))) = (Inr (), y)
    \<and> calls (pbase y) = [Call 1 ''gov8_pc_idle_task_run_delete'' [W 9, W 0]]"
proof -
  let ?f = "\<lparr>cf_kind = 4, cf_id = 1, cf_isolate = 7, cf_task = 9, cf_delay = 0\<rparr> :: customPlatformFrame"
  have "lookupCustomPlatformEntry (cf_id ?f) (pst (pconfigured (boot None))) = Some 0" "dispatch_kind (cf_kind ?f) = Some platformDispatchIdle"
    by (simp_all add: platform_eval lookupCustomPlatformEntry_def dispatch_kind_def)
  from ready_made_callbacks_consume [OF this, where I = "\<lambda>_. PlatformImplDefaults steady 1" and E = steady and t = 1 and ord = id and run = True]
  show ?thesis by (auto simp: consuming_call_def) (simp add: platform_eval boot_def)
qed

definition with_task :: psys where
  "with_task = snd (newPlatformTask 7 9 (pst (pconfigured (runs steady start (boot None)))))"

text \<open>Run is one-shot: a Run that changed anything passed all its tests, made the one call that runs and deletes the native task,
  and every later Run or Close of the task is refused without any effect.\<close>

theorem Run_is_one_shot:
  assumes "Task_Run E t (Some r) mi x = (res, y)" "y \<noteq> x"
  shows "first_err (run_guards ''Task'' ''task'' t (Some r) mi x) = None
    \<and> calls (pbase y) = calls (pbase x) @ [Call t ''gov8_pc_task_run_delete'' [W (t_handle (ptasks x r))]]
    \<and> (\<forall>E' t' mi'. snd (Task_Run E' t' (Some r) mi' y) = y \<and> fst (Task_Run E' t' (Some r) mi' y) \<noteq> Inr ())
    \<and> (\<forall>E' t'. Task_Close E' t' (Some r) y = (Inl (Misuse ''Task already consumed''), y))"
proof -
  let ?gs = "run_guards ''Task'' ''task'' t (Some r) mi x"
  have ok: "first_err ?gs = None" "t_handle (ptasks x r) \<noteq> 0"
    using assms by (auto simp: Task_Run_def Task_runTransferred_def Task_take_def takeTask_Some guarded_def simp del: first_err_None split: option.splits if_splits)
  then have y: "y = (takeRelease r (t_retention (ptasks x r)) (upd_task r (\<lambda>q. q\<lparr>t_handle := 0, t_retention := None\<rparr>) x))
       \<lparr>pbase := called t ''gov8_pc_task_run_delete'' [W (t_handle (ptasks x r))] (pbase x)\<rparr>"
    using arg_cong [OF assms(1), of snd]
    by (simp add: Task_Run_def snd_guarded Task_runTransferred_def Task_take_def takeTask_Some snd_andThen pOnBase_unitCall del: first_err_None)
  then have h: "t_handle (ptasks y r) = 0" by simp
  then have again: "Task_runTransferred E' t' (Some r) y = (Inl (Misuse ''Task already consumed''), y)"
    "Task_Close E' t' (Some r) y = (Inl (Misuse ''Task already consumed''), y)" for E' t'
    by (simp_all add: Task_runTransferred_def Task_Close_def Task_take_def takeTask_Some kindName_def)
  have "snd (Task_Run E' t' (Some r) mi' y) = y \<and> fst (Task_Run E' t' (Some r) mi' y) \<noteq> Inr ()" for E' t' mi'
    using again(1) by (simp add: Task_Run_def guarded_def split: option.split)
  with ok y again(2) show ?thesis by simp
qed

theorem Run_is_one_shot_witness: "Task_Close steady 1 (Some 0) (snd (Task_Run steady 1 (Some 0) (Some 0) with_task))
    = (Inl (Misuse ''Task already consumed''), snd (Task_Run steady 1 (Some 0) (Some 0) with_task))"
proof -
  let ?y = "snd (Task_Run steady 1 (Some 0) (Some 0) with_task)"
  have "t_handle (ptasks with_task 0) = 9" "t_handle (ptasks ?y 0) = 0"
    by (simp_all add: with_task_def platform_eval op_defs check_defs eval_simps lift_def)
  then have "?y \<noteq> with_task" by auto
  from Run_is_one_shot [OF surjective_pairing this] show ?thesis by blast
qed



section \<open>Inspectors\<close>






text \<open>C35. A string view given to the engine and read back by a dispatcher, of a client or of a channel, has the same encoding and the same
  characters; \<open>m8\<close> and \<open>m16\<close> read the memory that the view was written to.\<close>

theorem inspector_view_round_trip:
  assumes "native v = [W is8, Buf mem, W len]" "View_Len v < 2 ^ 63" "p \<noteq> 0"
    and "m8 p (unat len) = take (unat len) (map charByte mem)" "m16 p (unat len) = take (unat len) (readUnits (map charByte mem))"
  shows "inspectorCallbackView m8 m16 is8 p len = Inr (NewInspectorStringBuffer v)
    \<and> NewInspectorStringBuffer (callback_view is8 (m8 p (unat len)) (m16 p (unat len))) = NewInspectorStringBuffer v"
proof -
  have u: "unat (of_nat n :: 64 word) = n" if "n < 2 ^ 63" for n using that by (simp add: unsigned_of_nat take_bit_nat_eq_self)
  have "map (charByte \<circ> byteChar) bs = bs" for bs by (simp add: comp_def)
  then show ?thesis using assms u
    by (cases "v_units v")
      (auto simp: native_def View_Len_def inspectorCallbackView_def callback_view_def NewInspectorStringBuffer_def NewInspectorStringView8_def
        NewInspectorStringView16_def Is8Bit_def Characters8_def Characters16_def slice_def Let_def of_nat_eq_0_iff)
qed

theorem inspector_view_round_trip_witness:
  "inspectorCallbackView (\<lambda>_ _. [0xB1, 3]) (\<lambda>_ _. [0x3B1, 0]) 0 16 2 = Inr (NewInspectorStringView16 [0x3B1, 0])"
proof -
  let ?v = "NewInspectorStringView16 [0x3B1, 0]" and ?bytes = "concat (map unitBytes [0x3B1, 0])"
  have m: "map charByte (map byteChar ?bytes) = ?bytes" by (simp add: comp_def)
  have "native ?v = [W 0, Buf (map byteChar ?bytes), W 2]" "View_Len ?v < 2 ^ 63"
    by (simp_all add: native_def NewInspectorStringView16_def slice_def View_Len_def)
  from inspector_view_round_trip [OF this, of 16 "\<lambda>_ _. [0xB1, 3]" "\<lambda>_ _. [0x3B1, 0]"]
  show ?thesis unfolding m readUnits_unitBytes
    by (simp add: unitBytes_def NewInspectorStringBuffer_def NewInspectorStringView16_def Is8Bit_def Characters16_def slice_def)
qed

end
